(* ===== verification/Prelude.thy ===== *)
theory Prelude
  imports Main "HOL-Library.Word"
begin

text \<open>
  Shared vocabulary of the development: the collections of simplification
  rules the component theories fill, the names of the machine types of the
  Go sources, and the generic facts about lists, options, words and byte
  strings that more than one component uses.
\<close>

unbundle bit_operations_syntax

section \<open>Collections\<close>

named_theorems match_simps \<open>equations of the rule items and the rule engine\<close>
named_theorems ctx_simps \<open>what an operation keeps of the inbound context\<close>
named_theorems codec_simps \<open>decoder applied to the matching encoder\<close>

section \<open>Machine types\<close>

type_synonym u8 = "8 word"
type_synonym u16 = "16 word"
type_synonym u32 = "32 word"
type_synonym u64 = "64 word"
type_synonym byte = "8 word"
type_synonym bytes = "8 word list"

section \<open>Lists\<close>

text \<open>
  \<^const>\<open>list_ex\<close> and \<^const>\<open>list_all\<close> stand for the loops of
  \<^verbatim>\<open>common.Any\<close>, \<^verbatim>\<open>common.All\<close>, \<^verbatim>\<open>slices.ContainsFunc\<close>
  and for the map lookups that the sources build from a list of keys.
\<close>

lemma list_ex_False [simp]: "list_ex (\<lambda>_. False) xs = False"
  by (induction xs) auto

lemma list_ex_mono:
  "list_ex P xs \<Longrightarrow> (\<And>x. x \<in> set xs \<Longrightarrow> P x \<Longrightarrow> Q x) \<Longrightarrow> list_ex Q xs"
  by (auto simp: list_ex_iff)

lemma list_ex_cong_set:
  "(\<And>x. x \<in> set xs \<Longrightarrow> P x = Q x) \<Longrightarrow> list_ex P xs = list_ex Q xs"
  by (auto simp: list_ex_iff)

lemma list_all_cong_set:
  "(\<And>x. x \<in> set xs \<Longrightarrow> P x = Q x) \<Longrightarrow> list_all P xs = list_all Q xs"
  by (auto simp: list_all_iff)

section \<open>Strings\<close>

text \<open>
  \<^verbatim>\<open>strings.HasPrefix\<close>, \<^verbatim>\<open>strings.HasSuffix\<close>, \<^verbatim>\<open>strings.Contains\<close>,
  \<^verbatim>\<open>strings.Index\<close> of a character, \<^verbatim>\<open>strings.Split\<close> at a character and
  \<^verbatim>\<open>strings.Join\<close>, on byte strings.
\<close>

definition HasPrefix :: "string \<Rightarrow> string \<Rightarrow> bool" where
  "HasPrefix s p \<longleftrightarrow> take (length p) s = p"

definition HasSuffix :: "string \<Rightarrow> string \<Rightarrow> bool" where
  "HasSuffix s p \<longleftrightarrow> length p \<le> length s \<and> drop (length s - length p) s = p"

fun StrContains :: "string \<Rightarrow> string \<Rightarrow> bool" where
  "StrContains [] p = (p = [])"
| "StrContains (c # s) p = (HasPrefix (c # s) p \<or> StrContains s p)"

fun StrIndex :: "string \<Rightarrow> char \<Rightarrow> nat option" where
  "StrIndex [] c = None"
| "StrIndex (x # s) c = (if x = c then Some 0 else map_option Suc (StrIndex s c))"

fun StrSplit :: "char \<Rightarrow> string \<Rightarrow> string list" where
  "StrSplit c [] = [[]]"
| "StrSplit c (x # s) =
     (if x = c then [] # StrSplit c s
      else (case StrSplit c s of [] \<Rightarrow> [[x]] | w # ws \<Rightarrow> (x # w) # ws))"

fun StrJoin :: "string list \<Rightarrow> string \<Rightarrow> string" where
  "StrJoin [] sep = []"
| "StrJoin [w] sep = w"
| "StrJoin (w # v # ws) sep = w @ sep @ StrJoin (v # ws) sep"

text \<open>\<^verbatim>\<open>strings.ToLower\<close> on the ASCII letters, the only ones a domain name holds.\<close>

definition ToLowerChar :: "char \<Rightarrow> char" where
  "ToLowerChar c = (let n = of_char c :: nat in
     if 65 \<le> n \<and> n \<le> 90 then char_of (n + 32) else c)"

definition ToLower :: "string \<Rightarrow> string" where
  "ToLower s = map ToLowerChar s"

lemma StrContains_iff: "StrContains s p \<longleftrightarrow> (\<exists>a b. s = a @ p @ b)"
proof (induction s)
  case Nil
  then show ?case by auto
next
  case (Cons c s)
  have pre: "HasPrefix (c # s) p \<longleftrightarrow> (\<exists>b. c # s = p @ b)"
    by (metis HasPrefix_def append_eq_conv_conj)
  show ?case
  proof
    assume "StrContains (c # s) p"
    then show "\<exists>a b. c # s = a @ p @ b"
      using pre Cons.IH by (metis StrContains.simps(2) append_Cons append_Nil)
  next
    assume "\<exists>a b. c # s = a @ p @ b"
    then obtain a b where ab: "c # s = a @ p @ b" by blast
    show "StrContains (c # s) p"
    proof (cases a)
      case Nil
      with ab have "HasPrefix (c # s) p" using pre by auto
      then show ?thesis by simp
    next
      case (Cons x xs)
      with ab have "s = xs @ p @ b" by simp
      with \<open>StrContains s p \<longleftrightarrow> (\<exists>a b. s = a @ p @ b)\<close> show ?thesis by auto
    qed
  qed
qed

lemma StrIndex_Some:
  "StrIndex s c = Some i \<Longrightarrow> i < length s \<and> s ! i = c \<and> c \<notin> set (take i s)"
  by (induction s arbitrary: i) (auto split: if_splits)

lemma StrIndex_None [simp]: "StrIndex s c = None \<longleftrightarrow> c \<notin> set s"
  by (induction s) auto

lemma StrSplit_nonempty [simp]: "StrSplit c s \<noteq> []"
  by (induction s) (auto split: list.splits)

lemma StrSplit_notin: "c \<notin> set s \<Longrightarrow> StrSplit c s = [s]"
  by (induction s) auto

lemma StrSplit_append:
  "c \<notin> set w \<Longrightarrow> StrSplit c (w @ c # s) = w # StrSplit c s"
  by (induction w) auto

lemma StrJoin_StrSplit: "StrJoin (StrSplit c s) [c] = s"
proof (induction s)
  case Nil
  then show ?case by simp
next
  case (Cons x s)
  obtain w ws where w: "StrSplit c s = w # ws"
    by (cases "StrSplit c s") auto
  then show ?case
    using Cons.IH by (cases ws) auto
qed

section \<open>Byte strings\<close>

text \<open>
  Fixed-width big-endian integers as \<^verbatim>\<open>encoding/binary\<close> writes and reads
  them: \<open>be_bytes n x\<close> are the \<open>n\<close> low bytes of \<open>x\<close>, most significant first,
  \<open>be_uint\<close> reads a whole byte string back.
\<close>

fun be_bytes :: "nat \<Rightarrow> nat \<Rightarrow> bytes" where
  "be_bytes 0 x = []"
| "be_bytes (Suc n) x = be_bytes n (x div 256) @ [word_of_nat (x mod 256)]"

definition be_uint :: "bytes \<Rightarrow> nat" where
  "be_uint bs = foldl (\<lambda>a b. a * 256 + unat b) 0 bs"

lemma length_be_bytes [simp]: "length (be_bytes n x) = n"
  by (induction n arbitrary: x) auto

lemma be_uint_Nil [simp]: "be_uint [] = 0"
  by (simp add: be_uint_def)

lemma be_uint_snoc [simp]: "be_uint (bs @ [b]) = be_uint bs * 256 + unat b"
  by (simp add: be_uint_def)

lemma be_uint_append: "be_uint (xs @ ys) = be_uint xs * 256 ^ length ys + be_uint ys"
proof (induction ys rule: rev_induct)
  case Nil
  then show ?case by simp
next
  case (snoc y ys)
  have "be_uint (xs @ ys @ [y]) = be_uint ((xs @ ys) @ [y])" by simp
  also have "\<dots> = be_uint (xs @ ys) * 256 + unat y" by (rule be_uint_snoc)
  finally show ?case using snoc.IH by (simp add: algebra_simps)
qed

lemma unat_byte_bound: "unat (b :: byte) < 256"
  using unsigned_less [of b] by simp

lemma be_uint_less: "be_uint bs < 256 ^ length bs"
proof (induction bs rule: rev_induct)
  case Nil
  then show ?case by simp
next
  case (snoc b bs)
  have "unat b < 256" by (rule unat_byte_bound)
  with snoc.IH show ?case by (simp add: algebra_simps)
qed

lemma unat_word_of_nat_byte [simp]: "unat (word_of_nat (x mod 256) :: byte) = x mod 256"
  by (simp add: unat_of_nat)

lemma be_uint_be_bytes [codec_simps]: "be_uint (be_bytes n x) = x mod 256 ^ n"
proof (induction n arbitrary: x)
  case 0
  then show ?case by simp
next
  case (Suc n)
  have "be_uint (be_bytes (Suc n) x) = (x div 256) mod 256 ^ n * 256 + x mod 256"
    using Suc.IH by simp
  also have "\<dots> = x mod (256 * 256 ^ n)"
    by (simp add: mod_mult2_eq)
  finally show ?case by simp
qed

lemma be_bytes_be_uint: "be_bytes (length bs) (be_uint bs) = bs"
proof (induction bs rule: rev_induct)
  case Nil
  then show ?case by simp
next
  case (snoc b bs)
  have b: "unat b < 256" by (rule unat_byte_bound)
  then show ?case using snoc.IH by simp
qed

lemma be_uint_inj: "length xs = length ys \<Longrightarrow> be_uint xs = be_uint ys \<Longrightarrow> xs = ys"
  by (metis be_bytes_be_uint)

text \<open>
  \<open>split_at n bs\<close> is \<^verbatim>\<open>io.ReadFull\<close> of \<open>n\<close> bytes: the bytes and the rest of the
  stream, or nothing when the stream ends first.
\<close>

definition split_at :: "nat \<Rightarrow> bytes \<Rightarrow> (bytes \<times> bytes) option" where
  "split_at n bs = (if n \<le> length bs then Some (take n bs, drop n bs) else None)"

lemma split_at_append [simp, codec_simps]:
  "length xs = n \<Longrightarrow> split_at n (xs @ ys) = Some (xs, ys)"
  by (simp add: split_at_def)

lemma split_at_Some:
  "split_at n bs = Some (x, y) \<Longrightarrow> bs = x @ y \<and> length x = n"
  by (auto simp: split_at_def split: if_splits)

text \<open>
  \<^verbatim>\<open>binary.PutUvarint\<close> and \<^verbatim>\<open>binary.ReadUvarint\<close>: seven bits per byte, least
  significant first, the top bit set on every byte but the last. The reader
  takes at most ten bytes and refuses a tenth byte above 1, which would
  overflow 64 bits.
\<close>

fun uvarint :: "nat \<Rightarrow> bytes" where
  "uvarint x = (if x < 128 then [word_of_nat x]
                else word_of_nat (x mod 128 + 128) # uvarint (x div 128))"

declare uvarint.simps [simp del]

fun read_uvarint_from :: "nat \<Rightarrow> bytes \<Rightarrow> (nat \<times> bytes) option" where
  "read_uvarint_from i [] = None"
| "read_uvarint_from i (b # bs) =
     (if i \<ge> 10 then None
      else if unat b < 128 then
        (if i = 9 \<and> unat b > 1 then None else Some (unat b * 128 ^ i, bs))
      else (case read_uvarint_from (Suc i) bs of None \<Rightarrow> None
            | Some (v, r) \<Rightarrow> Some (unat b mod 128 * 128 ^ i + v, r)))"

definition read_uvarint :: "bytes \<Rightarrow> (nat \<times> bytes) option" where
  "read_uvarint bs = read_uvarint_from 0 bs"

lemma unat_byte_less: "x < 256 \<Longrightarrow> unat (word_of_nat x :: byte) = x"
  by (simp add: unat_of_nat)

lemma read_uvarint_from_uvarint:
  "i \<le> 9 \<Longrightarrow> x * 128 ^ i < 2 ^ 64 \<Longrightarrow>
   read_uvarint_from i (uvarint x @ rest) = Some (x * 128 ^ i, rest)"
proof (induction x arbitrary: i rule: uvarint.induct)
  case (1 x)
  show ?case
  proof (cases "x < 128")
    case True
    have "\<not> (i = 9 \<and> x > 1)"
    proof
      assume "i = 9 \<and> x > 1"
      then have "2 * 128 ^ 9 \<le> x * 128 ^ (9::nat)" by simp
      with "1.prems"(2) \<open>i = 9 \<and> x > 1\<close> show False by simp
    qed
    with True "1.prems"(1) show ?thesis
      by (simp add: uvarint.simps [of x] unat_byte_less)
  next
    case False
    have lt: "x mod 128 + 128 < 256" by simp
    have i9: "i < 9"
    proof (rule ccontr)
      assume "\<not> i < 9"
      with "1.prems"(1) have "i = 9" by simp
      with False have "128 * 128 ^ 9 \<le> x * 128 ^ i" by simp
      with "1.prems"(2) show False by simp
    qed
    have le: "x div 128 * 128 ^ Suc i \<le> x * 128 ^ i"
      using mult_le_mono1 [of "x div 128 * 128" x "128 ^ i"] by (simp add: ac_simps)
    have bound: "x div 128 * 128 ^ Suc i < 2 ^ 64"
      using le "1.prems"(2) by (rule le_less_trans)
    have IH: "read_uvarint_from (Suc i) (uvarint (x div 128) @ rest) =
        Some (x div 128 * 128 ^ Suc i, rest)"
      by (rule "1.IH" [OF False _ bound]) (use i9 in simp)
    have sum: "x mod 128 * 128 ^ i + x div 128 * 128 ^ Suc i = x * 128 ^ i"
    proof -
      have "(x mod 128 + x div 128 * 128) * 128 ^ i =
          x mod 128 * 128 ^ i + x div 128 * 128 ^ Suc i"
        by (simp only: distrib_right power_Suc mult.assoc)
      then show ?thesis by (simp only: mod_div_mult_eq)
    qed
    have nlt: "\<not> unat (word_of_nat (x mod 128 + 128) :: byte) < 128"
      using unat_byte_less [OF lt] by simp
    have md: "unat (word_of_nat (x mod 128 + 128) :: byte) mod 128 = x mod 128"
      using unat_byte_less [OF lt] by simp
    show ?thesis
      using False i9 IH sum nlt md by (simp add: uvarint.simps [of x])
  qed
qed

lemma read_uvarint_uvarint [codec_simps]:
  "x < 2 ^ 64 \<Longrightarrow> read_uvarint (uvarint x @ rest) = Some (x, rest)"
  using read_uvarint_from_uvarint [of 0 x rest] by (simp add: read_uvarint_def)

lemma read_uvarint_from_shorter:
  "read_uvarint_from i bs = Some (v, r) \<Longrightarrow> length r < length bs"
proof (induction i bs arbitrary: v r rule: read_uvarint_from.induct)
  case (2 i b bs)
  then show ?case
    by (fastforce split: if_splits option.splits)
qed simp

lemma read_uvarint_shorter: "read_uvarint bs = Some (v, r) \<Longrightarrow> length r < length bs"
  by (simp add: read_uvarint_def read_uvarint_from_shorter)

lemma uvarint_nonempty [simp]: "uvarint x \<noteq> []"
  by (subst uvarint.simps) simp

lemma map_sum_Inr_iff [simp]: "map_sum f g x = Inr y \<longleftrightarrow> (\<exists>z. x = Inr z \<and> y = g z)"
  by (cases x) auto

end
