(* ===== verification/GoStd.thy ===== *)
theory GoStd
  imports Prelude
begin

text \<open>
  The functions of Go's standard library the rules call, on byte strings:
  \<^verbatim>\<open>map[K]bool\<close> filled from a slice, \<^verbatim>\<open>strings\<close> (\<^verbatim>\<open>EqualFold\<close>, \<^verbatim>\<open>TrimSpace\<close>),
  \<^verbatim>\<open>strconv.ParseUint\<close>, \<^verbatim>\<open>path/filepath.Base\<close> (Unix), \<^verbatim>\<open>encoding/hex\<close> and the MAC
  addresses of \<^verbatim>\<open>net\<close>; conversions between strings and bytes, and \<^verbatim>\<open>time.Unix\<close>
  with its eight-byte form. A time is its nanoseconds since 1970. Case folding and white space are those of ASCII.
\<close>

section \<open>Maps to bool\<close>

definition boolMap :: "'a list \<Rightarrow> 'a \<Rightarrow> bool" where
  "boolMap ks = foldl (\<lambda>m k. m(k := True)) (\<lambda>_. False) ks"

lemma boolMap_iff [simp, match_simps]: "boolMap ks k \<longleftrightarrow> k \<in> set ks"
proof -
  have "foldl (\<lambda>m k. m(k := True)) f ks k \<longleftrightarrow> f k \<or> k \<in> set ks" for f
    by (induction ks arbitrary: f) auto
  then show ?thesis by (simp add: boolMap_def)
qed

section \<open>Strings and numbers\<close>

definition EqualFold :: "string \<Rightarrow> string \<Rightarrow> bool" where
  "EqualFold s t \<longleftrightarrow> ToLower s = ToLower t"

definition isSpace :: "char \<Rightarrow> bool" where
  "isSpace c \<longleftrightarrow> (let n = of_char c :: nat in n = 32 \<or> 9 \<le> n \<and> n \<le> 13)"

definition TrimSpace :: "string \<Rightarrow> string" where
  "TrimSpace s = rev (dropWhile isSpace (rev (dropWhile isSpace s)))"

definition digit_value :: "char \<Rightarrow> nat option" where
  "digit_value c = (let n = of_char c :: nat in if 48 \<le> n \<and> n \<le> 57 then Some (n - 48) else None)"

text \<open>
  \<^verbatim>\<open>strconv.ParseUint(s, 10, bitSize)\<close>: a non-empty string of decimal digits
  whose value fits the width.
\<close>

fun parse_digits :: "nat \<Rightarrow> nat \<Rightarrow> string \<Rightarrow> nat option" where
  "parse_digits maxVal n [] = Some n"
| "parse_digits maxVal n (c # s) =
     (case digit_value c of
        None \<Rightarrow> None
      | Some d \<Rightarrow> if n * 10 + d > maxVal then None else parse_digits maxVal (n * 10 + d) s)"

definition ParseUint10 :: "nat \<Rightarrow> string \<Rightarrow> nat option" where
  "ParseUint10 bitSize s = (if s = [] then None else parse_digits (2 ^ bitSize - 1) 0 s)"

lemma parse_digits_bound: "n \<le> m \<Longrightarrow> parse_digits m n s = Some v \<Longrightarrow> v \<le> m"
  by (induction m n s rule: parse_digits.induct) (auto split: option.splits if_splits)

lemma ParseUint10_bound: "ParseUint10 w s = Some v \<Longrightarrow> v < 2 ^ w"
proof -
  assume "ParseUint10 w s = Some v"
  then have "v \<le> 2 ^ w - 1"
    by (auto simp: ParseUint10_def split: if_splits intro: parse_digits_bound)
  then show "v < 2 ^ w" by (simp add: le_less_trans)
qed

text \<open>\<^verbatim>\<open>filepath.Base\<close>: the last element of a slash-separated path.\<close>

definition FilepathBase :: "string \<Rightarrow> string" where
  "FilepathBase path =
     (if path = [] then ''.''
      else let stripped = rev (dropWhile (\<lambda>c. c = CHR ''/'') (rev path));
               base = rev (takeWhile (\<lambda>c. c \<noteq> CHR ''/'') (rev stripped))
           in if base = [] then ''/'' else base)"

section \<open>Hexadecimal and MAC addresses\<close>

definition hex_value :: "char \<Rightarrow> nat option" where
  "hex_value c = (let n = of_char c :: nat in
     if 48 \<le> n \<and> n \<le> 57 then Some (n - 48)
     else if 97 \<le> n \<and> n \<le> 102 then Some (n - 87)
     else if 65 \<le> n \<and> n \<le> 70 then Some (n - 55)
     else None)"

definition hex_digit :: "nat \<Rightarrow> char" where
  "hex_digit n = char_of (if n < 10 then n + 48 else n + 87)"

definition hex_byte :: "byte \<Rightarrow> string" where
  "hex_byte b = [hex_digit (unat b div 16), hex_digit (unat b mod 16)]"

fun hex_pair :: "string \<Rightarrow> byte option" where
  "hex_pair [a, b] =
     (case (hex_value a, hex_value b) of
        (Some x, Some y) \<Rightarrow> Some (word_of_nat (x * 16 + y))
      | _ \<Rightarrow> None)"
| "hex_pair _ = None"

fun HexDecodeString :: "string \<Rightarrow> bytes option" where
  "HexDecodeString [] = Some []"
| "HexDecodeString [_] = None"
| "HexDecodeString (a # b # s) =
     (case hex_pair [a, b] of
        None \<Rightarrow> None
      | Some x \<Rightarrow> map_option ((#) x) (HexDecodeString s))"

definition HardwareAddrString :: "bytes \<Rightarrow> string" where
  "HardwareAddrString a = StrJoin (map hex_byte a) '':''"

text \<open>
  \<^verbatim>\<open>net.ParseMAC\<close>: pairs of digits separated by colons or hyphens, or groups of
  four separated by dots, of 6, 8 or 20 bytes.
\<close>

fun parse_groups :: "char \<Rightarrow> nat \<Rightarrow> string \<Rightarrow> bytes option" where
  "parse_groups sep 0 s = (if s = [] then Some [] else None)"
| "parse_groups sep (Suc n) s =
     (case hex_pair (take 2 s) of
        None \<Rightarrow> None
      | Some x \<Rightarrow>
          if n = 0 then (if drop 2 s = [] then Some [x] else None)
          else if take 1 (drop 2 s) = [sep]
            then map_option ((#) x) (parse_groups sep n (drop 3 s))
          else None)"

fun parse_dot_groups :: "nat \<Rightarrow> string \<Rightarrow> bytes option" where
  "parse_dot_groups 0 s = (if s = [] then Some [] else None)"
| "parse_dot_groups (Suc n) s =
     (case (hex_pair (take 2 s), hex_pair (take 2 (drop 2 s))) of
        (Some x, Some y) \<Rightarrow>
          if n = 0 then (if drop 4 s = [] then Some [x, y] else None)
          else if take 1 (drop 4 s) = [CHR ''.'']
            then map_option (\<lambda>r. x # y # r) (parse_dot_groups n (drop 5 s))
          else None
      | _ \<Rightarrow> None)"

definition ParseMAC :: "string \<Rightarrow> bytes option" where
  "ParseMAC s =
     (if length s < 14 then None
      else if s ! 2 = CHR '':'' \<or> s ! 2 = CHR ''-'' then
        (if (length s + 1) mod 3 \<noteq> 0 then None
         else let n = (length s + 1) div 3 in
           if n \<noteq> 6 \<and> n \<noteq> 8 \<and> n \<noteq> 20 then None else parse_groups (s ! 2) n s)
      else if s ! 4 = CHR ''.'' then
        (if (length s + 1) mod 5 \<noteq> 0 then None
         else let n = 2 * (length s + 1) div 5 in
           if n \<noteq> 6 \<and> n \<noteq> 8 \<and> n \<noteq> 20 then None else parse_dot_groups (n div 2) s)
      else None)"

lemma hex_value_digit: "n < 16 \<Longrightarrow> hex_value (hex_digit n) = Some n"
  by (auto simp: hex_value_def hex_digit_def Let_def)

lemma hex_pair_byte [simp]: "hex_pair (hex_byte b) = Some b"
proof -
  have "unat b < 256" by (rule unat_byte_bound)
  then have "unat b div 16 < 16" by (simp add: less_mult_imp_div_less)
  then show ?thesis by (simp add: hex_byte_def hex_value_digit)
qed

lemma length_hex_byte [simp]: "length (hex_byte b) = 2"
  by (simp add: hex_byte_def)

lemma take_hex_byte [simp]: "take 2 (hex_byte b @ s) = hex_byte b"
  by (simp add: hex_byte_def)

lemma parse_groups_HardwareAddr:
  "parse_groups CHR '':'' (length a) (HardwareAddrString a) = Some a"
proof (induction a)
  case (Cons b a)
  show ?case
  proof (cases a)
    case (Cons b' a')
    then have eq: "HardwareAddrString (b # a) = hex_byte b @ CHR '':'' # HardwareAddrString a"
      by (simp add: HardwareAddrString_def)
    have "drop 3 (hex_byte b @ CHR '':'' # r) = r" "take 1 (drop 2 (hex_byte b @ CHR '':'' # r)) = [CHR '':'']" for r
      by (simp_all add: hex_byte_def numeral_3_eq_3)
    moreover have "length a \<noteq> 0" by (simp add: Cons)
    ultimately show ?thesis using Cons.IH by (simp del: length_0_conv add: eq)
  qed (simp add: HardwareAddrString_def)
qed (simp add: HardwareAddrString_def)

lemma length_HardwareAddrString: "a \<noteq> [] \<Longrightarrow> length (HardwareAddrString a) + 1 = 3 * length a"
proof (induction a)
  case (Cons b a)
  then show ?case by (cases a) (auto simp: HardwareAddrString_def)
qed simp

text \<open>Printing a 6-byte MAC address and parsing it again gives the address.\<close>

lemma ParseMAC_String:
  assumes "length a = 6"
  shows "ParseMAC (HardwareAddrString a) = Some a"
proof -
  have len: "length (HardwareAddrString a) = 17"
    using assms length_HardwareAddrString [of a] by fastforce
  obtain b r' where "a = b # r'" using assms by (cases a) auto
  then obtain b' r where a: "a = b # b' # r" using assms by (cases r') auto
  have "HardwareAddrString a ! 2 = CHR '':''"
    by (simp add: a HardwareAddrString_def nth_append)
  then show ?thesis
    using parse_groups_HardwareAddr [of a] assms by (simp add: ParseMAC_def len)
qed

section \<open>Strings as bytes\<close>

definition str_bytes :: "string \<Rightarrow> bytes" where
  "str_bytes s = map (\<lambda>c. word_of_nat (of_char c)) s"

definition bytes_str :: "bytes \<Rightarrow> string" where
  "bytes_str bs = map (\<lambda>b. char_of (unat b)) bs"

lemma bytes_str_bytes [simp]: "bytes_str (str_bytes s) = s"
proof -
  have "char_of (unat (word_of_nat (of_char c) :: byte)) = c" for c
    by (simp add: unat_of_nat)
  then show ?thesis by (induction s) (simp_all add: bytes_str_def str_bytes_def)
qed

lemma str_bytes_str [simp]: "str_bytes (bytes_str bs) = bs"
proof -
  have "word_of_nat (of_char (char_of (unat b))) = b" for b :: byte
    using unat_byte_bound [of b] by (simp add: of_char_of)
  then show ?thesis by (induction bs) (simp_all add: bytes_str_def str_bytes_def)
qed

lemma str_bytes_inj [simp]: "str_bytes s = str_bytes t \<longleftrightarrow> s = t"
  by (metis bytes_str_bytes)

lemma length_str_bytes [simp]: "length (str_bytes s) = length s"
  by (simp add: str_bytes_def)

lemma str_bytes_Nil [simp]: "str_bytes s = [] \<longleftrightarrow> s = []"
  by (simp add: str_bytes_def)

section \<open>Times\<close>

definition second :: int where
  "second = 1000000000"

definition be_int64 :: "int \<Rightarrow> bytes" where
  "be_int64 x = be_bytes 8 (nat (x mod 2 ^ 64))"

definition int64_be :: "bytes \<Rightarrow> int" where
  "int64_be bs = (let n = int (be_uint bs) in if n < 2 ^ 63 then n else n - 2 ^ 64)"

definition timeUnix :: "int \<Rightarrow> int" where
  "timeUnix t = t div second"

lemma int64_be_int64: "- (2 ^ 63) \<le> x \<Longrightarrow> x < 2 ^ 63 \<Longrightarrow> int64_be (be_int64 x) = x"
proof -
  assume x: "- (2 ^ 63) \<le> x" "x < 2 ^ 63"
  have "nat (x mod 2 ^ 64) < 256 ^ 8" by (simp add: nat_less_iff)
  then have "int (be_uint (be_int64 x)) = x mod 2 ^ 64" by (simp add: be_int64_def be_uint_be_bytes)
  moreover have "x mod 2 ^ 64 = (if 0 \<le> x then x else x + 2 ^ 64)"
  proof (cases "0 \<le> x")
    case True
    then show ?thesis using x by (simp add: mod_pos_pos_trivial)
  next
    case False
    then have "(x + 2 ^ 64) mod 2 ^ 64 = x + 2 ^ 64" using x by (intro mod_pos_pos_trivial) simp_all
    then show ?thesis using False by simp
  qed
  ultimately show ?thesis using x by (simp add: int64_be_def Let_def split: if_splits)
qed

section \<open>Variable-length numbers\<close>

text \<open>
  \<^verbatim>\<open>varbin.WriteUvarint\<close> is not part of the sources: a function \<open>W\<close> stands for it, of
  which the readers need that \<^verbatim>\<open>binary.ReadUvarint\<close> reads what it writes.
\<close>

definition varint_laws :: "(nat \<Rightarrow> bytes) \<Rightarrow> bool" where
  "varint_laws W \<longleftrightarrow> (\<forall>x rest. x < 2 ^ 64 \<longrightarrow> read_uvarint (W x @ rest) = Some (x, rest))"

lemma varint_read: "varint_laws W \<Longrightarrow> x < 2 ^ 64 \<Longrightarrow> read_uvarint (W x @ rest) = Some (x, rest)"
  by (simp add: varint_laws_def)

lemma varint_nonempty: "varint_laws W \<Longrightarrow> x < 2 ^ 64 \<Longrightarrow> W x \<noteq> []"
  using varint_read [of W x "[]"] by (auto simp: read_uvarint_def)

lemma uvarint_laws: "varint_laws uvarint"
  by (simp add: varint_laws_def read_uvarint_uvarint)

lemma uvarint_small: "x < 128 \<Longrightarrow> uvarint x = [word_of_nat x]"
  by (simp add: uvarint.simps)

end
