(* ===== verification/Netip.thy ===== *)
theory Netip
  imports Prelude
begin

text \<open>
  The part of Go's \<^verbatim>\<open>net/netip\<close> the modelled sources use. An address is
  invalid, an IPv4 address or an IPv6 address with a zone. Go stores every
  address as 128 bits and a tag, so an invalid address still carries bits:
  the zero value of the type is \<open>AddrInvalid 0\<close>, and \<open>Next\<close> of it is a different,
  still invalid value.
\<close>

datatype Addr =
    AddrInvalid "128 word"
  | Addr4 u32
  | Addr6 "128 word" string

abbreviation AddrZero :: Addr where
  "AddrZero \<equiv> AddrInvalid 0"

fun AddrIsValid :: "Addr \<Rightarrow> bool" where
  "AddrIsValid (AddrInvalid _) = False"
| "AddrIsValid _ = True"

fun Is4 :: "Addr \<Rightarrow> bool" where
  "Is4 (Addr4 _) = True"
| "Is4 _ = False"

fun Is6 :: "Addr \<Rightarrow> bool" where
  "Is6 (Addr6 _ _) = True"
| "Is6 _ = False"

fun hasZone :: "Addr \<Rightarrow> bool" where
  "hasZone (Addr6 _ z) = (z \<noteq> [])"
| "hasZone _ = False"

fun Is4In6 :: "Addr \<Rightarrow> bool" where
  "Is4In6 (Addr6 v _) = (drop_bit 32 v = 0xffff)"
| "Is4In6 _ = False"

fun Unmap :: "Addr \<Rightarrow> Addr" where
  "Unmap (Addr6 v z) = (if Is4In6 (Addr6 v z) then Addr4 (ucast v) else Addr6 v z)"
| "Unmap a = a"

fun WithZone :: "Addr \<Rightarrow> string \<Rightarrow> Addr" where
  "WithZone (Addr6 v _) z = Addr6 v z"
| "WithZone a _ = a"

fun BitLen :: "Addr \<Rightarrow> int" where
  "BitLen (AddrInvalid _) = 0"
| "BitLen (Addr4 _) = 32"
| "BitLen (Addr6 _ _) = 128"

fun AddrNext :: "Addr \<Rightarrow> Addr" where
  "AddrNext (Addr4 v) = (if v + 1 = 0 then AddrZero else Addr4 (v + 1))"
| "AddrNext (Addr6 v z) = (if v + 1 = 0 then AddrZero else Addr6 (v + 1) z)"
| "AddrNext (AddrInvalid v) = AddrInvalid (v + 1)"

text \<open>
  \<open>As16\<close> gives the 16 raw bytes, an IPv4 address in its mapped form
  \<^verbatim>\<open>::ffff:a.b.c.d\<close>; \<open>AsSlice\<close> gives 4 or 16 bytes.
\<close>

fun addr_bits :: "Addr \<Rightarrow> nat" where
  "addr_bits (AddrInvalid v) = unat v"
| "addr_bits (Addr4 v) = 0xffff * 2 ^ 32 + unat v"
| "addr_bits (Addr6 v _) = unat v"

definition As16 :: "Addr \<Rightarrow> bytes" where
  "As16 a = be_bytes 16 (addr_bits a)"

fun AsSlice :: "Addr \<Rightarrow> bytes" where
  "AsSlice (AddrInvalid _) = []"
| "AsSlice (Addr4 v) = be_bytes 4 (unat v)"
| "AsSlice (Addr6 v z) = be_bytes 16 (unat v)"

definition AddrFrom4 :: "bytes \<Rightarrow> Addr" where
  "AddrFrom4 b = Addr4 (word_of_nat (be_uint b))"

definition AddrFrom16 :: "bytes \<Rightarrow> Addr" where
  "AddrFrom16 b = Addr6 (word_of_nat (be_uint b)) []"

fun IsLoopback :: "Addr \<Rightarrow> bool" where
  "IsLoopback (Addr4 v) = (drop_bit 24 v = 127)"
| "IsLoopback (Addr6 v z) =
     (if Is4In6 (Addr6 v z) then drop_bit 24 (ucast v :: u32) = 127 else v = 1)"
| "IsLoopback (AddrInvalid _) = False"

section \<open>Prefixes\<close>

text \<open>
  A prefix is an address without zone and a bit count, which is \<open>-1\<close> in an
  invalid prefix; the zero value is \<open>Prefix AddrZero (-1)\<close>.
\<close>

datatype Prefix = Prefix (PrefixAddr: Addr) (PrefixBits: int)

abbreviation PrefixZero :: Prefix where
  "PrefixZero \<equiv> Prefix AddrZero (-1)"

definition PrefixFrom :: "Addr \<Rightarrow> int \<Rightarrow> Prefix" where
  "PrefixFrom ip b = Prefix (WithZone ip [])
     (if AddrIsValid ip \<and> 0 \<le> b \<and> b \<le> BitLen ip then b else -1)"

fun PrefixIsValid :: "Prefix \<Rightarrow> bool" where
  "PrefixIsValid (Prefix a b) = (AddrIsValid a \<and> 0 \<le> b)"

text \<open>\<open>top_eq\<close>: two addresses of one family agree on their first \<open>b\<close> bits.\<close>

fun top_eq :: "int \<Rightarrow> Addr \<Rightarrow> Addr \<Rightarrow> bool" where
  "top_eq b (Addr4 u) (Addr4 v) = (drop_bit (nat (32 - b)) (u XOR v) = 0)"
| "top_eq b (Addr6 u _) (Addr6 v _) = (drop_bit (nat (128 - b)) (u XOR v) = 0)"
| "top_eq b _ _ = False"

definition PrefixContains :: "Prefix \<Rightarrow> Addr \<Rightarrow> bool" where
  "PrefixContains p ip \<longleftrightarrow>
     PrefixIsValid p \<and> \<not> hasZone ip \<and> top_eq (PrefixBits p) ip (PrefixAddr p)"

definition Overlaps :: "Prefix \<Rightarrow> Prefix \<Rightarrow> bool" where
  "Overlaps p q \<longleftrightarrow>
     (if \<not> PrefixIsValid p \<or> \<not> PrefixIsValid q then False
      else if p = q then True
      else if Is4 (PrefixAddr p) \<noteq> Is4 (PrefixAddr q) then False
      else (let minBits = min (PrefixBits p) (PrefixBits q) in
        if minBits = 0 then True else top_eq minBits (PrefixAddr p) (PrefixAddr q)))"

section \<open>Facts\<close>

lemma length_As16 [simp]: "length (As16 a) = 16"
  by (simp add: As16_def)

lemma unat_u32_less: "unat (v :: u32) < 4294967296"
  using unsigned_less [of v, where ?'a = nat] by simp

lemma unat_u128_less: "unat (v :: 128 word) < 2 ^ 128"
  using unsigned_less [of v, where ?'a = nat] by simp

lemma addr_bits_less: "addr_bits a < 2 ^ 128"
proof (cases a)
  case (AddrInvalid v)
  then show ?thesis using unat_u128_less [of v] by simp
next
  case (Addr4 v)
  then show ?thesis using unat_u32_less [of v] by simp
next
  case (Addr6 v z)
  then show ?thesis using unat_u128_less [of v] by simp
qed

lemma be_uint_As16 [simp]: "be_uint (As16 a) = addr_bits a"
  using addr_bits_less [of a] by (simp add: As16_def be_uint_be_bytes)

lemma be_uint_AsSlice4 [simp]: "be_uint (AsSlice (Addr4 v)) = unat v"
  using unat_u32_less [of v] by (simp add: be_uint_be_bytes)

lemma be_uint_be_bytes4 [simp]: "be_uint (be_bytes 4 (unat (v::u32))) = unat v"
  using unat_u32_less [of v] by (simp add: be_uint_be_bytes)

lemma AddrFrom4_AsSlice: "AddrFrom4 (AsSlice (Addr4 v)) = Addr4 v"
  by (simp add: AddrFrom4_def)

lemma AddrFrom16_As16: "AddrFrom16 (As16 (Addr6 v [])) = Addr6 v []"
  by (simp add: AddrFrom16_def)

lemma top_eq_refl: "AddrIsValid a \<Longrightarrow> top_eq b a a"
  by (cases a) auto

lemma PrefixContains_self:
  "PrefixIsValid p \<Longrightarrow> \<not> hasZone (PrefixAddr p) \<Longrightarrow> PrefixContains p (PrefixAddr p)"
  by (cases p) (auto simp: PrefixContains_def top_eq_refl)

end
