(* ===== verification/IPSet.thy ===== *)
theory IPSet
  imports Netip
begin

text \<open>
  \<^verbatim>\<open>common/ipset/set.go\<close>: sets of IP addresses as two sorted lists of closed
  ranges, searched by bisection. \<open>FromRanges\<close> checks the order the search
  relies on; the lemmas show that the search then decides membership.
\<close>

section \<open>Model\<close>

record Range4 =
  From4 :: u32
  To4 :: u32

record Range6 =
  From6 :: bytes
  To6 :: bytes

record IPSetT =
  ranges4 :: "Range4 list"
  ranges6 :: "Range6 list"

datatype ipset_error = MalformedRange nat | UnorderedRange nat

definition compare16 :: "bytes \<Rightarrow> bytes \<Rightarrow> int" where
  "compare16 a b =
     (let aHigh = be_uint (take 8 a); bHigh = be_uint (take 8 b) in
      if aHigh \<noteq> bHigh then (if aHigh < bHigh then -1 else 1)
      else (let aLow = be_uint (drop 8 a); bLow = be_uint (drop 8 b) in
        if aLow \<noteq> bLow then (if aLow < bLow then -1 else 1) else 0))"

text \<open>
  The two validation loops of \<open>FromRanges\<close>: the index of the range and the
  end of the previous one, where there is one.
\<close>

fun checkRanges4 :: "nat \<Rightarrow> u32 option \<Rightarrow> Range4 list \<Rightarrow> ipset_error option" where
  "checkRanges4 i prev [] = None"
| "checkRanges4 i prev (r # rs) =
     (if From4 r > To4 r then Some (MalformedRange i)
      else if (case prev of None \<Rightarrow> False | Some t \<Rightarrow> t \<ge> From4 r) then Some (UnorderedRange i)
      else checkRanges4 (Suc i) (Some (To4 r)) rs)"

fun checkRanges6 :: "nat \<Rightarrow> bytes option \<Rightarrow> Range6 list \<Rightarrow> ipset_error option" where
  "checkRanges6 i prev [] = None"
| "checkRanges6 i prev (r # rs) =
     (if compare16 (From6 r) (To6 r) > 0 then Some (MalformedRange i)
      else if (case prev of None \<Rightarrow> False | Some t \<Rightarrow> compare16 t (From6 r) \<ge> 0)
        then Some (UnorderedRange i)
      else checkRanges6 (Suc i) (Some (To6 r)) rs)"

definition FromRanges :: "Range4 list \<Rightarrow> Range6 list \<Rightarrow> ipset_error + IPSetT" where
  "FromRanges r4 r6 =
     (case checkRanges4 0 None r4 of Some e \<Rightarrow> Inl e
      | None \<Rightarrow> (case checkRanges6 0 None r6 of Some e \<Rightarrow> Inl e
      | None \<Rightarrow> Inr \<lparr>ranges4 = r4, ranges6 = r6\<rparr>))"

text \<open>
  \<open>FromIPSet\<close> takes the sorted ranges of a \<^verbatim>\<open>netipx.IPSet\<close>, given here as the
  list of their end points.
\<close>

fun FromIPSet :: "(Addr \<times> Addr) list \<Rightarrow> IPSetT" where
  "FromIPSet [] = \<lparr>ranges4 = [], ranges6 = []\<rparr>"
| "FromIPSet ((from, to) # rest) = (let s = FromIPSet rest in
     if Is4 from then
       s\<lparr>ranges4 := \<lparr>From4 = word_of_nat (be_uint (AsSlice from)),
                      To4 = word_of_nat (be_uint (AsSlice to))\<rparr> # ranges4 s\<rparr>
     else s\<lparr>ranges6 := \<lparr>From6 = As16 from, To6 = As16 to\<rparr> # ranges6 s\<rparr>)"

text \<open>\<^verbatim>\<open>slices.BinarySearchFunc\<close>: the loop over \<open>i, j\<close> and its result.\<close>

function bsearch_loop :: "('a \<Rightarrow> int) \<Rightarrow> 'a list \<Rightarrow> nat \<Rightarrow> nat \<Rightarrow> nat" where
  "bsearch_loop cmp xs i j =
     (if i < j then
        (let h = (i + j) div 2 in
         if cmp (xs ! h) < 0 then bsearch_loop cmp xs (h + 1) j
         else bsearch_loop cmp xs i h)
      else i)"
  by pat_completeness auto
termination
  by (relation "measure (\<lambda>(cmp, xs, i, j). j - i)") auto

declare bsearch_loop.simps [simp del]

definition BinarySearchFunc :: "'a list \<Rightarrow> 't \<Rightarrow> ('a \<Rightarrow> 't \<Rightarrow> int) \<Rightarrow> nat \<times> bool" where
  "BinarySearchFunc xs target cmp =
     (let i = bsearch_loop (\<lambda>x. cmp x target) xs 0 (length xs)
      in (i, i < length xs \<and> cmp (xs ! i) target = 0))"

definition cmpRange4 :: "Range4 \<Rightarrow> u32 \<Rightarrow> int" where
  "cmpRange4 ipRange target =
     (if From4 ipRange > target then 1 else if To4 ipRange < target then -1 else 0)"

definition cmpRange6 :: "Range6 \<Rightarrow> bytes \<Rightarrow> int" where
  "cmpRange6 ipRange target =
     (if compare16 (From6 ipRange) target > 0 then 1
      else if compare16 (To6 ipRange) target < 0 then -1 else 0)"

definition IPSetContains :: "IPSetT \<Rightarrow> Addr \<Rightarrow> bool" where
  "IPSetContains s addr =
     (if Is4 addr then
        snd (BinarySearchFunc (ranges4 s) (word_of_nat (be_uint (AsSlice addr))) cmpRange4)
      else snd (BinarySearchFunc (ranges6 s) (As16 addr) cmpRange6))"

section \<open>Bisection over ordered ranges\<close>

text \<open>
  The contract of a searchable list: a comparison that is 0 exactly on the
  ranges holding the target, and whose sign does not increase along the list.
\<close>

locale range_search =
  fixes ok :: "'a list \<Rightarrow> bool"
    and cmp :: "'a \<Rightarrow> 't \<Rightarrow> int"
    and holds :: "'a \<Rightarrow> 't \<Rightarrow> bool"
  assumes cmp_zero: "ok xs \<Longrightarrow> r \<in> set xs \<Longrightarrow> cmp r t = 0 \<longleftrightarrow> holds r t"
    and cmp_neg_down: "ok xs \<Longrightarrow> i < j \<Longrightarrow> j < length xs \<Longrightarrow> cmp (xs ! j) t \<le> 0 \<Longrightarrow> cmp (xs ! i) t < 0"
begin

lemma loop_bounds:
  "i \<le> j \<Longrightarrow> i \<le> bsearch_loop c xs i j \<and> bsearch_loop c xs i j \<le> j"
proof (induction c xs i j rule: bsearch_loop.induct)
  case (1 c xs i j)
  show ?case
  proof (cases "i < j")
    case False
    with "1.prems" show ?thesis by (subst (1 2) bsearch_loop.simps) simp
  next
    case True
    define h where "h = (i + j) div 2"
    have "i \<le> h" "h < j" using True by (auto simp: h_def)
    with "1.IH" True show ?thesis
      by (subst (1 2) bsearch_loop.simps) (force simp: h_def Let_def)
  qed
qed

lemma loop_least:
  assumes "\<And>k l. k < l \<Longrightarrow> l < length xs \<Longrightarrow> c (xs ! l) \<le> 0 \<Longrightarrow> c (xs ! k) < 0"
  shows "i \<le> j \<Longrightarrow> j \<le> length xs \<Longrightarrow> (\<forall>k < i. c (xs ! k) < 0) \<Longrightarrow>
    (\<forall>k. j \<le> k \<longrightarrow> k < length xs \<longrightarrow> \<not> c (xs ! k) < 0) \<Longrightarrow>
    (\<forall>k < bsearch_loop c xs i j. c (xs ! k) < 0) \<and>
    (\<forall>k. bsearch_loop c xs i j \<le> k \<longrightarrow> k < length xs \<longrightarrow> \<not> c (xs ! k) < 0)"
  using assms
proof (induction c xs i j rule: bsearch_loop.induct)
  case (1 c xs i j)
  note mono = "1.prems"(5)
  show ?case
  proof (cases "i < j")
    case False
    then have "bsearch_loop c xs i j = i" by (subst bsearch_loop.simps) simp
    with False "1.prems" show ?thesis by simp
  next
    case True
    define h where "h = (i + j) div 2"
    have h: "i \<le> h" "h < j" "h < length xs"
      using True "1.prems"(2) by (auto simp: h_def)
    show ?thesis
    proof (cases "c (xs ! h) < 0")
      case neg: True
      have eq: "bsearch_loop c xs i j = bsearch_loop c xs (h + 1) j"
        using True neg by (subst bsearch_loop.simps) (simp add: h_def Let_def)
      have "\<forall>k < h + 1. c (xs ! k) < 0"
        using neg mono [of _ h] h(3) by (metis less_add_one less_SucE Suc_eq_plus1 order_less_imp_le)
      with "1.IH"(1) [OF True h_def neg] "1.prems" h show ?thesis
        unfolding eq by simp
    next
      case pos: False
      have eq: "bsearch_loop c xs i j = bsearch_loop c xs i h"
        using True pos by (subst bsearch_loop.simps) (simp add: h_def Let_def)
      have "\<forall>k. h \<le> k \<longrightarrow> k < length xs \<longrightarrow> \<not> c (xs ! k) < 0"
      proof (intro allI impI)
        fix k assume "h \<le> k" "k < length xs"
        then show "\<not> c (xs ! k) < 0"
          using pos mono [of h k] by (cases "h = k") auto
      qed
      with "1.IH"(2) [OF True h_def pos] "1.prems" h show ?thesis
        unfolding eq by simp
    qed
  qed
qed

theorem search_correct:
  assumes ok: "ok xs"
  shows "snd (BinarySearchFunc xs t cmp) \<longleftrightarrow> (\<exists>r \<in> set xs. holds r t)"
proof -
  define n where "n = bsearch_loop (\<lambda>x. cmp x t) xs 0 (length xs)"
  have mono: "cmp (xs ! k) t < 0" if "k < l" "l < length xs" "cmp (xs ! l) t \<le> 0" for k l
    using cmp_neg_down [OF ok that] .
  have below: "\<forall>k < n. cmp (xs ! k) t < 0"
    and above: "\<forall>k. n \<le> k \<longrightarrow> k < length xs \<longrightarrow> \<not> cmp (xs ! k) t < 0"
    using loop_least [where c = "\<lambda>x. cmp x t" and xs = xs and i = 0 and j = "length xs"] mono
    unfolding n_def by auto
  have res: "snd (BinarySearchFunc xs t cmp) \<longleftrightarrow> n < length xs \<and> cmp (xs ! n) t = 0"
    by (simp add: BinarySearchFunc_def n_def Let_def)
  show ?thesis
  proof
    assume "snd (BinarySearchFunc xs t cmp)"
    with res ok show "\<exists>r \<in> set xs. holds r t"
      by (meson cmp_zero nth_mem)
  next
    assume "\<exists>r \<in> set xs. holds r t"
    then obtain k where k: "k < length xs" "cmp (xs ! k) t = 0"
      by (metis cmp_zero in_set_conv_nth ok)
    have "n \<le> k" using below k(2) by (metis less_irrefl not_le)
    moreover have "\<not> n < k"
      using mono [of n k] k above by auto
    ultimately have "n = k" by simp
    with k res show "snd (BinarySearchFunc xs t cmp)" by simp
  qed
qed

end

section \<open>The two instances\<close>

text \<open>
  Ranges are well formed when each is non-empty and ends before any later one
  begins. IPv6 bounds are arrays of 16 bytes, compared as 128-bit numbers.
\<close>

definition ordered4 :: "Range4 list \<Rightarrow> bool" where
  "ordered4 rs \<longleftrightarrow> list_all (\<lambda>r. From4 r \<le> To4 r) rs \<and> sorted_wrt (\<lambda>r s. To4 r < From4 s) rs"

definition ordered6 :: "Range6 list \<Rightarrow> bool" where
  "ordered6 rs \<longleftrightarrow> list_all (\<lambda>r. be_uint (From6 r) \<le> be_uint (To6 r)) rs \<and>
     sorted_wrt (\<lambda>r s. be_uint (To6 r) < be_uint (From6 s)) rs"

definition arrays6 :: "Range6 list \<Rightarrow> bool" where
  "arrays6 rs \<longleftrightarrow> list_all (\<lambda>r. length (From6 r) = 16 \<and> length (To6 r) = 16) rs"

lemma compare16_be:
  assumes "length a = 16" "length b = 16"
  shows "compare16 a b =
    (if be_uint a < be_uint b then -1 else if be_uint a = be_uint b then 0 else 1)"
proof -
  have split: "be_uint x = be_uint (take 8 x) * 256 ^ 8 + be_uint (drop 8 x)"
    if "length x = 16" for x :: bytes
  proof -
    have "be_uint x = be_uint (take 8 x @ drop 8 x)" by simp
    also have "\<dots> = be_uint (take 8 x) * 256 ^ 8 + be_uint (drop 8 x)"
      using that by (subst be_uint_append) simp
    finally show ?thesis .
  qed
  have lo: "be_uint (drop 8 x) < 256 ^ 8" if "length x = 16" for x :: bytes
    using be_uint_less [of "drop 8 x"] that by simp
  show ?thesis
    using split [OF assms(1)] split [OF assms(2)] lo [OF assms(1)] lo [OF assms(2)]
    by (auto simp: compare16_def Let_def)
qed

lemma checkRanges4_None:
  "checkRanges4 i prev rs = None \<longleftrightarrow>
     ordered4 rs \<and> (\<forall>t. prev = Some t \<longrightarrow> (\<forall>r \<in> set rs. t < From4 r))"
proof (induction i prev rs rule: checkRanges4.induct)
  case (1 i prev)
  then show ?case by (simp add: ordered4_def)
next
  case (2 i prev r rs)
  then show ?case
    by (cases prev) (auto simp: ordered4_def not_le not_less intro: less_trans le_less_trans)
qed

lemma checkRanges6_None:
  "arrays6 rs \<Longrightarrow> (\<forall>t. prev = Some t \<longrightarrow> length t = 16) \<Longrightarrow>
   checkRanges6 i prev rs = None \<longleftrightarrow>
     ordered6 rs \<and> (\<forall>t. prev = Some t \<longrightarrow> (\<forall>r \<in> set rs. be_uint t < be_uint (From6 r)))"
proof (induction i prev rs rule: checkRanges6.induct)
  case (1 i prev)
  then show ?case by (simp add: ordered6_def)
next
  case (2 i prev r rs)
  then have len: "length (From6 r) = 16" "length (To6 r) = 16" "arrays6 rs"
    by (auto simp: arrays6_def)
  then show ?case
    using 2
    by (cases prev)
      (auto simp: ordered6_def compare16_be not_le not_less split: if_splits
        intro: less_trans le_less_trans)
qed

interpretation r4: range_search ordered4 cmpRange4 "\<lambda>r t. From4 r \<le> t \<and> t \<le> To4 r"
proof unfold_locales
  fix xs :: "Range4 list" and r and t :: u32
  assume "ordered4 xs" "r \<in> set xs"
  then show "cmpRange4 r t = 0 \<longleftrightarrow> From4 r \<le> t \<and> t \<le> To4 r"
    by (auto simp: cmpRange4_def)
next
  fix xs :: "Range4 list" and i j :: nat and t :: u32
  assume ok: "ordered4 xs" and ij: "i < j" "j < length xs" and c: "cmpRange4 (xs ! j) t \<le> 0"
  have "To4 (xs ! i) < From4 (xs ! j)"
    using ok ij by (auto simp: ordered4_def sorted_wrt_iff_nth_less)
  moreover have "From4 (xs ! i) \<le> To4 (xs ! i)"
    using ok ij by (simp add: ordered4_def list_all_length)
  ultimately show "cmpRange4 (xs ! i) t < 0"
    using c by (auto simp: cmpRange4_def split: if_splits)
qed

interpretation r6: range_search "\<lambda>rs. arrays6 rs \<and> ordered6 rs"
  "\<lambda>r t. cmpRange6 r (As16 t)"
  "\<lambda>r t. be_uint (From6 r) \<le> addr_bits t \<and> addr_bits t \<le> be_uint (To6 r)"
proof unfold_locales
  fix xs :: "Range6 list" and r and t :: Addr
  assume "arrays6 xs \<and> ordered6 xs" "r \<in> set xs"
  then have "length (From6 r) = 16" "length (To6 r) = 16"
    by (auto simp: arrays6_def list_all_iff)
  then show "cmpRange6 r (As16 t) = 0 \<longleftrightarrow>
      be_uint (From6 r) \<le> addr_bits t \<and> addr_bits t \<le> be_uint (To6 r)"
    by (auto simp: cmpRange6_def compare16_be split: if_splits)
next
  fix xs :: "Range6 list" and i j :: nat and t :: Addr
  assume ok: "arrays6 xs \<and> ordered6 xs" and ij: "i < j" "j < length xs"
    and c: "cmpRange6 (xs ! j) (As16 t) \<le> 0"
  have len: "length (From6 (xs ! k)) = 16 \<and> length (To6 (xs ! k)) = 16" if "k < length xs" for k
    using ok that by (simp add: arrays6_def list_all_length)
  have "be_uint (To6 (xs ! i)) < be_uint (From6 (xs ! j))"
    using ok ij by (auto simp: ordered6_def sorted_wrt_iff_nth_less)
  moreover have "be_uint (From6 (xs ! i)) \<le> be_uint (To6 (xs ! i))"
    using ok ij by (simp add: ordered6_def list_all_length)
  ultimately show "cmpRange6 (xs ! i) (As16 t) < 0"
    using c len [of i] len [of j] ij by (auto simp: cmpRange6_def compare16_be split: if_splits)
qed

section \<open>Membership\<close>

fun in_range4 :: "Addr \<Rightarrow> Range4 \<Rightarrow> bool" where
  "in_range4 (Addr4 v) r \<longleftrightarrow> From4 r \<le> v \<and> v \<le> To4 r"
| "in_range4 _ r \<longleftrightarrow> False"

definition in_range6 :: "Addr \<Rightarrow> Range6 \<Rightarrow> bool" where
  "in_range6 a r \<longleftrightarrow> \<not> Is4 a \<and> be_uint (From6 r) \<le> addr_bits a \<and> addr_bits a \<le> be_uint (To6 r)"

lemma search6_eq:
  "snd (BinarySearchFunc rs (As16 a) cmpRange6) = snd (BinarySearchFunc rs a (\<lambda>r t. cmpRange6 r (As16 t)))"
  by (simp add: BinarySearchFunc_def)

lemma Contains_ordered:
  assumes "ordered4 (ranges4 s)" "arrays6 (ranges6 s)" "ordered6 (ranges6 s)"
  shows "IPSetContains s a \<longleftrightarrow> list_ex (in_range4 a) (ranges4 s) \<or> list_ex (in_range6 a) (ranges6 s)"
proof (cases a)
  case (Addr4 v)
  then show ?thesis
    using r4.search_correct [OF assms(1), of v]
    by (auto simp: IPSetContains_def in_range6_def list_ex_iff)
next
  case (AddrInvalid v)
  then show ?thesis
    using r6.search_correct [of "ranges6 s" a] assms
    by (auto simp: IPSetContains_def search6_eq in_range6_def list_ex_iff)
next
  case (Addr6 v z)
  then show ?thesis
    using r6.search_correct [of "ranges6 s" a] assms
    by (auto simp: IPSetContains_def search6_eq in_range6_def list_ex_iff)
qed

text \<open>
  The ranges of a \<^verbatim>\<open>netipx.IPSet\<close>: each of one family, in order and disjoint.
\<close>

fun sorted_range :: "Addr \<times> Addr \<Rightarrow> bool" where
  "sorted_range (Addr4 u, Addr4 v) \<longleftrightarrow> u \<le> v"
| "sorted_range (Addr6 u _, Addr6 v _) \<longleftrightarrow> u \<le> v"
| "sorted_range _ \<longleftrightarrow> False"

fun before_range :: "Addr \<times> Addr \<Rightarrow> Addr \<times> Addr \<Rightarrow> bool" where
  "before_range (_, Addr4 u) (Addr4 v, _) \<longleftrightarrow> u < v"
| "before_range (_, Addr6 u _) (Addr6 v _, _) \<longleftrightarrow> u < v"
| "before_range _ _ \<longleftrightarrow> True"

definition netipx_ranges :: "(Addr \<times> Addr) list \<Rightarrow> bool" where
  "netipx_ranges rs \<longleftrightarrow> list_all sorted_range rs \<and> sorted_wrt before_range rs"

fun in_netipx_range :: "Addr \<Rightarrow> Addr \<times> Addr \<Rightarrow> bool" where
  "in_netipx_range (Addr4 a) (Addr4 u, Addr4 v) \<longleftrightarrow> u \<le> a \<and> a \<le> v"
| "in_netipx_range (Addr6 a _) (Addr6 u _, Addr6 v _) \<longleftrightarrow> u \<le> a \<and> a \<le> v"
| "in_netipx_range _ _ \<longleftrightarrow> False"

lemma set_ranges4:
  "list_all sorted_range rs \<Longrightarrow>
     x \<in> set (ranges4 (FromIPSet rs)) \<longleftrightarrow> (Addr4 (From4 x), Addr4 (To4 x)) \<in> set rs"
proof (induction rs)
  case (Cons r rs)
  then show ?case
    by (cases r rule: sorted_range.cases) (auto simp: Let_def)
qed simp

lemma set_ranges6:
  "list_all sorted_range rs \<Longrightarrow>
     x \<in> set (ranges6 (FromIPSet rs)) \<longleftrightarrow>
       (\<exists>u z v w. (Addr6 u z, Addr6 v w) \<in> set rs \<and> x = \<lparr>From6 = As16 (Addr6 u z), To6 = As16 (Addr6 v w)\<rparr>)"
proof (induction rs)
  case (Cons r rs)
  then show ?case
    by (cases r rule: sorted_range.cases) (auto simp: Let_def)
qed simp

lemma FromIPSet_ordered:
  "netipx_ranges rs \<Longrightarrow> ordered4 (ranges4 (FromIPSet rs))
     \<and> arrays6 (ranges6 (FromIPSet rs)) \<and> ordered6 (ranges6 (FromIPSet rs))"
proof (induction rs)
  case Nil
  then show ?case by (simp add: ordered4_def arrays6_def ordered6_def)
next
  case (Cons r rs)
  then have sorted: "list_all sorted_range rs" and before: "\<forall>s \<in> set rs. before_range r s"
    by (auto simp: netipx_ranges_def)
  have IH: "ordered4 (ranges4 (FromIPSet rs)) \<and> arrays6 (ranges6 (FromIPSet rs)) \<and> ordered6 (ranges6 (FromIPSet rs))"
    using Cons by (simp add: netipx_ranges_def)
  from Cons.prems consider u v where "r = (Addr4 u, Addr4 v)" "u \<le> v"
    | u z v w where "r = (Addr6 u z, Addr6 v w)" "u \<le> v"
    by (cases r rule: sorted_range.cases) (auto simp: netipx_ranges_def)
  then show ?case
  proof cases
    case 1
    then have "\<forall>x \<in> set (ranges4 (FromIPSet rs)). v < From4 x"
      using before set_ranges4 [OF sorted] by fastforce
    with 1 IH show ?thesis by (simp add: ordered4_def Let_def)
  next
    case 2
    then have "\<forall>x \<in> set (ranges6 (FromIPSet rs)). unat v < be_uint (From6 x)"
      using before set_ranges6 [OF sorted] by (fastforce simp: word_less_nat_alt)
    with 2 IH show ?thesis by (simp add: ordered6_def arrays6_def Let_def word_le_nat_alt)
  qed
qed

lemma Contains_FromIPSet:
  assumes "netipx_ranges rs" "AddrIsValid a"
  shows "IPSetContains (FromIPSet rs) a \<longleftrightarrow> list_ex (in_netipx_range a) rs"
proof -
  have sorted: "list_all sorted_range rs" using assms by (simp add: netipx_ranges_def)
  have "list_ex (in_range4 a) (ranges4 (FromIPSet rs)) \<or> list_ex (in_range6 a) (ranges6 (FromIPSet rs))
    \<longleftrightarrow> list_ex (in_netipx_range a) rs"
    using sorted assms(2)
  proof (induction rs)
    case (Cons r rs)
    then show ?case
      by (cases r rule: sorted_range.cases; cases a)
        (auto simp: Let_def in_range6_def word_le_nat_alt)
  qed simp
  then show ?thesis using Contains_ordered FromIPSet_ordered [OF assms(1)] by simp
qed

section \<open>Properties\<close>

text \<open>
  C4. \<^verbatim>\<open>FromRanges\<close> accepts two lists of ranges exactly when, in each, every
  range is non-empty and ends before the next begins; the set it returns then
  holds an address exactly when one of the given ranges of its family does,
  although \<^verbatim>\<open>Contains\<close> only bisects.
\<close>

theorem FromRanges_Contains:
  assumes "arrays6 r6"
  shows "((\<exists>s. FromRanges r4 r6 = Inr s) \<longleftrightarrow> ordered4 r4 \<and> ordered6 r6) \<and>
    (\<forall>s a. FromRanges r4 r6 = Inr s \<longrightarrow>
       IPSetContains s a = (list_ex (in_range4 a) r4 \<or> list_ex (in_range6 a) r6))"
proof -
  have ok: "(\<exists>s. FromRanges r4 r6 = Inr s) \<longleftrightarrow> ordered4 r4 \<and> ordered6 r6"
    using checkRanges4_None [of 0 None r4] checkRanges6_None [OF assms, of None 0]
    by (auto simp: FromRanges_def split: option.splits)
  moreover have "IPSetContains s a = (list_ex (in_range4 a) r4 \<or> list_ex (in_range6 a) r6)"
    if s: "FromRanges r4 r6 = Inr s" for s a
  proof -
    have "ranges4 s = r4" "ranges6 s = r6" using s by (auto simp: FromRanges_def split: option.splits)
    then show ?thesis using Contains_ordered [of s a] s ok assms by auto
  qed
  ultimately show ?thesis by blast
qed

theorem FromRanges_Contains_witness:
  "IPSetContains \<lparr>ranges4 = [\<lparr>From4 = 1, To4 = 5\<rparr>, \<lparr>From4 = 9, To4 = 9\<rparr>], ranges6 = []\<rparr> (Addr4 9)
   \<and> \<not> IPSetContains \<lparr>ranges4 = [\<lparr>From4 = 1, To4 = 5\<rparr>, \<lparr>From4 = 9, To4 = 9\<rparr>], ranges6 = []\<rparr> (Addr4 7)"
proof -
  have arrays: "arrays6 []" by (simp add: arrays6_def)
  have "FromRanges [\<lparr>From4 = 1, To4 = 5\<rparr>, \<lparr>From4 = 9, To4 = 9\<rparr>] [] =
    Inr \<lparr>ranges4 = [\<lparr>From4 = 1, To4 = 5\<rparr>, \<lparr>From4 = 9, To4 = 9\<rparr>], ranges6 = []\<rparr>"
    by (simp add: FromRanges_def)
  with FromRanges_Contains [OF arrays, of "[\<lparr>From4 = 1, To4 = 5\<rparr>, \<lparr>From4 = 9, To4 = 9\<rparr>]"]
  show ?thesis by simp
qed

text \<open>
  A set built by \<^verbatim>\<open>FromIPSet\<close> from the sorted, disjoint ranges that
  \<^verbatim>\<open>netipx.IPSet.Ranges\<close> documents holds a valid address exactly when one of
  those ranges does.
\<close>

lemma FromIPSet_Contains:
  assumes "netipx_ranges rs" "AddrIsValid a"
  shows "IPSetContains (FromIPSet rs) a \<longleftrightarrow> list_ex (in_netipx_range a) rs"
  by (rule Contains_FromIPSet [OF assms])

end
