(* ===== verification/RuleContext.thy ===== *)
theory RuleContext
  imports GoStd IPSet
begin

text \<open>
  \<^verbatim>\<open>adapter/inbound.go\<close>: the metadata of a connection (\<^verbatim>\<open>InboundContext\<close>),
  which the rules read and the router rewrites, with the operations the file
  defines on it; and the services and third-party functions the rules
  consult, gathered in the record \<open>env\<close>.
\<close>

section \<open>Data\<close>

text \<open>
  A socket address as \<^verbatim>\<open>sing/common/metadata\<close> has it. Its predicates
  (\<^verbatim>\<open>IsIP\<close>, \<^verbatim>\<open>IsDomain\<close>, ...) belong to that library: they are fields of \<open>env\<close>.
\<close>

record Socksaddr =
  SAddr :: Addr
  SPort :: u16
  SFqdn :: string

definition SocksaddrZero :: Socksaddr where
  "SocksaddrZero = \<lparr>SAddr = AddrZero, SPort = 0, SFqdn = []\<rparr>"

record ConnectionOwner =
  ProcessID :: u32
  UserId :: int
  UserName :: string
  ProcessPaths :: "string list"
  PackageNames :: "string list"

text \<open>
  DNS messages: header, question and the three record sections, as
  \<^verbatim>\<open>miekg/dns\<close> has them. A record has its header and, by the type of its Go
  value, the data the sources read: the addresses, the service parameters
  of an HTTPS record (its address hints and any other key), the minimum TTL
  of an SOA, the options of an OPT pseudo-record (the client subnet and any
  other code), and the texts the fixed responses carry.
\<close>

datatype svcb_value = SVCBIPv4Hint "bytes list" | SVCBIPv6Hint "bytes list" | SVCBOther nat

datatype edns_option =
    EDNSSubnet (Family: u16) (SourceNetmask: u8) (SourceScope: u8) (SubnetAddress: bytes)
  | EDNSOther u16 bytes

datatype rdata =
    RA bytes | RAAAA bytes | RHTTPS "svcb_value list" | RSOA u32 | ROPT "edns_option list"
  | RCNAME string | RTXT "string list" | RMX u16 string | ROther nat bytes

record RR =
  RRName :: string
  Rrtype :: u16
  RRClass :: u16
  Ttl :: u32
  RRData :: rdata

record DNSQuestion =
  QName :: string
  Qtype :: u16
  Qclass :: u16

record Msg =
  MsgId :: u16
  IsResponse :: bool
  Authoritative :: bool
  RecursionDesired :: bool
  RecursionAvailable :: bool
  Rcode :: int
  Questions :: "DNSQuestion list"
  Answer :: "RR list"
  Ns :: "RR list"
  Extra :: "RR list"

type_synonym InterfaceType = u8

abbreviation InterfaceTypeWIFI :: InterfaceType where "InterfaceTypeWIFI \<equiv> 0"
abbreviation InterfaceTypeCellular :: InterfaceType where "InterfaceTypeCellular \<equiv> 1"
abbreviation InterfaceTypeEthernet :: InterfaceType where "InterfaceTypeEthernet \<equiv> 2"
abbreviation InterfaceTypeOther :: InterfaceType where "InterfaceTypeOther \<equiv> 3"

datatype NetworkStrategyT =
  NetworkStrategyDefault | NetworkStrategyFallback | NetworkStrategyHybrid

datatype DomainMatchStrategy =
    DomainMatchStrategyAsIS
  | DomainMatchStrategyPreferFQDN
  | DomainMatchStrategyPreferSniffHost
  | DomainMatchStrategyFQDNOnly
  | DomainMatchStrategySniffHostOnly

datatype SpoofMethod =
    MethodWrongSequence | MethodWrongChecksum | MethodWrongAcknowledgment
  | MethodWrongMD5Sig | MethodWrongTimestamp

datatype sniff_error = ErrNeedMoreData | SniffFailed

record InboundContext =
  Inbound :: string
  InboundType :: string
  IPVersion :: u8
  Network :: string
  Source :: Socksaddr
  Destination :: Socksaddr
  User :: string
  Outbound :: string
  RouteRule :: string
  RouteOutbound :: string
  OutboundChain :: "string list"
  Protocol :: string
  SniffHost :: string
  Client :: string
  SnifferNames :: "string list"
  SniffError :: "sniff_error option"
  CacheIPs :: "Addr list"
  Domain :: string
  InboundDetour :: string
  LastInbound :: string
  OriginDestination :: Socksaddr
  RouteOriginalDestination :: Socksaddr
  UDPDisableDomainUnmapping :: bool
  UDPConnect :: bool
  UDPTimeout :: int
  TLSFragment :: bool
  TLSFragmentFallbackDelay :: int
  TLSRecordFragment :: bool
  TLSSpoof :: string
  TLSSpoofMethod :: SpoofMethod
  NetworkStrategy :: "NetworkStrategyT option"
  NetworkType :: "InterfaceType list"
  FallbackNetworkType :: "InterfaceType list"
  FallbackDelay :: int
  DestinationAddresses :: "Addr list"
  DNSResponse :: "Msg option"
  NamedDNSResponses :: "string \<Rightarrow> Msg option"
  DestinationAddressMatchFromResponse :: bool
  SourceGeoIPCode :: string
  GeoIPCode :: string
  ProcessInfo :: "ConnectionOwner option"
  ProcessInfoResolver :: "(unit \<Rightarrow> ConnectionOwner option) option list"
  SourceMACAddress :: "bytes option"
  SourceHostname :: string
  QueryType :: u16
  QueryClientSubnet :: Prefix
  QueryDNSSEC :: bool
  FakeIP :: bool
  PreMatch :: bool
  DestOverride :: bool
  IPCIDRMatchSource :: bool
  IPCIDRAcceptEmpty :: bool
  SourceAddressMatch :: bool
  SourcePortMatch :: bool
  DestinationAddressMatch :: bool
  DestinationPortMatch :: bool
  DeferredIPCIDRMatchGroups :: u8
  IgnoreDestinationIPCIDRMatch :: bool
  Extended :: "string list option"

text \<open>The zero value of the struct.\<close>

definition InboundContextZero :: InboundContext where
  "InboundContextZero = \<lparr>
     Inbound = [], InboundType = [], IPVersion = 0, Network = [], Source = SocksaddrZero,
     Destination = SocksaddrZero, User = [], Outbound = [], RouteRule = [], RouteOutbound = [],
     OutboundChain = [], Protocol = [], SniffHost = [], Client = [], SnifferNames = [],
     SniffError = None, CacheIPs = [], Domain = [], InboundDetour = [], LastInbound = [],
     OriginDestination = SocksaddrZero, RouteOriginalDestination = SocksaddrZero,
     UDPDisableDomainUnmapping = False, UDPConnect = False, UDPTimeout = 0, TLSFragment = False,
     TLSFragmentFallbackDelay = 0, TLSRecordFragment = False, TLSSpoof = [], TLSSpoofMethod = MethodWrongSequence,
     NetworkStrategy = None, NetworkType = [], FallbackNetworkType = [], FallbackDelay = 0,
     DestinationAddresses = [], DNSResponse = None, NamedDNSResponses = (\<lambda>_. None),
     DestinationAddressMatchFromResponse = False, SourceGeoIPCode = [], GeoIPCode = [], ProcessInfo = None, ProcessInfoResolver = [],
     SourceMACAddress = None, SourceHostname = [], QueryType = 0, QueryClientSubnet = PrefixZero,
     QueryDNSSEC = False, FakeIP = False, PreMatch = False, DestOverride = False,
     IPCIDRMatchSource = False, IPCIDRAcceptEmpty = False, SourceAddressMatch = False,
     SourcePortMatch = False, DestinationAddressMatch = False, DestinationPortMatch = False,
     DeferredIPCIDRMatchGroups = 0, IgnoreDestinationIPCIDRMatch = False, Extended = None\<rparr>"

section \<open>Environment\<close>

record Interface =
  IfName :: string
  IfAddresses :: "Prefix list"

record NetworkInterface =
  NIInterface :: Interface
  NIType :: InterfaceType
  NIExpensive :: bool
  NIConstrained :: bool

record WIFIStateT =
  SSID :: string
  BSSID :: string

text \<open>
  What the rules consult outside the metadata.

  Third-party functions: the predicates of \<^verbatim>\<open>M.Socksaddr\<close>, \<^verbatim>\<open>M.IsDomainName\<close>,
  \<^verbatim>\<open>M.AddrFromIP\<close>, \<^verbatim>\<open>N.IsPublicAddr\<close>, the domain matchers of \<^verbatim>\<open>sing/common/domain\<close>,
  \<^verbatim>\<open>F.ToString\<close>, \<^verbatim>\<open>common.Uniq\<close>, \<^verbatim>\<open>netipx.IPSetBuilder\<close> and \<^verbatim>\<open>miekg/dns\<close>. Regular expressions are
  compiled to the predicate they decide.

  Services: the network manager, the interface monitor (\<open>None\<close> where there is
  none), the Clash mode manager, the outbound manager (type of an outbound and
  whether it has preferred routes) and the DNS transport manager (type of a
  transport, whether it reports a configuration and whether it has preferred
  domains), and whether a dialer can be made from given options. Outbounds and transports are known by their tags.
\<close>

record env =
  IsIP :: "Socksaddr \<Rightarrow> bool"
  IsIPv4 :: "Socksaddr \<Rightarrow> bool"
  IsIPv6 :: "Socksaddr \<Rightarrow> bool"
  IsDomain :: "Socksaddr \<Rightarrow> bool"
  IsValidSocksaddr :: "Socksaddr \<Rightarrow> bool"
  ParseSocksaddrHostPort :: "string \<Rightarrow> u16 \<Rightarrow> Socksaddr"
  IsDomainName :: "string \<Rightarrow> bool"
  IsPublicAddr :: "Addr \<Rightarrow> bool"
  AddrFromIP :: "bytes \<Rightarrow> Addr"
  NewMatcher :: "string list \<Rightarrow> string list \<Rightarrow> bool \<Rightarrow> string \<Rightarrow> bool"
  NewAdGuardMatcher :: "string list \<Rightarrow> string \<Rightarrow> bool"
  RegexpCompile :: "string \<Rightarrow> (string \<Rightarrow> bool) option"
  BuildIPSet :: "Prefix list \<Rightarrow> (Addr \<times> Addr) list option"
  CanonicalName :: "string \<Rightarrow> string"
  IsDuplicate :: "RR \<Rightarrow> RR \<Rightarrow> bool"
  Uniq :: "string list \<Rightarrow> string list"
  ToStringInt :: "int \<Rightarrow> string"
  PrefixString :: "Prefix \<Rightarrow> string"
  TypeToString :: "u16 \<Rightarrow> string option"
  RcodeToString :: "int \<Rightarrow> string"
  RRString :: "RR \<Rightarrow> string"
  IsAndroid :: bool
  SpoofPlatformSupported :: bool
  NewDialerOk :: "string list \<Rightarrow> bool"
  DefaultNetworkInterface :: "NetworkInterface option"
  NetworkInterfaces :: "NetworkInterface list"
  FinderInterfaces :: "Interface list"
  InterfaceMonitor :: "(Interface option \<times> string list) option"
  WIFIState :: WIFIStateT
  ClashMode :: "string option"
  OutboundManager :: "string \<Rightarrow> (string \<times> bool) option"
  OutboundPreferredDomain :: "string \<Rightarrow> InboundContext \<Rightarrow> string \<Rightarrow> bool"
  OutboundPreferredAddress :: "string \<Rightarrow> InboundContext \<Rightarrow> Addr \<Rightarrow> bool"
  DNSTransportManager :: "string \<Rightarrow> (string \<times> bool \<times> bool) option"
  SearchDomains :: "string \<Rightarrow> string list"
  ServerAddresses :: "string \<Rightarrow> Addr list"
  TransportPreferredDomain :: "string \<Rightarrow> string \<Rightarrow> bool"

section \<open>Operations\<close>

definition ResetRuleMatchCache :: "InboundContext \<Rightarrow> InboundContext" where
  "ResetRuleMatchCache c = c\<lparr>SourceAddressMatch := False, SourcePortMatch := False,
     DestinationAddressMatch := False, DestinationPortMatch := False,
     DeferredIPCIDRMatchGroups := 0\<rparr>"

definition ResetRuleCache :: "InboundContext \<Rightarrow> InboundContext" where
  "ResetRuleCache c =
     ResetRuleMatchCache (c\<lparr>IPCIDRMatchSource := False, IPCIDRAcceptEmpty := False\<rparr>)"

definition InitExtended :: "InboundContext \<Rightarrow> InboundContext" where
  "InitExtended c = (case Extended c of None \<Rightarrow> c\<lparr>Extended := Some []\<rparr> | Some _ \<Rightarrow> c)"

definition AppendRealOutbound :: "InboundContext \<Rightarrow> string \<Rightarrow> InboundContext" where
  "AppendRealOutbound c tag =
     (case Extended c of Some chain \<Rightarrow> c\<lparr>Extended := Some (chain @ [tag])\<rparr> | None \<Rightarrow> c)"

definition GetRealOutboundChain :: "InboundContext \<Rightarrow> string list" where
  "GetRealOutboundChain c = (case Extended c of Some chain \<Rightarrow> chain | None \<Rightarrow> [])"

text \<open>
  \<^verbatim>\<open>ResolveProcessInfo\<close> calls the lazy resolver, where one is installed, and
  memoizes a non-nil answer on the context.
\<close>

definition ResolveProcessInfo ::
  "InboundContext \<Rightarrow> ConnectionOwner option \<times> InboundContext" where
  "ResolveProcessInfo c =
     (case ProcessInfoResolver c of
        [] \<Rightarrow> (ProcessInfo c, c)
      | None # _ \<Rightarrow> (ProcessInfo c, c)
      | Some resolver # _ \<Rightarrow>
          (case resolver () of
             Some processInfo \<Rightarrow>
               (Some processInfo, c\<lparr>ProcessInfo := Some processInfo, ProcessInfoResolver := []\<rparr>)
           | None \<Rightarrow> (ProcessInfo c, c)))"

fun hint_addresses :: "env \<Rightarrow> svcb_value \<Rightarrow> Addr list" where
  "hint_addresses E (SVCBIPv4Hint ips) = filter AddrIsValid (map (\<lambda>ip. Unmap (AddrFromIP E ip)) ips)"
| "hint_addresses E (SVCBIPv6Hint ips) = filter AddrIsValid (map (AddrFromIP E) ips)"
| "hint_addresses E (SVCBOther _) = []"

fun record_addresses :: "env \<Rightarrow> rdata \<Rightarrow> Addr list" where
  "record_addresses E (RA ip) = filter AddrIsValid [AddrFromIP E ip]"
| "record_addresses E (RAAAA ip) = filter AddrIsValid [AddrFromIP E ip]"
| "record_addresses E (RHTTPS values) = concat (map (hint_addresses E) values)"
| "record_addresses E _ = []"

abbreviation RcodeSuccess :: int where
  "RcodeSuccess \<equiv> 0"

definition DNSResponseAddresses :: "env \<Rightarrow> Msg option \<Rightarrow> Addr list" where
  "DNSResponseAddresses E response =
     (case response of
        None \<Rightarrow> []
      | Some r \<Rightarrow>
          if Rcode r \<noteq> RcodeSuccess then []
          else concat (map (\<lambda>rawRecord. record_addresses E (RRData rawRecord)) (Answer r)))"

definition DNSResponseAddressesForMatch :: "env \<Rightarrow> InboundContext \<Rightarrow> Addr list" where
  "DNSResponseAddressesForMatch E c = DNSResponseAddresses E (DNSResponse c)"

section \<open>What resolving and resetting keep\<close>

text \<open>
  A context whose process information is settled: no resolver is installed,
  or it is nil. The router is in this state for every connection that does
  not come from the local host.
\<close>

definition settled :: "InboundContext \<Rightarrow> bool" where
  "settled c \<longleftrightarrow> (case ProcessInfoResolver c of Some _ # _ \<Rightarrow> False | _ \<Rightarrow> True)"

lemma settled_cases:
  obtains "ProcessInfoResolver c = []" | l where "ProcessInfoResolver c = None # l"
  | f l where "ProcessInfoResolver c = Some f # l"
  by (metis list.exhaust option.exhaust)

lemma ResolveProcessInfo_settled [simp]:
  "settled c \<Longrightarrow> ResolveProcessInfo c = (ProcessInfo c, c)"
  by (cases c rule: settled_cases) (simp_all add: settled_def ResolveProcessInfo_def)

lemma ResolveProcessInfo_fst_snd [simp]:
  "ProcessInfo (snd (ResolveProcessInfo c)) = fst (ResolveProcessInfo c)"
proof (cases c rule: settled_cases)
  case (3 f l)
  then show ?thesis by (cases "f ()") (simp_all add: ResolveProcessInfo_def)
qed (simp_all add: ResolveProcessInfo_def)

lemma ResolveProcessInfo_idem:
  "ResolveProcessInfo (snd (ResolveProcessInfo c)) = ResolveProcessInfo c"
proof (cases c rule: settled_cases)
  case (3 f l)
  then show ?thesis by (cases "f ()") (simp_all add: ResolveProcessInfo_def)
qed (simp_all add: ResolveProcessInfo_def)

lemma settled_Reset [simp]:
  "settled (ResetRuleMatchCache c) = settled c" "settled (ResetRuleCache c) = settled c"
  by (simp_all add: settled_def ResetRuleMatchCache_def ResetRuleCache_def)

lemma DNSResponseAddresses_valid:
  "a \<in> set (DNSResponseAddresses E r) \<Longrightarrow> AddrIsValid a"
proof -
  have hint: "a \<in> set (hint_addresses E v) \<Longrightarrow> AddrIsValid a" for v
    by (cases v) auto
  have "a \<in> set (record_addresses E d) \<Longrightarrow> AddrIsValid a" for d
    by (cases d) (auto dest: hint split: if_splits)
  then show "a \<in> set (DNSResponseAddresses E r) \<Longrightarrow> AddrIsValid a"
    by (auto simp: DNSResponseAddresses_def split: option.splits if_splits)
qed

section \<open>A concrete environment\<close>

text \<open>
  An environment to evaluate the model in: names match literally or by suffix,
  an address set holds the addresses its prefixes name, and the services are absent.
\<close>

definition exampleEnv :: env where
  "exampleEnv = \<lparr>
     IsIP = (\<lambda>a. AddrIsValid (SAddr a)), IsIPv4 = (\<lambda>a. Is4 (SAddr a)), IsIPv6 = (\<lambda>a. Is6 (SAddr a)),
     IsDomain = (\<lambda>a. SFqdn a \<noteq> []), IsValidSocksaddr = (\<lambda>a. AddrIsValid (SAddr a) \<or> SFqdn a \<noteq> []),
     ParseSocksaddrHostPort = (\<lambda>host port. \<lparr>SAddr = AddrZero, SPort = port, SFqdn = host\<rparr>),
     IsDomainName = (\<lambda>s. s \<noteq> []), IsPublicAddr = (\<lambda>a. \<not> IsLoopback a),
     AddrFromIP = (\<lambda>b. if length b = 4 then AddrFrom4 b else AddrFrom16 b),
     NewMatcher = (\<lambda>domains suffixes _ s. s \<in> set domains \<or> list_ex (HasSuffix s) suffixes),
     NewAdGuardMatcher = (\<lambda>rules s. s \<in> set rules),
     RegexpCompile = (\<lambda>regex. if regex = ''('' then None else Some (\<lambda>s. s = regex)),
     BuildIPSet = (\<lambda>prefixes. Some (map (\<lambda>p. (PrefixAddr p, PrefixAddr p)) prefixes)),
     CanonicalName = ToLower, IsDuplicate = (=), Uniq = remdups,
     ToStringInt = (\<lambda>_. []), PrefixString = (\<lambda>_. []), TypeToString = (\<lambda>_. None),
     RcodeToString = (\<lambda>_. []), RRString = (\<lambda>_. []), IsAndroid = False,
     SpoofPlatformSupported = True, NewDialerOk = (\<lambda>_. True), DefaultNetworkInterface = None,
     NetworkInterfaces = [], FinderInterfaces = [], InterfaceMonitor = None,
     WIFIState = \<lparr>SSID = [], BSSID = []\<rparr>, ClashMode = None,
     OutboundManager = (\<lambda>tag. Some (tag, False)),
     OutboundPreferredDomain = (\<lambda>_ _ _. False), OutboundPreferredAddress = (\<lambda>_ _ _. False),
     DNSTransportManager = (\<lambda>tag. Some (tag, False, False)), SearchDomains = (\<lambda>_. []),
     ServerAddresses = (\<lambda>_. []), TransportPreferredDomain = (\<lambda>_ _. False)\<rparr>"

end
