(* ===== verification/RuleItems.thy ===== *)
theory RuleItems
  imports RuleContext "HOL-Library.AList"
begin

text \<open>
  \<^verbatim>\<open>route/rule/rule_item_*.go\<close> and \<^verbatim>\<open>rule_*interface_address.go\<close>: the conditions a
  rule is made of. Each item has its constructor (\<^verbatim>\<open>New...\<close>), its \<^verbatim>\<open>Match\<close> on the
  metadata and its \<^verbatim>\<open>String\<close>; \<open>simple_item\<close> gathers them with the fields of the
  source. The rule-set item, which contains rules itself, is in the rule
  engine.
\<close>

section \<open>Items\<close>

datatype item_error =
    EmptyDomain | EmptyDomainSuffix
  | ParseExpression nat
  | ErrBadPortRange string
  | IPSetError
  | OutboundNotFound string | NoPreferredRoutes string
  | DNSServerNotFound string | UnsupportedDNSServer string

record rangeItem =
  start :: u16
  "end" :: u16

datatype simple_item =
    AdGuardDomainItem "string \<Rightarrow> bool" DomainMatchStrategy
  | AuthUserItem "string list" "string \<Rightarrow> bool"
  | IPCIDRItem IPSetT bool string
  | ClashModeItem bool "string list"
  | ClientItem "string list" "string \<Rightarrow> bool"
  | DNSSearchDomainItem "string list" "string list list" "string list" string
  | DNSServerAddressItem "string list" "Prefix list list" "string list" string
  | DomainItem "string \<Rightarrow> bool" string DomainMatchStrategy
  | DomainKeywordItem "string list" DomainMatchStrategy
  | DomainRegexItem "(string \<Rightarrow> bool) list" string DomainMatchStrategy
  | InboundItem "string list" "string \<Rightarrow> bool"
  | IPAcceptAnyItem
  | IPIsPrivateItem bool
  | IPVersionItem bool
  | NetworkItem "string list" "string \<Rightarrow> bool"
  | NetworkIsConstrainedItem
  | NetworkIsExpensiveItem
  | NetworkTypeItem "InterfaceType list"
  | OutboundItem "string list" "string \<Rightarrow> bool" bool
  | PackageNameItem "string list" "string \<Rightarrow> bool"
  | PackageNameRegexItem "(string \<Rightarrow> bool) list" string
  | PortItem "u16 list" "u16 \<Rightarrow> bool" bool
  | PortRangeItem bool "string list" "rangeItem list"
  | PreferredByItem "string list" "string list" DomainMatchStrategy
  | PreferredByDNSItem "string list" "string list"
  | ProcessItem "string list" "string \<Rightarrow> bool"
  | ProcessPathItem "string list" "string \<Rightarrow> bool"
  | ProcessPathRegexItem "(string \<Rightarrow> bool) list" string
  | ProtocolItem "string list" "string \<Rightarrow> bool"
  | QueryClientSubnetItem "Prefix list"
  | QueryDNSSECItem
  | QueryTypeItem "u16 list" "u16 \<Rightarrow> bool"
  | DNSResponseRCodeItem int
  | DNSResponseRecordItem string "RR option list" "Msg \<Rightarrow> RR list"
  | SourceHostnameItem "string list" "string \<Rightarrow> bool"
  | SourceMACAddressItem "string list" "string \<Rightarrow> bool"
  | UserItem "string list" "string \<Rightarrow> bool"
  | UserIdItem "int list" "int \<Rightarrow> bool"
  | WIFIBSSIDItem "string list" "string \<Rightarrow> bool"
  | WIFISSIDItem "string list" "string \<Rightarrow> bool"
  | DefaultInterfaceAddressItem bool "Prefix list"
  | InterfaceAddressItem "(string \<times> Prefix list) list" string
  | NetworkInterfaceAddressItem "(InterfaceType \<times> Prefix list) list" string

text \<open>
  How items print a list: alone, in brackets, or in brackets cut after three
  elements.
\<close>

definition bracketed :: "string list \<Rightarrow> string" where
  "bracketed xs = ''['' @ StrJoin xs '' '' @ '']''"

definition describe :: "string \<Rightarrow> string list \<Rightarrow> string" where
  "describe prefix xs = prefix @ (case xs of [x] \<Rightarrow> x | _ \<Rightarrow> bracketed xs)"

definition describe_cut :: "string \<Rightarrow> string \<Rightarrow> string list \<Rightarrow> string" where
  "describe_cut dots prefix xs =
     (if length xs = 1 then prefix @ xs ! 0
      else if length xs > 3 then prefix @ ''['' @ StrJoin (take 3 xs) '' '' @ dots @ '']''
      else prefix @ bracketed xs)"

section \<open>The domain a strategy selects\<close>

text \<open>
  The switch on \<^verbatim>\<open>domainMatchStrategy\<close> that the domain items and the
  preferred-by item share, word for word, in the source.
\<close>

definition domainHost :: "env \<Rightarrow> DomainMatchStrategy \<Rightarrow> InboundContext \<Rightarrow> string" where
  "domainHost E strategy metadata =
     (case strategy of
        DomainMatchStrategyPreferFQDN \<Rightarrow>
          if IsDomain E (Destination metadata) then SFqdn (Destination metadata)
          else if SniffHost metadata \<noteq> [] then SniffHost metadata
          else Domain metadata
      | DomainMatchStrategyFQDNOnly \<Rightarrow>
          if IsDomain E (Destination metadata) then SFqdn (Destination metadata) else []
      | DomainMatchStrategySniffHostOnly \<Rightarrow>
          if SniffHost metadata \<noteq> [] then SniffHost metadata else []
      | _ \<Rightarrow>
          if SniffHost metadata \<noteq> [] then SniffHost metadata
          else if IsDomain E (Destination metadata) then SFqdn (Destination metadata)
          else Domain metadata)"

section \<open>Domain items\<close>

definition NewAdGuardDomainItem :: "env \<Rightarrow> string list \<Rightarrow> DomainMatchStrategy \<Rightarrow> simple_item" where
  "NewAdGuardDomainItem E ruleLines strategy =
     AdGuardDomainItem (NewAdGuardMatcher E ruleLines) strategy"

definition NewRawAdGuardDomainItem :: "(string \<Rightarrow> bool) \<Rightarrow> DomainMatchStrategy \<Rightarrow> simple_item" where
  "NewRawAdGuardDomainItem matcher strategy = AdGuardDomainItem matcher strategy"

definition AdGuardDomainItem_Match ::
  "env \<Rightarrow> (string \<Rightarrow> bool) \<Rightarrow> DomainMatchStrategy \<Rightarrow> InboundContext \<Rightarrow> bool" where
  "AdGuardDomainItem_Match E matcher strategy metadata =
     (let host = domainHost E strategy metadata in
      if host = [] then False else matcher (ToLower host))"

definition AdGuardDomainItem_String :: string where
  "AdGuardDomainItem_String = ''!adguard_domain_rules=<binary>''"

definition NewDomainItem ::
  "env \<Rightarrow> string list \<Rightarrow> string list \<Rightarrow> DomainMatchStrategy \<Rightarrow> item_error + simple_item" where
  "NewDomainItem E domains domainSuffixes strategy =
     (if [] \<in> set domains then Inl EmptyDomain
      else if [] \<in> set domainSuffixes then Inl EmptyDomainSuffix
      else
        let d = (if domains = [] then [] else describe_cut ''...'' ''domain='' domains);
            description =
              (if domainSuffixes = [] then d
               else (if d = [] then [] else d @ '' '')
                 @ describe_cut ''...'' ''domain_suffix='' domainSuffixes)
        in Inr (DomainItem (NewMatcher E domains domainSuffixes False) description strategy))"

definition NewRawDomainItem :: "(string \<Rightarrow> bool) \<Rightarrow> DomainMatchStrategy \<Rightarrow> simple_item" where
  "NewRawDomainItem matcher strategy =
     DomainItem matcher ''domain/domain_suffix=<binary>'' strategy"

definition DomainItem_Match ::
  "env \<Rightarrow> (string \<Rightarrow> bool) \<Rightarrow> DomainMatchStrategy \<Rightarrow> InboundContext \<Rightarrow> bool" where
  "DomainItem_Match E matcher strategy metadata =
     (let host = domainHost E strategy metadata in
      if host = [] then False else matcher (ToLower host))"

definition NewDomainKeywordItem :: "string list \<Rightarrow> DomainMatchStrategy \<Rightarrow> simple_item" where
  "NewDomainKeywordItem keywords strategy = DomainKeywordItem keywords strategy"

definition DomainKeywordItem_Match ::
  "env \<Rightarrow> string list \<Rightarrow> DomainMatchStrategy \<Rightarrow> InboundContext \<Rightarrow> bool" where
  "DomainKeywordItem_Match E keywords strategy metadata =
     (let host = domainHost E strategy metadata in
      if host = [] then False
      else list_ex (\<lambda>keyword. StrContains (ToLower host) keyword) keywords)"

definition DomainKeywordItem_String :: "string list \<Rightarrow> string" where
  "DomainKeywordItem_String keywords = describe_cut ''...'' ''domain_keyword='' keywords"

text \<open>The loop that compiles expressions, stopping at the first bad one.\<close>

fun compileAll :: "env \<Rightarrow> nat \<Rightarrow> string list \<Rightarrow> item_error + (string \<Rightarrow> bool) list" where
  "compileAll E i [] = Inr []"
| "compileAll E i (regex # rest) =
     (case RegexpCompile E regex of
        None \<Rightarrow> Inl (ParseExpression i)
      | Some matcher \<Rightarrow> map_sum id ((#) matcher) (compileAll E (Suc i) rest))"

definition NewDomainRegexItem ::
  "env \<Rightarrow> string list \<Rightarrow> DomainMatchStrategy \<Rightarrow> item_error + simple_item" where
  "NewDomainRegexItem E expressions strategy =
     map_sum id (\<lambda>matchers. DomainRegexItem matchers (describe_cut [] ''domain_regex='' expressions) strategy)
       (compileAll E 0 expressions)"

definition DomainRegexItem_Match ::
  "env \<Rightarrow> (string \<Rightarrow> bool) list \<Rightarrow> DomainMatchStrategy \<Rightarrow> InboundContext \<Rightarrow> bool" where
  "DomainRegexItem_Match E matchers strategy metadata =
     (let host = domainHost E strategy metadata in
      if host = [] then False
      else list_ex (\<lambda>matcher. matcher (ToLower host)) matchers)"

section \<open>Address items\<close>

definition NewIPCIDRItem :: "env \<Rightarrow> bool \<Rightarrow> Prefix list \<Rightarrow> item_error + simple_item" where
  "NewIPCIDRItem E isSource prefixes =
     (let description = describe_cut ''...'' (if isSource then ''source_ip_cidr='' else ''ip_cidr='')
            (map (PrefixString E) prefixes)
      in case BuildIPSet E prefixes of
           None \<Rightarrow> Inl IPSetError
         | Some ranges \<Rightarrow> Inr (IPCIDRItem (FromIPSet ranges) isSource description))"

definition NewRawIPCIDRItem :: "bool \<Rightarrow> IPSetT \<Rightarrow> simple_item" where
  "NewRawIPCIDRItem isSource ipSet =
     IPCIDRItem ipSet isSource
       ((if isSource then ''source_ip_cidr='' else ''ip_cidr='') @ ''<binary>'')"

definition IPCIDRItem_Match :: "env \<Rightarrow> IPSetT \<Rightarrow> bool \<Rightarrow> InboundContext \<Rightarrow> bool" where
  "IPCIDRItem_Match E ipSet isSource metadata =
     (if isSource \<or> IPCIDRMatchSource metadata then IPSetContains ipSet (SAddr (Source metadata))
      else if DestinationAddressMatchFromResponse metadata then
        (let addresses = DNSResponseAddressesForMatch E metadata in
         if addresses = [] then IPCIDRAcceptEmpty metadata
         else list_ex (IPSetContains ipSet) addresses)
      else if IsIP E (Destination metadata) then
        IPSetContains ipSet (SAddr (Destination metadata))
      else if DestinationAddresses metadata \<noteq> [] then
        list_ex (IPSetContains ipSet) (DestinationAddresses metadata)
      else if CacheIPs metadata \<noteq> [] then list_ex (IPSetContains ipSet) (CacheIPs metadata)
      else IPCIDRAcceptEmpty metadata)"

definition IPAcceptAnyItem_Match :: "env \<Rightarrow> InboundContext \<Rightarrow> bool" where
  "IPAcceptAnyItem_Match E metadata =
     (if DestinationAddressMatchFromResponse metadata
      then DNSResponseAddressesForMatch E metadata \<noteq> []
      else DestinationAddresses metadata \<noteq> [])"

definition IPIsPrivateItem_Match :: "env \<Rightarrow> bool \<Rightarrow> InboundContext \<Rightarrow> bool" where
  "IPIsPrivateItem_Match E isSource metadata =
     (if isSource then \<not> IsPublicAddr E (SAddr (Source metadata))
      else if DestinationAddressMatchFromResponse metadata then
        list_ex (\<lambda>a. \<not> IsPublicAddr E a) (DNSResponseAddressesForMatch E metadata)
      else if AddrIsValid (SAddr (Destination metadata)) then
        \<not> IsPublicAddr E (SAddr (Destination metadata))
      else if list_ex (\<lambda>a. \<not> IsPublicAddr E a) (DestinationAddresses metadata) then True
      else if CacheIPs metadata \<noteq> [] then list_ex (\<lambda>a. \<not> IsPublicAddr E a) (CacheIPs metadata)
      else False)"

definition IPIsPrivateItem_String :: "bool \<Rightarrow> string" where
  "IPIsPrivateItem_String isSource =
     (if isSource then ''source_ip_is_private=true'' else ''ip_is_private=true'')"

definition IPVersionItem_Match :: "env \<Rightarrow> bool \<Rightarrow> InboundContext \<Rightarrow> bool" where
  "IPVersionItem_Match E isIPv6 metadata \<longleftrightarrow>
     IPVersion metadata \<noteq> 0 \<and> (IPVersion metadata = 6) = isIPv6 \<or>
     IsIP E (Destination metadata) \<and> IsIPv6 E (Destination metadata) = isIPv6"

definition IPVersionItem_String :: "bool \<Rightarrow> string" where
  "IPVersionItem_String isIPv6 = ''ip_version='' @ (if isIPv6 then ''6'' else ''4'')"

section \<open>Items on names carried by the metadata\<close>

definition NewAuthUserItem :: "string list \<Rightarrow> simple_item" where
  "NewAuthUserItem users = AuthUserItem users (boolMap users)"

definition AuthUserItem_Match :: "(string \<Rightarrow> bool) \<Rightarrow> InboundContext \<Rightarrow> bool" where
  "AuthUserItem_Match userMap metadata = userMap (User metadata)"

definition AuthUserItem_String :: "string list \<Rightarrow> string" where
  "AuthUserItem_String users = describe ''auth_user='' users"

definition NewClientItem :: "string list \<Rightarrow> simple_item" where
  "NewClientItem clients = ClientItem clients (boolMap clients)"

definition ClientItem_Match :: "(string \<Rightarrow> bool) \<Rightarrow> InboundContext \<Rightarrow> bool" where
  "ClientItem_Match clientMap metadata = clientMap (Client metadata)"

definition ClientItem_String :: "string list \<Rightarrow> string" where
  "ClientItem_String clients = describe ''client='' clients"

definition NewInboundRule :: "string list \<Rightarrow> simple_item" where
  "NewInboundRule inbounds = InboundItem inbounds (boolMap inbounds)"

definition InboundItem_Match :: "(string \<Rightarrow> bool) \<Rightarrow> InboundContext \<Rightarrow> bool" where
  "InboundItem_Match inboundMap metadata = inboundMap (Inbound metadata)"

definition InboundItem_String :: "string list \<Rightarrow> string" where
  "InboundItem_String inbounds = describe ''inbound='' inbounds"

definition NewNetworkItem :: "string list \<Rightarrow> simple_item" where
  "NewNetworkItem networks = NetworkItem networks (boolMap networks)"

definition NetworkItem_Match :: "(string \<Rightarrow> bool) \<Rightarrow> InboundContext \<Rightarrow> bool" where
  "NetworkItem_Match networkMap metadata = networkMap (Network metadata)"

definition NetworkItem_String :: "string list \<Rightarrow> string" where
  "NetworkItem_String networks = describe ''network='' networks"

definition NewProtocolItem :: "string list \<Rightarrow> simple_item" where
  "NewProtocolItem protocols = ProtocolItem protocols (boolMap protocols)"

definition ProtocolItem_Match :: "(string \<Rightarrow> bool) \<Rightarrow> InboundContext \<Rightarrow> bool" where
  "ProtocolItem_Match protocolMap metadata = protocolMap (Protocol metadata)"

definition ProtocolItem_String :: "string list \<Rightarrow> string" where
  "ProtocolItem_String protocols = describe ''protocol='' protocols"

text \<open>The tag \<^verbatim>\<open>any\<close> of an outbound item is a flag, not an entry of its map.\<close>

definition NewOutboundRule :: "string list \<Rightarrow> simple_item" where
  "NewOutboundRule outbounds =
     OutboundItem outbounds (boolMap (filter (\<lambda>outbound. outbound \<noteq> ''any'') outbounds))
       (''any'' \<in> set outbounds)"

definition OutboundItem_Match :: "(string \<Rightarrow> bool) \<Rightarrow> bool \<Rightarrow> InboundContext \<Rightarrow> bool" where
  "OutboundItem_Match outboundMap matchAny metadata =
     (if matchAny then Outbound metadata \<noteq> [] else outboundMap (Outbound metadata))"

definition OutboundItem_String :: "string list \<Rightarrow> string" where
  "OutboundItem_String outbounds = describe ''outbound='' outbounds"

definition NewSourceHostnameItem :: "string list \<Rightarrow> simple_item" where
  "NewSourceHostnameItem hostnameList = SourceHostnameItem hostnameList (boolMap hostnameList)"

definition SourceHostnameItem_Match :: "(string \<Rightarrow> bool) \<Rightarrow> InboundContext \<Rightarrow> bool" where
  "SourceHostnameItem_Match hostnameMap metadata =
     (if SourceHostname metadata = [] then False else hostnameMap (SourceHostname metadata))"

definition SourceHostnameItem_String :: "string list \<Rightarrow> string" where
  "SourceHostnameItem_String hostnames = describe ''source_hostname='' hostnames"

definition NewSourceMACAddressItem :: "string list \<Rightarrow> simple_item" where
  "NewSourceMACAddressItem addressList =
     SourceMACAddressItem addressList
       (boolMap (map (\<lambda>address. case ParseMAC address of
                        Some parsed \<Rightarrow> HardwareAddrString parsed
                      | None \<Rightarrow> address) addressList))"

definition SourceMACAddressItem_Match :: "(string \<Rightarrow> bool) \<Rightarrow> InboundContext \<Rightarrow> bool" where
  "SourceMACAddressItem_Match addressMap metadata =
     (case SourceMACAddress metadata of
        None \<Rightarrow> False
      | Some address \<Rightarrow> addressMap (HardwareAddrString address))"

definition SourceMACAddressItem_String :: "string list \<Rightarrow> string" where
  "SourceMACAddressItem_String addresses = describe ''source_mac_address='' addresses"

section \<open>Port items\<close>

definition NewPortItem :: "bool \<Rightarrow> u16 list \<Rightarrow> simple_item" where
  "NewPortItem isSource ports = PortItem ports (boolMap ports) isSource"

definition PortItem_Match :: "(u16 \<Rightarrow> bool) \<Rightarrow> bool \<Rightarrow> InboundContext \<Rightarrow> bool" where
  "PortItem_Match portMap isSource metadata =
     (if isSource then portMap (SPort (Source metadata)) else portMap (SPort (Destination metadata)))"

definition PortItem_String :: "env \<Rightarrow> u16 list \<Rightarrow> bool \<Rightarrow> string" where
  "PortItem_String E ports isSource =
     describe (if isSource then ''source_port='' else ''port='') (map (\<lambda>p. ToStringInt E (uint p)) ports)"

text \<open>One range \<^verbatim>\<open>start:end\<close>, where either end may be left out.\<close>

definition parsePortRange :: "string \<Rightarrow> item_error + rangeItem" where
  "parsePortRange portRange =
     (case StrIndex portRange CHR '':'' of
        None \<Rightarrow> Inl (ErrBadPortRange portRange)
      | Some subIndex \<Rightarrow>
          (case (if subIndex > 0 then ParseUint10 16 (take subIndex portRange) else Some 0) of
             None \<Rightarrow> Inl (ErrBadPortRange portRange)
           | Some startValue \<Rightarrow>
               (case (if subIndex = length portRange - 1 then Some 65535
                      else ParseUint10 16 (drop (subIndex + 1) portRange)) of
                  None \<Rightarrow> Inl (ErrBadPortRange portRange)
                | Some endValue \<Rightarrow>
                    Inr \<lparr>start = word_of_nat startValue, end = word_of_nat endValue\<rparr>)))"

fun parsePortRanges :: "string list \<Rightarrow> item_error + rangeItem list" where
  "parsePortRanges [] = Inr []"
| "parsePortRanges (portRange # rest) =
     (case parsePortRange portRange of
        Inl err \<Rightarrow> Inl err
      | Inr r \<Rightarrow> map_sum id ((#) r) (parsePortRanges rest))"

definition NewPortRangeItem :: "bool \<Rightarrow> string list \<Rightarrow> item_error + simple_item" where
  "NewPortRangeItem isSource rangeList =
     map_sum id (PortRangeItem isSource rangeList) (parsePortRanges rangeList)"

definition PortRangeItem_Match :: "bool \<Rightarrow> rangeItem list \<Rightarrow> InboundContext \<Rightarrow> bool" where
  "PortRangeItem_Match isSource portRangeList metadata =
     (let port = (if isSource then SPort (Source metadata) else SPort (Destination metadata)) in
      list_ex (\<lambda>portRange. port \<ge> start portRange \<and> port \<le> end portRange) portRangeList)"

definition PortRangeItem_String :: "bool \<Rightarrow> string list \<Rightarrow> string" where
  "PortRangeItem_String isSource portRanges =
     describe (if isSource then ''source_port_range='' else ''port_range='') portRanges"

section \<open>Process items\<close>

definition NewProcessItem :: "string list \<Rightarrow> simple_item" where
  "NewProcessItem processNameList = ProcessItem processNameList (boolMap processNameList)"

text \<open>\<^verbatim>\<open>ProcessItem\<close> and \<^verbatim>\<open>ProcessPathItem\<close> resolve the process, which changes the context.\<close>

definition ProcessItem_Match :: "(string \<Rightarrow> bool) \<Rightarrow> InboundContext \<Rightarrow> bool \<times> InboundContext" where
  "ProcessItem_Match processMap metadata =
     (case ResolveProcessInfo metadata of
        (None, metadata') \<Rightarrow> (False, metadata')
      | (Some processInfo, metadata') \<Rightarrow>
          (list_ex (\<lambda>processPath. processMap (FilepathBase processPath)) (ProcessPaths processInfo),
           metadata'))"

definition ProcessItem_String :: "string list \<Rightarrow> string" where
  "ProcessItem_String processes = describe ''process_name='' processes"

definition NewProcessPathItem :: "string list \<Rightarrow> simple_item" where
  "NewProcessPathItem processNameList = ProcessPathItem processNameList (boolMap processNameList)"

definition ProcessPathItem_Match ::
  "env \<Rightarrow> (string \<Rightarrow> bool) \<Rightarrow> InboundContext \<Rightarrow> bool \<times> InboundContext" where
  "ProcessPathItem_Match E processMap metadata =
     (case ResolveProcessInfo metadata of
        (None, metadata') \<Rightarrow> (False, metadata')
      | (Some processInfo, metadata') \<Rightarrow>
          (if list_ex processMap (ProcessPaths processInfo) then True
           else if IsAndroid E then list_ex processMap (PackageNames processInfo)
           else False, metadata'))"

definition ProcessPathItem_String :: "string list \<Rightarrow> string" where
  "ProcessPathItem_String processes = describe ''process_path='' processes"

definition NewProcessPathRegexItem :: "env \<Rightarrow> string list \<Rightarrow> item_error + simple_item" where
  "NewProcessPathRegexItem E expressions =
     map_sum id (\<lambda>matchers. ProcessPathRegexItem matchers (describe_cut [] ''process_path_regex='' expressions))
       (compileAll E 0 expressions)"

definition ProcessPathRegexItem_Match :: "(string \<Rightarrow> bool) list \<Rightarrow> InboundContext \<Rightarrow> bool" where
  "ProcessPathRegexItem_Match matchers metadata =
     (case ProcessInfo metadata of
        None \<Rightarrow> False
      | Some processInfo \<Rightarrow>
          list_ex (\<lambda>matcher. list_ex matcher (ProcessPaths processInfo)) matchers)"

definition NewPackageNameItem :: "string list \<Rightarrow> simple_item" where
  "NewPackageNameItem packageNameList = PackageNameItem packageNameList (boolMap packageNameList)"

definition PackageNameItem_Match :: "(string \<Rightarrow> bool) \<Rightarrow> InboundContext \<Rightarrow> bool" where
  "PackageNameItem_Match packageMap metadata =
     (case ProcessInfo metadata of
        None \<Rightarrow> False
      | Some processInfo \<Rightarrow>
          if PackageNames processInfo = [] then False
          else list_ex packageMap (PackageNames processInfo))"

definition PackageNameItem_String :: "string list \<Rightarrow> string" where
  "PackageNameItem_String packageNames = describe ''package_name='' packageNames"

definition NewPackageNameRegexItem :: "env \<Rightarrow> string list \<Rightarrow> item_error + simple_item" where
  "NewPackageNameRegexItem E expressions =
     map_sum id (\<lambda>matchers. PackageNameRegexItem matchers (describe_cut [] ''package_name_regex='' expressions))
       (compileAll E 0 expressions)"

definition PackageNameRegexItem_Match :: "(string \<Rightarrow> bool) list \<Rightarrow> InboundContext \<Rightarrow> bool" where
  "PackageNameRegexItem_Match matchers metadata =
     (case ProcessInfo metadata of
        None \<Rightarrow> False
      | Some processInfo \<Rightarrow>
          if PackageNames processInfo = [] then False
          else list_ex (\<lambda>matcher. list_ex matcher (PackageNames processInfo)) matchers)"

definition NewUserItem :: "string list \<Rightarrow> simple_item" where
  "NewUserItem users = UserItem users (boolMap users)"

definition UserItem_Match :: "(string \<Rightarrow> bool) \<Rightarrow> InboundContext \<Rightarrow> bool" where
  "UserItem_Match userMap metadata =
     (case ProcessInfo metadata of
        None \<Rightarrow> False
      | Some processInfo \<Rightarrow>
          if UserName processInfo = [] then False else userMap (UserName processInfo))"

definition UserItem_String :: "string list \<Rightarrow> string" where
  "UserItem_String users = describe ''user='' users"

definition NewUserIDItem :: "int list \<Rightarrow> simple_item" where
  "NewUserIDItem userIdList = UserIdItem userIdList (boolMap userIdList)"

definition UserIdItem_Match :: "(int \<Rightarrow> bool) \<Rightarrow> InboundContext \<Rightarrow> bool" where
  "UserIdItem_Match userIdMap metadata =
     (case ProcessInfo metadata of
        None \<Rightarrow> False
      | Some processInfo \<Rightarrow> if UserId processInfo = -1 then False else userIdMap (UserId processInfo))"

definition UserIdItem_String :: "env \<Rightarrow> int list \<Rightarrow> string" where
  "UserIdItem_String E userIds = describe ''user_id='' (map (ToStringInt E) userIds)"

section \<open>Items on the network state\<close>

definition NormalizeWIFIBSSID :: "string \<Rightarrow> string" where
  "NormalizeWIFIBSSID bssid0 =
     (let bssid = TrimSpace bssid0 in
      if bssid = [] then []
      else case ParseMAC bssid of
        Some parsed \<Rightarrow>
          if length parsed = 6 then HardwareAddrString parsed
          else if length bssid = 12 then
            (case HexDecodeString bssid of Some decoded \<Rightarrow> HardwareAddrString decoded | None \<Rightarrow> bssid)
          else bssid
      | None \<Rightarrow>
          if length bssid = 12 then
            (case HexDecodeString bssid of Some decoded \<Rightarrow> HardwareAddrString decoded | None \<Rightarrow> bssid)
          else bssid)"

definition InterfaceType_String :: "env \<Rightarrow> InterfaceType \<Rightarrow> string" where
  "InterfaceType_String E t =
     (if t = InterfaceTypeWIFI then ''wifi''
      else if t = InterfaceTypeCellular then ''cellular''
      else if t = InterfaceTypeEthernet then ''ethernet''
      else if t = InterfaceTypeOther then ''other''
      else ToStringInt E (uint t))"

definition NetworkIsConstrainedItem_Match :: "env \<Rightarrow> bool" where
  "NetworkIsConstrainedItem_Match E =
     (case DefaultNetworkInterface E of None \<Rightarrow> False | Some ni \<Rightarrow> NIConstrained ni)"

definition NetworkIsConstrainedItem_String :: string where
  "NetworkIsConstrainedItem_String = ''network_is_expensive=true''"

definition NetworkIsExpensiveItem_Match :: "env \<Rightarrow> bool" where
  "NetworkIsExpensiveItem_Match E =
     (case DefaultNetworkInterface E of None \<Rightarrow> False | Some ni \<Rightarrow> NIExpensive ni)"

definition NetworkIsExpensiveItem_String :: string where
  "NetworkIsExpensiveItem_String = ''network_is_expensive=true''"

definition NetworkTypeItem_Match :: "env \<Rightarrow> InterfaceType list \<Rightarrow> bool" where
  "NetworkTypeItem_Match E networkType =
     (if IsAndroid E \<and> NetworkInterfaces E = [] then
        InterfaceTypeWIFI \<in> set networkType \<and> SSID (WIFIState E) \<noteq> []
      else case DefaultNetworkInterface E of
        None \<Rightarrow> False
      | Some ni \<Rightarrow> NIType ni \<in> set networkType)"

definition NetworkTypeItem_String :: "env \<Rightarrow> InterfaceType list \<Rightarrow> string" where
  "NetworkTypeItem_String E networkType =
     describe ''network_type='' (map (InterfaceType_String E) networkType)"

definition NewWIFISSIDItem :: "string list \<Rightarrow> simple_item" where
  "NewWIFISSIDItem ssidList = WIFISSIDItem ssidList (boolMap ssidList)"

definition WIFISSIDItem_Match :: "env \<Rightarrow> (string \<Rightarrow> bool) \<Rightarrow> bool" where
  "WIFISSIDItem_Match E ssidMap = ssidMap (SSID (WIFIState E))"

definition WIFISSIDItem_String :: "string list \<Rightarrow> string" where
  "WIFISSIDItem_String ssidList = describe ''wifi_ssid='' ssidList"

definition NewWIFIBSSIDItem :: "string list \<Rightarrow> simple_item" where
  "NewWIFIBSSIDItem bssidList = WIFIBSSIDItem bssidList (boolMap (map NormalizeWIFIBSSID bssidList))"

definition WIFIBSSIDItem_Match :: "env \<Rightarrow> (string \<Rightarrow> bool) \<Rightarrow> bool" where
  "WIFIBSSIDItem_Match E bssidMap = bssidMap (BSSID (WIFIState E))"

definition WIFIBSSIDItem_String :: "string list \<Rightarrow> string" where
  "WIFIBSSIDItem_String bssidList = describe ''wifi_bssid='' bssidList"

definition NewDefaultInterfaceAddressItem :: "env \<Rightarrow> Prefix list \<Rightarrow> simple_item" where
  "NewDefaultInterfaceAddressItem E interfaceAddresses =
     DefaultInterfaceAddressItem (InterfaceMonitor E \<noteq> None) interfaceAddresses"

definition DefaultInterfaceAddressItem_Match :: "env \<Rightarrow> bool \<Rightarrow> Prefix list \<Rightarrow> bool" where
  "DefaultInterfaceAddressItem_Match E hasMonitor interfaceAddresses =
     (if \<not> hasMonitor then False
      else case InterfaceMonitor E of
        Some (Some defaultInterface, _) \<Rightarrow>
          list_all (\<lambda>address. \<not> list_all (\<lambda>it. \<not> Overlaps address it) (IfAddresses defaultInterface))
            interfaceAddresses
      | _ \<Rightarrow> False)"

definition DefaultInterfaceAddressItem_String :: "env \<Rightarrow> Prefix list \<Rightarrow> string" where
  "DefaultInterfaceAddressItem_String E interfaceAddresses =
     describe_cut ''...'' ''default_interface_address='' (map (PrefixString E) interfaceAddresses)"

definition describe_entry :: "env \<Rightarrow> string \<Rightarrow> Prefix list \<Rightarrow> string" where
  "describe_entry E key prefixes = key @ ''='' @ StrJoin (map (PrefixString E) prefixes) '',''"

definition NewInterfaceAddressItem :: "env \<Rightarrow> (string \<times> Prefix list) list \<Rightarrow> simple_item" where
  "NewInterfaceAddressItem E entries =
     InterfaceAddressItem (foldl (\<lambda>m (key, prefixes). AList.update key prefixes m) [] entries)
       (''interface_address='' @ bracketed (map (\<lambda>(key, prefixes). describe_entry E key prefixes) entries))"

definition InterfaceAddressItem_Match :: "env \<Rightarrow> (string \<times> Prefix list) list \<Rightarrow> bool" where
  "InterfaceAddressItem_Match E interfaceAddresses =
     list_all (\<lambda>(ifName, addresses).
       case find (\<lambda>it. IfName it = ifName) (FinderInterfaces E) of
         None \<Rightarrow> False
       | Some iface \<Rightarrow>
           IfName iface \<noteq> [] \<and>
           \<not> list_all (\<lambda>address. list_all (\<lambda>it. \<not> Overlaps address it) (IfAddresses iface)) addresses)
       interfaceAddresses"

definition NewNetworkInterfaceAddressItem ::
  "env \<Rightarrow> (InterfaceType \<times> Prefix list) list \<Rightarrow> simple_item" where
  "NewNetworkInterfaceAddressItem E entries =
     NetworkInterfaceAddressItem (foldl (\<lambda>m (key, prefixes). AList.update key prefixes m) [] entries)
       (''network_interface_address='' @ bracketed
          (map (\<lambda>(key, prefixes). describe_entry E (InterfaceType_String E key) prefixes) entries))"

definition NetworkInterfaceAddressItem_Match ::
  "env \<Rightarrow> (InterfaceType \<times> Prefix list) list \<Rightarrow> bool" where
  "NetworkInterfaceAddressItem_Match E interfaceAddresses =
     (let myInterfaces = (case InterfaceMonitor E of None \<Rightarrow> [] | Some (_, names) \<Rightarrow> names) in
      list_all (\<lambda>(ifType, addresses).
        list_ex (\<lambda>ni.
          IfName (NIInterface ni) \<notin> set myInterfaces \<and> NIType ni = ifType \<and>
          list_ex (\<lambda>it. list_ex (\<lambda>prefix. Overlaps prefix it) addresses) (IfAddresses (NIInterface ni)))
          (NetworkInterfaces E))
        interfaceAddresses)"

text \<open>\<^verbatim>\<open>Start\<close> binds a Clash mode item to the mode manager, if there is one.\<close>

definition NewClashModeItem :: "string list \<Rightarrow> simple_item" where
  "NewClashModeItem modes = ClashModeItem False modes"

definition ClashModeItem_Start :: "env \<Rightarrow> string list \<Rightarrow> simple_item" where
  "ClashModeItem_Start E modes = ClashModeItem (ClashMode E \<noteq> None) modes"

definition ClashModeItem_Match :: "env \<Rightarrow> bool \<Rightarrow> string list \<Rightarrow> bool" where
  "ClashModeItem_Match E bound modes =
     (if \<not> bound then False
      else case ClashMode E of
        None \<Rightarrow> False
      | Some current \<Rightarrow> list_ex (\<lambda>mode. EqualFold current mode) modes)"

text \<open>Indexing an empty list of modes panics: \<open>None\<close>.\<close>

definition ClashModeItem_String :: "string list \<Rightarrow> string option" where
  "ClashModeItem_String modes =
     (case modes of
        [] \<Rightarrow> None
      | mode # _ \<Rightarrow>
          Some (''clash_mode='' @
            (if length modes > 1 then ''['' @ StrJoin modes '', '' @ '']'' else mode)))"

section \<open>DNS items\<close>

definition NewQueryTypeItem :: "u16 list \<Rightarrow> simple_item" where
  "NewQueryTypeItem typeList = QueryTypeItem typeList (boolMap typeList)"

definition QueryTypeItem_Match :: "(u16 \<Rightarrow> bool) \<Rightarrow> InboundContext \<Rightarrow> bool" where
  "QueryTypeItem_Match typeMap metadata =
     (if QueryType metadata = 0 then False else typeMap (QueryType metadata))"

definition DNSQueryTypeToString :: "env \<Rightarrow> u16 \<Rightarrow> string" where
  "DNSQueryTypeToString E queryType =
     (case TypeToString E queryType of
        Some typeName \<Rightarrow> typeName
      | None \<Rightarrow> ToStringInt E (uint queryType))"

definition QueryTypeItem_String :: "env \<Rightarrow> u16 list \<Rightarrow> string" where
  "QueryTypeItem_String E typeList = describe ''query_type='' (map (DNSQueryTypeToString E) typeList)"

definition NewQueryClientSubnetItem :: "Prefix list \<Rightarrow> simple_item" where
  "NewQueryClientSubnetItem prefixes = QueryClientSubnetItem prefixes"

definition QueryClientSubnetItem_Match :: "Prefix list \<Rightarrow> InboundContext \<Rightarrow> bool" where
  "QueryClientSubnetItem_Match prefixes metadata =
     (let clientSubnet = QueryClientSubnet metadata in
      if \<not> PrefixIsValid clientSubnet then False
      else list_ex (\<lambda>prefix. PrefixBits clientSubnet \<ge> PrefixBits prefix
                      \<and> PrefixContains prefix (PrefixAddr clientSubnet)) prefixes)"

definition QueryClientSubnetItem_String :: "env \<Rightarrow> Prefix list \<Rightarrow> string" where
  "QueryClientSubnetItem_String E prefixes =
     describe ''query_client_subnet='' (map (PrefixString E) prefixes)"

definition QueryDNSSECItem_Match :: "InboundContext \<Rightarrow> bool" where
  "QueryDNSSECItem_Match metadata = QueryDNSSEC metadata"

definition DNSResponseRCodeItem_Match :: "int \<Rightarrow> InboundContext \<Rightarrow> bool" where
  "DNSResponseRCodeItem_Match rcode metadata =
     (case DNSResponse metadata of None \<Rightarrow> False | Some response \<Rightarrow> Rcode response = rcode)"

definition DNSResponseRCodeItem_String :: "env \<Rightarrow> int \<Rightarrow> string" where
  "DNSResponseRCodeItem_String E rcode = ''response_rcode='' @ RcodeToString E rcode"

definition DNSRecordOptions_Match :: "env \<Rightarrow> RR option \<Rightarrow> RR \<Rightarrow> bool" where
  "DNSRecordOptions_Match E expected record =
     (case expected of None \<Rightarrow> False | Some rr \<Rightarrow> IsDuplicate E rr record)"

definition NewDNSResponseRecordItem ::
  "string \<Rightarrow> RR option list \<Rightarrow> (Msg \<Rightarrow> RR list) \<Rightarrow> simple_item" where
  "NewDNSResponseRecordItem field records selector = DNSResponseRecordItem field records selector"

definition DNSResponseRecordItem_Match ::
  "env \<Rightarrow> RR option list \<Rightarrow> (Msg \<Rightarrow> RR list) \<Rightarrow> InboundContext \<Rightarrow> bool" where
  "DNSResponseRecordItem_Match E records selector metadata =
     (case DNSResponse metadata of
        None \<Rightarrow> False
      | Some response \<Rightarrow>
          list_ex (\<lambda>expected. list_ex (DNSRecordOptions_Match E expected) (selector response)) records)"

definition DNSResponseRecordItem_String :: "env \<Rightarrow> string \<Rightarrow> RR option list \<Rightarrow> string" where
  "DNSResponseRecordItem_String E field records =
     field @ ''=[''
       @ StrJoin (List.map_filter (map_option (RRString E)) records) '' '' @ '']''"

section \<open>Items bound to outbounds and DNS servers\<close>

definition NewPreferredByItem :: "string list \<Rightarrow> DomainMatchStrategy \<Rightarrow> simple_item" where
  "NewPreferredByItem outboundTags strategy = PreferredByItem outboundTags [] strategy"

text \<open>\<^verbatim>\<open>Start\<close> looks each tag up and stops at the first one that does not qualify.\<close>

fun bindOutbounds :: "env \<Rightarrow> string list \<Rightarrow> string list \<Rightarrow> item_error + string list" where
  "bindOutbounds E outbounds [] = Inr outbounds"
| "bindOutbounds E outbounds (outboundTag # rest) =
     (case OutboundManager E outboundTag of
        None \<Rightarrow> Inl (OutboundNotFound outboundTag)
      | Some (outboundType, withRoutes) \<Rightarrow>
          if \<not> withRoutes then Inl (NoPreferredRoutes outboundType)
          else bindOutbounds E (outbounds @ [outboundTag]) rest)"

definition PreferredByItem_Start ::
  "env \<Rightarrow> string list \<Rightarrow> string list \<Rightarrow> DomainMatchStrategy \<Rightarrow> item_error + simple_item" where
  "PreferredByItem_Start E outboundTags outbounds strategy =
     map_sum id (\<lambda>obs. PreferredByItem outboundTags obs strategy) (bindOutbounds E outbounds outboundTags)"

definition PreferredByItem_Match ::
  "env \<Rightarrow> string list \<Rightarrow> DomainMatchStrategy \<Rightarrow> InboundContext \<Rightarrow> bool" where
  "PreferredByItem_Match E outbounds strategy metadata =
     (let host = domainHost E strategy metadata in
      if host \<noteq> [] \<and> list_ex (\<lambda>ob. OutboundPreferredDomain E ob metadata host) outbounds then True
      else if IsIP E (Destination metadata)
        \<and> list_ex (\<lambda>ob. OutboundPreferredAddress E ob metadata (SAddr (Destination metadata))) outbounds
        then True
      else if DestinationAddresses metadata \<noteq> [] \<or> CacheIPs metadata \<noteq> [] then
        (if list_ex (\<lambda>address. list_ex (\<lambda>ob. OutboundPreferredAddress E ob metadata address) outbounds)
              (DestinationAddresses metadata) then True
         else list_ex (\<lambda>address. list_ex (\<lambda>ob. OutboundPreferredAddress E ob metadata address) outbounds)
              (CacheIPs metadata))
      else False)"

definition PreferredByItem_String :: "string list \<Rightarrow> string" where
  "PreferredByItem_String outboundTags = describe ''preferred_by='' outboundTags"

fun bindTransports ::
  "env \<Rightarrow> (bool \<times> bool \<Rightarrow> bool) \<Rightarrow> string list \<Rightarrow> string list \<Rightarrow> item_error + string list" where
  "bindTransports E qualifies transports [] = Inr transports"
| "bindTransports E qualifies transports (transportTag # rest) =
     (case DNSTransportManager E transportTag of
        None \<Rightarrow> Inl (DNSServerNotFound transportTag)
      | Some (transportType, capabilities) \<Rightarrow>
          if \<not> qualifies capabilities then Inl (UnsupportedDNSServer transportType)
          else bindTransports E qualifies (transports @ [transportTag]) rest)"

definition NewPreferredByDNSItem :: "string list \<Rightarrow> simple_item" where
  "NewPreferredByDNSItem transportTags = PreferredByDNSItem transportTags []"

definition PreferredByDNSItem_Start ::
  "env \<Rightarrow> string list \<Rightarrow> string list \<Rightarrow> item_error + simple_item" where
  "PreferredByDNSItem_Start E transportTags transports =
     map_sum id (PreferredByDNSItem transportTags) (bindTransports E snd transports transportTags)"

definition PreferredByDNSItem_Match :: "env \<Rightarrow> string list \<Rightarrow> InboundContext \<Rightarrow> bool" where
  "PreferredByDNSItem_Match E transports metadata =
     (let host = (if Domain metadata \<noteq> [] then Domain metadata else SFqdn (Destination metadata)) in
      if host = [] then False
      else list_ex (\<lambda>transport. TransportPreferredDomain E transport (CanonicalName E host)) transports)"

definition PreferredByDNSItem_String :: "string list \<Rightarrow> string" where
  "PreferredByDNSItem_String transportTags = describe ''preferred_by='' transportTags"

definition NewDNSSearchDomainItem :: "env \<Rightarrow> (string \<times> string list) list \<Rightarrow> simple_item" where
  "NewDNSSearchDomainItem E entries =
     DNSSearchDomainItem (map fst entries) (map (\<lambda>(_, domains). map (CanonicalName E) domains) entries) []
       (''dns_search_domain=''
        @ bracketed (map (\<lambda>(key, domains). key @ ''='' @ StrJoin domains '','') entries))"

definition DNSSearchDomainItem_Start ::
  "env \<Rightarrow> string list \<Rightarrow> string list list \<Rightarrow> string list \<Rightarrow> string \<Rightarrow> item_error + simple_item" where
  "DNSSearchDomainItem_Start E transportTags searchDomains transports description =
     map_sum id (\<lambda>ts. DNSSearchDomainItem transportTags searchDomains ts description)
       (bindTransports E fst transports transportTags)"

definition DNSSearchDomainItem_Match :: "env \<Rightarrow> string list list \<Rightarrow> string list \<Rightarrow> bool" where
  "DNSSearchDomainItem_Match E searchDomains transports =
     list_all (\<lambda>(transport, domains).
       list_ex (\<lambda>searchDomain. CanonicalName E searchDomain \<in> set domains) (SearchDomains E transport))
       (zip transports searchDomains)"

definition NewDNSServerAddressItem :: "env \<Rightarrow> (string \<times> Prefix list) list \<Rightarrow> simple_item" where
  "NewDNSServerAddressItem E entries =
     DNSServerAddressItem (map fst entries) (map snd entries) []
       (''dns_server_address=''
        @ bracketed (map (\<lambda>(key, prefixes). describe_entry E key prefixes) entries))"

definition DNSServerAddressItem_Start ::
  "env \<Rightarrow> string list \<Rightarrow> Prefix list list \<Rightarrow> string list \<Rightarrow> string \<Rightarrow> item_error + simple_item" where
  "DNSServerAddressItem_Start E transportTags serverAddresses transports description =
     map_sum id (\<lambda>ts. DNSServerAddressItem transportTags serverAddresses ts description)
       (bindTransports E fst transports transportTags)"

definition DNSServerAddressItem_Match :: "env \<Rightarrow> Prefix list list \<Rightarrow> string list \<Rightarrow> bool" where
  "DNSServerAddressItem_Match E serverAddresses transports =
     list_all (\<lambda>(transport, prefixes).
       list_ex (\<lambda>address. list_ex (\<lambda>prefix. PrefixContains prefix (WithZone (Unmap address) [])) prefixes)
         (ServerAddresses E transport))
       (zip transports serverAddresses)"

section \<open>Dispatch\<close>

text \<open>
  Calling \<^verbatim>\<open>Match\<close>, \<^verbatim>\<open>String\<close> and \<^verbatim>\<open>Start\<close> on an item. Only the two process items
  change the context they are given.
\<close>

primrec simple_Match :: "env \<Rightarrow> simple_item \<Rightarrow> InboundContext \<Rightarrow> bool \<times> InboundContext" where
  "simple_Match E (AdGuardDomainItem matcher s) c = (AdGuardDomainItem_Match E matcher s c, c)"
| "simple_Match E (AuthUserItem _ m) c = (AuthUserItem_Match m c, c)"
| "simple_Match E (IPCIDRItem ipSet isSource _) c = (IPCIDRItem_Match E ipSet isSource c, c)"
| "simple_Match E (ClashModeItem bound modes) c = (ClashModeItem_Match E bound modes, c)"
| "simple_Match E (ClientItem _ m) c = (ClientItem_Match m c, c)"
| "simple_Match E (DNSSearchDomainItem _ ds ts _) c = (DNSSearchDomainItem_Match E ds ts, c)"
| "simple_Match E (DNSServerAddressItem _ ps ts _) c = (DNSServerAddressItem_Match E ps ts, c)"
| "simple_Match E (DomainItem matcher _ s) c = (DomainItem_Match E matcher s c, c)"
| "simple_Match E (DomainKeywordItem ks s) c = (DomainKeywordItem_Match E ks s c, c)"
| "simple_Match E (DomainRegexItem ms _ s) c = (DomainRegexItem_Match E ms s c, c)"
| "simple_Match E (InboundItem _ m) c = (InboundItem_Match m c, c)"
| "simple_Match E IPAcceptAnyItem c = (IPAcceptAnyItem_Match E c, c)"
| "simple_Match E (IPIsPrivateItem isSource) c = (IPIsPrivateItem_Match E isSource c, c)"
| "simple_Match E (IPVersionItem v6) c = (IPVersionItem_Match E v6 c, c)"
| "simple_Match E (NetworkItem _ m) c = (NetworkItem_Match m c, c)"
| "simple_Match E NetworkIsConstrainedItem c = (NetworkIsConstrainedItem_Match E, c)"
| "simple_Match E NetworkIsExpensiveItem c = (NetworkIsExpensiveItem_Match E, c)"
| "simple_Match E (NetworkTypeItem ts) c = (NetworkTypeItem_Match E ts, c)"
| "simple_Match E (OutboundItem _ m matchAny) c = (OutboundItem_Match m matchAny c, c)"
| "simple_Match E (PackageNameItem _ m) c = (PackageNameItem_Match m c, c)"
| "simple_Match E (PackageNameRegexItem ms _) c = (PackageNameRegexItem_Match ms c, c)"
| "simple_Match E (PortItem _ m isSource) c = (PortItem_Match m isSource c, c)"
| "simple_Match E (PortRangeItem isSource _ rs) c = (PortRangeItem_Match isSource rs c, c)"
| "simple_Match E (PreferredByItem _ os s) c = (PreferredByItem_Match E os s c, c)"
| "simple_Match E (PreferredByDNSItem _ ts) c = (PreferredByDNSItem_Match E ts c, c)"
| "simple_Match E (ProcessItem _ m) c = ProcessItem_Match m c"
| "simple_Match E (ProcessPathItem _ m) c = ProcessPathItem_Match E m c"
| "simple_Match E (ProcessPathRegexItem ms _) c = (ProcessPathRegexItem_Match ms c, c)"
| "simple_Match E (ProtocolItem _ m) c = (ProtocolItem_Match m c, c)"
| "simple_Match E (QueryClientSubnetItem ps) c = (QueryClientSubnetItem_Match ps c, c)"
| "simple_Match E QueryDNSSECItem c = (QueryDNSSECItem_Match c, c)"
| "simple_Match E (QueryTypeItem _ m) c = (QueryTypeItem_Match m c, c)"
| "simple_Match E (DNSResponseRCodeItem rcode) c = (DNSResponseRCodeItem_Match rcode c, c)"
| "simple_Match E (DNSResponseRecordItem _ rs sel) c = (DNSResponseRecordItem_Match E rs sel c, c)"
| "simple_Match E (SourceHostnameItem _ m) c = (SourceHostnameItem_Match m c, c)"
| "simple_Match E (SourceMACAddressItem _ m) c = (SourceMACAddressItem_Match m c, c)"
| "simple_Match E (UserItem _ m) c = (UserItem_Match m c, c)"
| "simple_Match E (UserIdItem _ m) c = (UserIdItem_Match m c, c)"
| "simple_Match E (WIFIBSSIDItem _ m) c = (WIFIBSSIDItem_Match E m, c)"
| "simple_Match E (WIFISSIDItem _ m) c = (WIFISSIDItem_Match E m, c)"
| "simple_Match E (DefaultInterfaceAddressItem mon ps) c =
     (DefaultInterfaceAddressItem_Match E mon ps, c)"
| "simple_Match E (InterfaceAddressItem m _) c = (InterfaceAddressItem_Match E m, c)"
| "simple_Match E (NetworkInterfaceAddressItem m _) c = (NetworkInterfaceAddressItem_Match E m, c)"

primrec simple_String :: "env \<Rightarrow> simple_item \<Rightarrow> string option" where
  "simple_String E (AdGuardDomainItem _ _) = Some AdGuardDomainItem_String"
| "simple_String E (AuthUserItem users _) = Some (AuthUserItem_String users)"
| "simple_String E (IPCIDRItem _ _ description) = Some description"
| "simple_String E (ClashModeItem _ modes) = ClashModeItem_String modes"
| "simple_String E (ClientItem clients _) = Some (ClientItem_String clients)"
| "simple_String E (DNSSearchDomainItem _ _ _ description) = Some description"
| "simple_String E (DNSServerAddressItem _ _ _ description) = Some description"
| "simple_String E (DomainItem _ description _) = Some description"
| "simple_String E (DomainKeywordItem keywords _) = Some (DomainKeywordItem_String keywords)"
| "simple_String E (DomainRegexItem _ description _) = Some description"
| "simple_String E (InboundItem inbounds _) = Some (InboundItem_String inbounds)"
| "simple_String E IPAcceptAnyItem = Some ''ip_accept_any=true''"
| "simple_String E (IPIsPrivateItem isSource) = Some (IPIsPrivateItem_String isSource)"
| "simple_String E (IPVersionItem isIPv6) = Some (IPVersionItem_String isIPv6)"
| "simple_String E (NetworkItem networks _) = Some (NetworkItem_String networks)"
| "simple_String E NetworkIsConstrainedItem = Some NetworkIsConstrainedItem_String"
| "simple_String E NetworkIsExpensiveItem = Some NetworkIsExpensiveItem_String"
| "simple_String E (NetworkTypeItem types) = Some (NetworkTypeItem_String E types)"
| "simple_String E (OutboundItem outbounds _ _) = Some (OutboundItem_String outbounds)"
| "simple_String E (PackageNameItem names _) = Some (PackageNameItem_String names)"
| "simple_String E (PackageNameRegexItem _ description) = Some description"
| "simple_String E (PortItem ports _ isSource) = Some (PortItem_String E ports isSource)"
| "simple_String E (PortRangeItem isSource ranges _) = Some (PortRangeItem_String isSource ranges)"
| "simple_String E (PreferredByItem tags _ _) = Some (PreferredByItem_String tags)"
| "simple_String E (PreferredByDNSItem tags _) = Some (PreferredByDNSItem_String tags)"
| "simple_String E (ProcessItem processes _) = Some (ProcessItem_String processes)"
| "simple_String E (ProcessPathItem processes _) = Some (ProcessPathItem_String processes)"
| "simple_String E (ProcessPathRegexItem _ description) = Some description"
| "simple_String E (ProtocolItem protocols _) = Some (ProtocolItem_String protocols)"
| "simple_String E (QueryClientSubnetItem ps) = Some (QueryClientSubnetItem_String E ps)"
| "simple_String E QueryDNSSECItem = Some ''query_dnssec=true''"
| "simple_String E (QueryTypeItem types _) = Some (QueryTypeItem_String E types)"
| "simple_String E (DNSResponseRCodeItem rcode) = Some (DNSResponseRCodeItem_String E rcode)"
| "simple_String E (DNSResponseRecordItem field rs _) = Some (DNSResponseRecordItem_String E field rs)"
| "simple_String E (SourceHostnameItem hostnames _) = Some (SourceHostnameItem_String hostnames)"
| "simple_String E (SourceMACAddressItem as _) = Some (SourceMACAddressItem_String as)"
| "simple_String E (UserItem users _) = Some (UserItem_String users)"
| "simple_String E (UserIdItem ids _) = Some (UserIdItem_String E ids)"
| "simple_String E (WIFIBSSIDItem bssids _) = Some (WIFIBSSIDItem_String bssids)"
| "simple_String E (WIFISSIDItem ssids _) = Some (WIFISSIDItem_String ssids)"
| "simple_String E (DefaultInterfaceAddressItem _ ps) = Some (DefaultInterfaceAddressItem_String E ps)"
| "simple_String E (InterfaceAddressItem _ description) = Some description"
| "simple_String E (NetworkInterfaceAddressItem _ description) = Some description"

fun simple_Start :: "env \<Rightarrow> simple_item \<Rightarrow> item_error + simple_item" where
  "simple_Start E (ClashModeItem _ modes) = Inr (ClashModeItem_Start E modes)"
| "simple_Start E (DNSSearchDomainItem tags ds ts description) =
     DNSSearchDomainItem_Start E tags ds ts description"
| "simple_Start E (DNSServerAddressItem tags ps ts description) =
     DNSServerAddressItem_Start E tags ps ts description"
| "simple_Start E (PreferredByItem tags os s) = PreferredByItem_Start E tags os s"
| "simple_Start E (PreferredByDNSItem tags ts) = PreferredByDNSItem_Start E tags ts"
| "simple_Start E item = Inr item"

text \<open>Items whose match resolves the process of the connection.\<close>

fun resolves_process :: "simple_item \<Rightarrow> bool" where
  "resolves_process (ProcessItem _ _) = True"
| "resolves_process (ProcessPathItem _ _) = True"
| "resolves_process _ = False"

end
