(* ===== verification/RuleEngine.thy ===== *)
theory RuleEngine
  imports RuleItems
begin

text \<open>
  \<^verbatim>\<open>route/rule/match_state.go\<close>, \<^verbatim>\<open>rule_abstract.go\<close>, \<^verbatim>\<open>rule_item_rule_set.go\<close> and the
  matching half of \<^verbatim>\<open>rule_headless.go\<close>, \<^verbatim>\<open>rule_default.go\<close> and \<^verbatim>\<open>rule_dns.go\<close>: how a
  rule combines its items. An item or rule is matched on the metadata, which
  it may change: \<^verbatim>\<open>Match\<close> is a function from the metadata to the answer and
  the metadata afterwards.
\<close>

section \<open>Match state\<close>

abbreviation ruleMatchSourceAddress :: u8 where "ruleMatchSourceAddress \<equiv> 1"
abbreviation ruleMatchSourcePort :: u8 where "ruleMatchSourcePort \<equiv> 2"
abbreviation ruleMatchDestinationAddress :: u8 where "ruleMatchDestinationAddress \<equiv> 4"
abbreviation ruleMatchDestinationPort :: u8 where "ruleMatchDestinationPort \<equiv> 8"

record ruleGroupMatch =
  required :: u8
  satisfied :: u8

definition noGroups :: ruleGroupMatch where
  "noGroups = \<lparr>required = 0, satisfied = 0\<rparr>"

text \<open>\<open>a &^ b\<close> of the source.\<close>

definition and_not :: "u8 \<Rightarrow> u8 \<Rightarrow> u8" where
  "and_not a b = a AND NOT b"

definition has :: "u8 \<Rightarrow> u8 \<Rightarrow> bool" where
  "has s target \<longleftrightarrow> s AND target \<noteq> 0"

definition groups_done :: "ruleGroupMatch \<Rightarrow> bool" where
  "groups_done g \<longleftrightarrow> and_not (required g) (satisfied g) = 0"

definition mergeWith :: "ruleGroupMatch \<Rightarrow> ruleGroupMatch \<Rightarrow> ruleGroupMatch" where
  "mergeWith g other =
     \<lparr>required = required g OR required other, satisfied = satisfied g OR satisfied other\<rparr>"

record ruleMatchSnapshot =
  snapIPCIDRMatchSource :: bool
  snapIPCIDRAcceptEmpty :: bool
  snapDeferredGroups :: u8

definition snapshotRuleMatch :: "InboundContext \<Rightarrow> ruleMatchSnapshot" where
  "snapshotRuleMatch metadata =
     \<lparr>snapIPCIDRMatchSource = IPCIDRMatchSource metadata,
      snapIPCIDRAcceptEmpty = IPCIDRAcceptEmpty metadata,
      snapDeferredGroups = DeferredIPCIDRMatchGroups metadata\<rparr>"

definition restore :: "ruleMatchSnapshot \<Rightarrow> InboundContext \<Rightarrow> InboundContext" where
  "restore s metadata =
     metadata\<lparr>IPCIDRMatchSource := snapIPCIDRMatchSource s,
              IPCIDRAcceptEmpty := snapIPCIDRAcceptEmpty s,
              DeferredIPCIDRMatchGroups := snapDeferredGroups s\<rparr>"

section \<open>Rules\<close>

type_synonym matcher = "InboundContext \<Rightarrow> bool \<times> InboundContext"

text \<open>
  The lists of \<^verbatim>\<open>abstractDefaultRule\<close>. The rule-set item stands for itself in
  \<open>allItems\<close>: the source keeps one pointer in both places.
\<close>

datatype RuleItem = Item simple_item | TheRuleSetItem

record ruleFields =
  items :: "simple_item list"
  sourceAddressItems :: "simple_item list"
  sourcePortItems :: "simple_item list"
  destinationAddressItems :: "simple_item list"
  destinationIPCIDRItems :: "simple_item list"
  destinationPortItems :: "simple_item list"
  allItems :: "RuleItem list"
  domainMatchStrategy :: DomainMatchStrategy
  ruleCount :: u64

record RuleSetMetadata =
  ContainsProcessRule :: bool
  ContainsProcessPathRule :: bool
  ContainsWIFIRule :: bool
  ContainsIPCIDRRule :: bool
  ContainsDNSQueryTypeRule :: bool
  ContainsNonIPCIDRRule :: bool

text \<open>
  Rules and the rule sets they refer to. A rule set is taken by the rules it
  holds when it is matched. The three default rules differ in their action,
  which matching does not read, and in the response a DNS rule matches.
\<close>

datatype RuleSetItem =
    RuleSetItem (tagList: "string list") (setList: "RuleSet list")
      (ipCidrMatchSource: bool) (ipCidrAcceptEmpty: bool)
and RuleSet =
    RuleSet (setTag: string) (setRules: "HeadlessRule list") (setMetadata: RuleSetMetadata)
and abstractDefaultRule =
    AbstractDefaultRule (defaultFields: ruleFields) (ruleSetItem: "RuleSetItem option") (invert: bool)
and HeadlessRule =
    DefaultHeadlessRule abstractDefaultRule
  | DefaultRule abstractDefaultRule
  | DefaultDNSRule abstractDefaultRule bool string
  | LogicalRule "HeadlessRule list" string bool

section \<open>Items and groups\<close>

fun matchAnyItem :: "env \<Rightarrow> simple_item list \<Rightarrow> matcher" where
  "matchAnyItem E [] metadata = (False, metadata)"
| "matchAnyItem E (item # rest) metadata =
     (case simple_Match E item metadata of
        (True, metadata') \<Rightarrow> (True, metadata')
      | (False, metadata') \<Rightarrow> matchAnyItem E rest metadata')"

text \<open>The loop over \<open>items\<close>, which stops at the first item that does not match.\<close>

fun matchAllItems :: "env \<Rightarrow> simple_item list \<Rightarrow> matcher" where
  "matchAllItems E [] metadata = (True, metadata)"
| "matchAllItems E (item # rest) metadata =
     (case simple_Match E item metadata of
        (True, metadata') \<Rightarrow> matchAllItems E rest metadata'
      | (False, metadata') \<Rightarrow> (False, metadata'))"

definition destinationIPCIDRMatchesSource :: "ruleFields \<Rightarrow> InboundContext \<Rightarrow> bool" where
  "destinationIPCIDRMatchesSource r metadata \<longleftrightarrow>
     IPCIDRMatchSource metadata \<and> destinationIPCIDRItems r \<noteq> []"

definition destinationIPCIDRMatchesDestination :: "ruleFields \<Rightarrow> InboundContext \<Rightarrow> bool" where
  "destinationIPCIDRMatchesDestination r metadata \<longleftrightarrow>
     \<not> IgnoreDestinationIPCIDRMatch metadata \<and> \<not> IPCIDRMatchSource metadata
     \<and> destinationIPCIDRItems r \<noteq> []"

text \<open>
  A block of \<open>evaluateGroups\<close>: under its condition the group is required, and
  it is satisfied if it is already or if some item matches.
\<close>

definition evaluateGroup ::
  "env \<Rightarrow> bool \<Rightarrow> u8 \<Rightarrow> simple_item list \<Rightarrow> ruleGroupMatch \<times> InboundContext
     \<Rightarrow> ruleGroupMatch \<times> InboundContext" where
  "evaluateGroup E cond target items' = (\<lambda>(groups, metadata).
     if \<not> cond then (groups, metadata)
     else
       let groups' = groups\<lparr>required := required groups OR target\<rparr> in
       if has (satisfied groups') target then (groups', metadata)
       else case matchAnyItem E items' metadata of
         (True, metadata') \<Rightarrow> (groups'\<lparr>satisfied := satisfied groups' OR target\<rparr>, metadata')
       | (False, metadata') \<Rightarrow> (groups', metadata'))"

definition deferIPCIDR :: "ruleFields \<Rightarrow> InboundContext \<Rightarrow> InboundContext" where
  "deferIPCIDR r metadata =
     (if IgnoreDestinationIPCIDRMatch metadata \<and> \<not> IPCIDRMatchSource metadata
         \<and> destinationIPCIDRItems r \<noteq> [] \<and> destinationAddressItems r = []
      then metadata\<lparr>DeferredIPCIDRMatchGroups :=
             DeferredIPCIDRMatchGroups metadata OR ruleMatchDestinationAddress\<rparr>
      else metadata)"

definition evaluateGroups ::
  "env \<Rightarrow> ruleFields \<Rightarrow> InboundContext \<Rightarrow> ruleGroupMatch \<times> InboundContext" where
  "evaluateGroups E r metadata0 =
     (let s1 = evaluateGroup E (sourceAddressItems r \<noteq> []) ruleMatchSourceAddress
                 (sourceAddressItems r) (noGroups, metadata0);
          s2 = evaluateGroup E (destinationIPCIDRMatchesSource r (snd s1)) ruleMatchSourceAddress
                 (destinationIPCIDRItems r) s1;
          s3 = evaluateGroup E (sourcePortItems r \<noteq> []) ruleMatchSourcePort
                 (sourcePortItems r) s2;
          s4 = evaluateGroup E (destinationAddressItems r \<noteq> []) ruleMatchDestinationAddress
                 (destinationAddressItems r) s3;
          s5 = evaluateGroup E (destinationIPCIDRMatchesDestination r (snd s4))
                 ruleMatchDestinationAddress (destinationIPCIDRItems r) s4;
          s6 = evaluateGroup E (destinationPortItems r \<noteq> []) ruleMatchDestinationPort
                 (destinationPortItems r) s5
      in (fst s6, deferIPCIDR r (snd s6)))"

definition evaluateForMerge ::
  "env \<Rightarrow> ruleFields \<Rightarrow> InboundContext \<Rightarrow> ruleGroupMatch option \<times> InboundContext" where
  "evaluateForMerge E r metadata =
     (let (groups, metadata1) = evaluateGroups E r metadata in
      case matchAllItems E (items r) metadata1 of
        (False, metadata2) \<Rightarrow> (None, metadata2)
      | (True, metadata2) \<Rightarrow> (Some groups, metadata2))"

section \<open>Rule sets\<close>

text \<open>\<^verbatim>\<open>mergeableRuleIn\<close>: the only rule of a set, where its groups may be merged.\<close>

fun mergeableRuleIn :: "HeadlessRule list \<Rightarrow> ruleFields option" where
  "mergeableRuleIn [DefaultHeadlessRule rule] =
     (if invert rule \<or> ruleSetItem rule \<noteq> None then None else Some (defaultFields rule))"
| "mergeableRuleIn _ = None"

definition mergeableRule :: "RuleSet \<Rightarrow> ruleFields option" where
  "mergeableRule s = mergeableRuleIn (setRules s)"

definition prepareNestedMatch :: "bool \<Rightarrow> bool \<Rightarrow> InboundContext \<Rightarrow> InboundContext" where
  "prepareNestedMatch matchSource acceptEmpty metadata =
     (ResetRuleMatchCache metadata)\<lparr>IPCIDRMatchSource := matchSource, IPCIDRAcceptEmpty := acceptEmpty\<rparr>"

text \<open>
  The loops over rules and rule sets take them by their \<^verbatim>\<open>Match\<close> methods, and
  carry the snapshot, \<open>matched\<close> and \<open>deferredGroups\<close> of the source.
\<close>

definition leave :: "ruleMatchSnapshot \<Rightarrow> bool \<Rightarrow> u8 \<Rightarrow> InboundContext \<Rightarrow> InboundContext" where
  "leave snapshot matched deferredGroups metadata =
     (let metadata' = restore snapshot metadata in
      if matched then metadata'\<lparr>DeferredIPCIDRMatchGroups :=
          DeferredIPCIDRMatchGroups metadata' OR deferredGroups\<rparr>
      else metadata')"

fun anyHeadlessLoop :: "matcher list \<Rightarrow> ruleMatchSnapshot \<Rightarrow> bool \<Rightarrow> u8 \<Rightarrow> matcher" where
  "anyHeadlessLoop [] snapshot matched deferredGroups metadata =
     (matched, leave snapshot matched deferredGroups metadata)"
| "anyHeadlessLoop (rule # rest) snapshot matched deferredGroups metadata =
     (case rule (ResetRuleMatchCache metadata) of
        (True, metadata') \<Rightarrow>
          if DeferredIPCIDRMatchGroups metadata' = 0 then (True, restore snapshot metadata')
          else anyHeadlessLoop rest snapshot True
                 (deferredGroups OR DeferredIPCIDRMatchGroups metadata') metadata'
      | (False, metadata') \<Rightarrow> anyHeadlessLoop rest snapshot matched deferredGroups metadata')"

definition matchAnyHeadlessRule :: "matcher list \<Rightarrow> matcher" where
  "matchAnyHeadlessRule rules metadata =
     anyHeadlessLoop rules (snapshotRuleMatch metadata) False 0 metadata"

fun outerGroupsLoop ::
  "env \<Rightarrow> bool \<Rightarrow> bool \<Rightarrow> ruleGroupMatch \<Rightarrow> (matcher \<times> ruleFields option) list
     \<Rightarrow> ruleMatchSnapshot \<Rightarrow> bool \<Rightarrow> u8 \<Rightarrow> matcher" where
  "outerGroupsLoop E matchSource acceptEmpty outerGroups [] snapshot matched deferredGroups metadata =
     (matched, leave snapshot matched deferredGroups metadata)"
| "outerGroupsLoop E matchSource acceptEmpty outerGroups ((ruleSetMatch, mergeable) # rest)
     snapshot matched deferredGroups metadata =
     (let metadata1 = prepareNestedMatch matchSource acceptEmpty metadata in
      case mergeable of
        Some branch \<Rightarrow>
          (case evaluateForMerge E branch metadata1 of
             (Some branchGroups, metadata2) \<Rightarrow>
               let merged = mergeWith outerGroups branchGroups in
               if groups_done merged then
                 let branchDeferredGroups =
                       and_not (DeferredIPCIDRMatchGroups metadata2) (satisfied merged) in
                 if branchDeferredGroups = 0 then
                   (True, (restore snapshot metadata2)\<lparr>DeferredIPCIDRMatchGroups :=
                      and_not (snapDeferredGroups snapshot) (satisfied merged)\<rparr>)
                 else outerGroupsLoop E matchSource acceptEmpty outerGroups rest snapshot True
                        (deferredGroups OR branchDeferredGroups) metadata2
               else outerGroupsLoop E matchSource acceptEmpty outerGroups rest snapshot matched
                      deferredGroups metadata2
           | (None, metadata2) \<Rightarrow>
               outerGroupsLoop E matchSource acceptEmpty outerGroups rest snapshot matched
                 deferredGroups metadata2)
      | None \<Rightarrow>
          if \<not> groups_done outerGroups then
            outerGroupsLoop E matchSource acceptEmpty outerGroups rest snapshot matched
              deferredGroups metadata1
          else case ruleSetMatch metadata1 of
            (True, metadata2) \<Rightarrow>
              if DeferredIPCIDRMatchGroups metadata2 = 0 then (True, restore snapshot metadata2)
              else outerGroupsLoop E matchSource acceptEmpty outerGroups rest snapshot True
                     (deferredGroups OR DeferredIPCIDRMatchGroups metadata2) metadata2
          | (False, metadata2) \<Rightarrow>
              outerGroupsLoop E matchSource acceptEmpty outerGroups rest snapshot matched
                deferredGroups metadata2)"

definition matchWithOuterGroups ::
  "env \<Rightarrow> bool \<Rightarrow> bool \<Rightarrow> (matcher \<times> ruleFields option) list \<Rightarrow> ruleGroupMatch \<Rightarrow> matcher" where
  "matchWithOuterGroups E matchSource acceptEmpty sets outerGroups metadata =
     outerGroupsLoop E matchSource acceptEmpty outerGroups sets
       (snapshotRuleMatch metadata) False 0 metadata"

text \<open>\<^verbatim>\<open>RuleSetItem.Match\<close>, the item on its own, without groups to merge.\<close>

fun ruleSetItemLoop :: "bool \<Rightarrow> bool \<Rightarrow> matcher list \<Rightarrow> ruleMatchSnapshot \<Rightarrow> matcher" where
  "ruleSetItemLoop matchSource acceptEmpty [] snapshot metadata = (False, restore snapshot metadata)"
| "ruleSetItemLoop matchSource acceptEmpty (ruleSetMatch # rest) snapshot metadata =
     (case ruleSetMatch (prepareNestedMatch matchSource acceptEmpty metadata) of
        (True, metadata') \<Rightarrow> (True, restore snapshot metadata')
      | (False, metadata') \<Rightarrow> ruleSetItemLoop matchSource acceptEmpty rest snapshot metadata')"

section \<open>Matching a rule\<close>

definition matchInner ::
  "env \<Rightarrow> ruleFields \<Rightarrow> (ruleGroupMatch \<Rightarrow> matcher) option \<Rightarrow> matcher" where
  "matchInner E r ruleSetItemMatch metadata =
     (let (groups, metadata1) = evaluateGroups E r metadata in
      case matchAllItems E (items r) metadata1 of
        (False, metadata2) \<Rightarrow> (False, metadata2)
      | (True, metadata2) \<Rightarrow>
          (case (case ruleSetItemMatch of
                   Some matchOuter \<Rightarrow> matchOuter groups metadata2
                 | None \<Rightarrow> (groups_done groups, metadata2)) of
             (True, metadata3) \<Rightarrow>
               (True, metadata3\<lparr>DeferredIPCIDRMatchGroups :=
                  and_not (DeferredIPCIDRMatchGroups metadata3) (satisfied groups)\<rparr>)
           | (False, metadata3) \<Rightarrow> (False, metadata3)))"

definition defaultRuleMatch ::
  "env \<Rightarrow> ruleFields \<Rightarrow> (ruleGroupMatch \<Rightarrow> matcher) option \<Rightarrow> bool \<Rightarrow> matcher" where
  "defaultRuleMatch E r ruleSetItemMatch inverted metadata =
     (if allItems r = [] then (True, metadata)
      else case matchInner E r ruleSetItemMatch metadata of
        (matched, metadata') \<Rightarrow>
          if inverted then
            (if \<not> matched then (True, metadata'\<lparr>DeferredIPCIDRMatchGroups := 0\<rparr>)
             else (DeferredIPCIDRMatchGroups metadata' \<noteq> 0, metadata'))
          else (matched, metadata'))"

fun logicalAndLoop :: "matcher list \<Rightarrow> u8 \<Rightarrow> InboundContext \<Rightarrow> bool \<times> u8 \<times> InboundContext" where
  "logicalAndLoop [] deferredGroups metadata = (True, deferredGroups, metadata)"
| "logicalAndLoop (rule # rest) deferredGroups metadata =
     (case rule (ResetRuleCache metadata) of
        (False, metadata') \<Rightarrow> (False, 0, metadata')
      | (True, metadata') \<Rightarrow>
          logicalAndLoop rest (deferredGroups OR DeferredIPCIDRMatchGroups metadata') metadata')"

fun logicalOrLoop ::
  "matcher list \<Rightarrow> bool \<Rightarrow> u8 \<Rightarrow> InboundContext \<Rightarrow> bool \<times> u8 \<times> InboundContext" where
  "logicalOrLoop [] matched deferredGroups metadata = (matched, deferredGroups, metadata)"
| "logicalOrLoop (rule # rest) matched deferredGroups metadata =
     (case rule (ResetRuleCache metadata) of
        (True, metadata') \<Rightarrow>
          if DeferredIPCIDRMatchGroups metadata' = 0 then (True, 0, metadata')
          else logicalOrLoop rest True (deferredGroups OR DeferredIPCIDRMatchGroups metadata') metadata'
      | (False, metadata') \<Rightarrow> logicalOrLoop rest matched deferredGroups metadata')"

definition logicalRuleMatch :: "matcher list \<Rightarrow> string \<Rightarrow> bool \<Rightarrow> matcher" where
  "logicalRuleMatch rules mode inverted metadata =
     (let (matched, deferredGroups, metadata') =
            (if mode = ''and'' then logicalAndLoop rules 0 metadata
             else logicalOrLoop rules False 0 metadata);
          metadata'' = leave (snapshotRuleMatch metadata) matched deferredGroups metadata'
      in (if inverted then \<not> matched \<or> deferredGroups \<noteq> 0 else matched, metadata''))"

text \<open>
  \<^verbatim>\<open>DefaultDNSRule.matchForMatch\<close>: a rule on a response matches a copy of the
  metadata, with the response it names in place.
\<close>

definition matchForMatch :: "matcher \<Rightarrow> bool \<Rightarrow> bool \<Rightarrow> string \<Rightarrow> matcher" where
  "matchForMatch abstractMatch inverted matchResponse matchResponseTag metadata =
     (if matchResponse then
        (case (if matchResponseTag \<noteq> [] then NamedDNSResponses metadata matchResponseTag
               else DNSResponse metadata) of
           None \<Rightarrow> (inverted, metadata)
         | Some response \<Rightarrow>
             (fst (abstractMatch (metadata\<lparr>DNSResponse := Some response,
                     DestinationAddressMatchFromResponse := True\<rparr>)), metadata))
      else abstractMatch metadata)"

primrec Rule_Match :: "env \<Rightarrow> HeadlessRule \<Rightarrow> matcher"
  and DefaultRule_Match :: "env \<Rightarrow> abstractDefaultRule \<Rightarrow> matcher"
  and RuleSet_Match :: "env \<Rightarrow> RuleSet \<Rightarrow> matcher"
  and RuleSetItem_matchWithOuterGroups :: "env \<Rightarrow> RuleSetItem \<Rightarrow> ruleGroupMatch \<Rightarrow> matcher" where
  "Rule_Match E (DefaultHeadlessRule r) = DefaultRule_Match E r"
| "Rule_Match E (DefaultRule r) = DefaultRule_Match E r"
| "Rule_Match E (DefaultDNSRule r matchResponse matchResponseTag) =
     matchForMatch (DefaultRule_Match E r) (invert r) matchResponse matchResponseTag"
| "Rule_Match E (LogicalRule rules mode inverted) =
     logicalRuleMatch (map (Rule_Match E) rules) mode inverted"
| "DefaultRule_Match E (AbstractDefaultRule r setItem inverted) =
     defaultRuleMatch E r (map_option (RuleSetItem_matchWithOuterGroups E) setItem) inverted"
| "RuleSet_Match E (RuleSet tag rules md) = matchAnyHeadlessRule (map (Rule_Match E) rules)"
| "RuleSetItem_matchWithOuterGroups E (RuleSetItem tags sets matchSource acceptEmpty) =
     matchWithOuterGroups E matchSource acceptEmpty
       (map (\<lambda>s. (RuleSet_Match E s, mergeableRule s)) sets)"

definition RuleSetItem_Match :: "env \<Rightarrow> RuleSetItem \<Rightarrow> matcher" where
  "RuleSetItem_Match E r metadata =
     ruleSetItemLoop (ipCidrMatchSource r) (ipCidrAcceptEmpty r) (map (RuleSet_Match E) (setList r))
       (snapshotRuleMatch metadata) metadata"

definition ContainsDestinationIPCIDRRule :: "RuleSetItem \<Rightarrow> bool" where
  "ContainsDestinationIPCIDRRule r =
     (if ipCidrMatchSource r then False
      else list_ex (\<lambda>s. ContainsIPCIDRRule (setMetadata s)) (setList r))"

end
