(* ===== verification/RuleActions.thy ===== *)
theory RuleActions
  imports RuleContext
begin

text \<open>
  \<^verbatim>\<open>route/rule/rule_action.go\<close>, with the options it is built from
  (\<^verbatim>\<open>option/rule_action.go\<close>) and \<^verbatim>\<open>common/tlsspoof/spoof.go\<close>'s option parsing: what a
  rule does once it matches. Durations are counted in nanoseconds.
\<close>

section \<open>Options\<close>

datatype DomainStrategy =
    DomainStrategyAsIS | DomainStrategyPreferIPv4 | DomainStrategyPreferIPv6
  | DomainStrategyIPv4Only | DomainStrategyIPv6Only

record RawRouteOptionsActionOptions =
  oOverrideAddress :: string
  oOverridePort :: u16
  oNetworkStrategy :: "NetworkStrategyT option"
  oFallbackDelay :: u32
  oUDPDisableDomainUnmapping :: bool
  oUDPConnect :: bool
  oUDPTimeout :: int
  oTLSFragment :: bool
  oTLSFragmentFallbackDelay :: int
  oTLSRecordFragment :: bool
  oTLSSpoof :: string
  oTLSSpoofMethod :: string

record AbstractDNSRouteActionOptions =
  oTimeout :: int
  oStrategy :: DomainStrategy
  oDisableCache :: bool
  oDisableOptimisticCache :: bool
  oRewriteTTL :: "u32 option"
  oClientSubnet :: "Prefix option"
  oRemoveClientSubnet :: bool

record RouteActionResolveOptions =
  oResolveServer :: string
  oResolveTimeout :: int
  oResolveStrategy :: DomainStrategy
  oResolveDisableCache :: bool
  oResolveDisableOptimisticCache :: bool
  oResolveRewriteTTL :: "u32 option"
  oResolveClientSubnet :: "Prefix option"
  oMatchOnly :: bool

text \<open>
  The option structs carry one field per action and a discriminating string;
  here a constructor per value of the string, with the fields read for it.
  The zero value, with an empty string, is \<open>NoActionOptions\<close>.
\<close>

datatype RuleActionOptions =
    NoActionOptions
  | RouteOptions string RawRouteOptionsActionOptions
  | RouteOptionsOptions RawRouteOptionsActionOptions
  | BypassOptions string RawRouteOptionsActionOptions
  | DirectOptions "string list"
  | RejectOptions string bool
  | HijackDNSOptions
  | SniffOptions "string list" int
  | SniffOverrideDestinationOptions
  | ResolveOptions RouteActionResolveOptions
  | UnknownActionOptions string

datatype DNSRuleActionOptions =
    NoDNSActionOptions
  | DNSRouteOptions string bool AbstractDNSRouteActionOptions
  | DNSEvaluateOptions string string bool AbstractDNSRouteActionOptions
  | DNSRespondOptions
  | DNSRouteOptionsOptions AbstractDNSRouteActionOptions
  | DNSRejectOptions "int option" string bool
  | DNSPredefinedOptions "int option" "RR list" "RR list" "RR list"
  | UnknownDNSActionOptions string

section \<open>Actions\<close>

record RuleActionRouteOptionsT =
  aOverrideAddress :: Socksaddr
  aOverridePort :: u16
  aNetworkStrategy :: "NetworkStrategyT option"
  aNetworkType :: "InterfaceType list"
  aFallbackNetworkType :: "InterfaceType list"
  aFallbackDelay :: int
  aUDPDisableDomainUnmapping :: bool
  aUDPConnect :: bool
  aUDPTimeout :: int
  aTLSFragment :: bool
  aTLSFragmentFallbackDelay :: int
  aTLSRecordFragment :: bool
  aTLSSpoof :: string
  aTLSSpoofMethod :: SpoofMethod

record RuleActionDNSRouteOptionsT =
  aStrategy :: DomainStrategy
  aTimeout :: int
  aDisableCache :: bool
  aDisableOptimisticCache :: bool
  aRewriteTTL :: "u32 option"
  aClientSubnet :: Prefix
  aRemoveClientSubnet :: bool

record RuleActionResolveT =
  aResolveServer :: string
  aResolveTimeout :: int
  aResolveStrategy :: DomainStrategy
  aResolveDisableCache :: bool
  aResolveDisableOptimisticCache :: bool
  aResolveRewriteTTL :: "u32 option"
  aResolveClientSubnet :: Prefix
  aMatchOnly :: bool

record RuleActionRejectT =
  rejectRcode :: int
  rejectMethod :: string
  rejectNoDrop :: bool
  dropCounter :: "int list"

datatype StreamSniffer =
  TLSClientHello | HTTPHost | StreamDomainNameQuery | BitTorrent | SSH | RDP

datatype PacketSniffer =
    QUICClientHello | QUICShortHeader | DomainNameQuery | STUNMessage | UTP | UDPTracker
  | DTLSRecord | NTP

datatype RuleAction =
    RuleActionRoute string RuleActionRouteOptionsT
  | RuleActionRouteOptions RuleActionRouteOptionsT
  | RuleActionBypass string RuleActionRouteOptionsT
  | RuleActionDirect string
  | RuleActionReject RuleActionRejectT
  | RuleActionHijackDNS
  | RuleActionSniff "string list" "StreamSniffer list" "PacketSniffer list" int
  | RuleActionSniffOverrideDestination
  | RuleActionResolve RuleActionResolveT
  | RuleActionDNSRoute string bool RuleActionDNSRouteOptionsT
  | RuleActionEvaluate string string bool RuleActionDNSRouteOptionsT
  | RuleActionRespond
  | RuleActionDNSRouteOptions RuleActionDNSRouteOptionsT
  | RuleActionPredefined int "RR list" "RR list" "RR list"

datatype action_error =
    SpoofMethodRequiresSpoof | SpoofNotSupported | UnknownSpoofMethod string
  | DialerError | UnknownSniffer string

fun RuleAction_Type :: "RuleAction \<Rightarrow> string" where
  "RuleAction_Type (RuleActionRoute _ _) = ''route''"
| "RuleAction_Type (RuleActionRouteOptions _) = ''route-options''"
| "RuleAction_Type (RuleActionBypass _ _) = ''bypass''"
| "RuleAction_Type (RuleActionDirect _) = ''direct''"
| "RuleAction_Type (RuleActionReject _) = ''reject''"
| "RuleAction_Type RuleActionHijackDNS = ''hijack-dns''"
| "RuleAction_Type (RuleActionSniff _ _ _ _) = ''sniff''"
| "RuleAction_Type RuleActionSniffOverrideDestination = ''sniff-override-destination''"
| "RuleAction_Type (RuleActionResolve _) = ''resolve''"
| "RuleAction_Type (RuleActionDNSRoute _ _ _) = ''route''"
| "RuleAction_Type (RuleActionEvaluate _ _ _ _) = ''evaluate''"
| "RuleAction_Type RuleActionRespond = ''respond''"
| "RuleAction_Type (RuleActionDNSRouteOptions _) = ''route-options''"
| "RuleAction_Type (RuleActionPredefined _ _ _ _) = ''predefined''"

section \<open>Building actions\<close>

definition ParseMethod :: "string \<Rightarrow> action_error + SpoofMethod" where
  "ParseMethod s =
     (if s = [] \<or> s = ''wrong-sequence'' then Inr MethodWrongSequence
      else if s = ''wrong-checksum'' then Inr MethodWrongChecksum
      else if s = ''wrong-ack'' then Inr MethodWrongAcknowledgment
      else if s = ''wrong-md5'' then Inr MethodWrongMD5Sig
      else if s = ''wrong-timestamp'' then Inr MethodWrongTimestamp
      else Inl (UnknownSpoofMethod s))"

fun SpoofMethod_String :: "SpoofMethod \<Rightarrow> string" where
  "SpoofMethod_String MethodWrongSequence = ''wrong-sequence''"
| "SpoofMethod_String MethodWrongChecksum = ''wrong-checksum''"
| "SpoofMethod_String MethodWrongAcknowledgment = ''wrong-ack''"
| "SpoofMethod_String MethodWrongMD5Sig = ''wrong-md5''"
| "SpoofMethod_String MethodWrongTimestamp = ''wrong-timestamp''"

definition ParseOptions :: "env \<Rightarrow> string \<Rightarrow> string \<Rightarrow> action_error + (string \<times> SpoofMethod)" where
  "ParseOptions E spoof method =
     (if spoof = [] then
        (if method \<noteq> [] then Inl SpoofMethodRequiresSpoof else Inr ([], MethodWrongSequence))
      else if \<not> SpoofPlatformSupported E then Inl SpoofNotSupported
      else map_sum id (Pair spoof) (ParseMethod method))"

definition newRuleActionRouteOptions ::
  "env \<Rightarrow> RawRouteOptionsActionOptions \<Rightarrow> action_error + RuleActionRouteOptionsT" where
  "newRuleActionRouteOptions E options =
     map_sum id (\<lambda>(spoof, spoofMethod).
       \<lparr>aOverrideAddress = ParseSocksaddrHostPort E (oOverrideAddress options) 0,
        aOverridePort = oOverridePort options,
        aNetworkStrategy = oNetworkStrategy options,
        aNetworkType = [],
        aFallbackNetworkType = [],
        aFallbackDelay = uint (oFallbackDelay options),
        aUDPDisableDomainUnmapping = oUDPDisableDomainUnmapping options,
        aUDPConnect = oUDPConnect options,
        aUDPTimeout = oUDPTimeout options,
        aTLSFragment = oTLSFragment options,
        aTLSFragmentFallbackDelay = oTLSFragmentFallbackDelay options,
        aTLSRecordFragment = oTLSRecordFragment options,
        aTLSSpoof = spoof,
        aTLSSpoofMethod = spoofMethod\<rparr>)
       (ParseOptions E (oTLSSpoof options) (oTLSSpoofMethod options))"

text \<open>\<^verbatim>\<open>RuleActionSniff.build\<close>: the sniffers of each name, stopping at an unknown one.\<close>

definition snifferOf :: "string \<Rightarrow> (StreamSniffer list \<times> PacketSniffer list) option" where
  "snifferOf name =
     (if name = ''tls'' then Some ([TLSClientHello], [])
      else if name = ''http'' then Some ([HTTPHost], [])
      else if name = ''quic'' then Some ([], [QUICClientHello, QUICShortHeader])
      else if name = ''dns'' then Some ([StreamDomainNameQuery], [DomainNameQuery])
      else if name = ''stun'' then Some ([], [STUNMessage])
      else if name = ''bittorrent'' then Some ([BitTorrent], [UTP, UDPTracker])
      else if name = ''dtls'' then Some ([], [DTLSRecord])
      else if name = ''ssh'' then Some ([SSH], [])
      else if name = ''rdp'' then Some ([RDP], [])
      else if name = ''ntp'' then Some ([], [NTP])
      else None)"

fun sniff_build ::
  "string list \<Rightarrow> StreamSniffer list \<Rightarrow> PacketSniffer list
     \<Rightarrow> action_error + (StreamSniffer list \<times> PacketSniffer list)" where
  "sniff_build [] streams packets = Inr (streams, packets)"
| "sniff_build (name # rest) streams packets =
     (case snifferOf name of
        None \<Rightarrow> Inl (UnknownSniffer name)
      | Some (ss, ps) \<Rightarrow> sniff_build rest (streams @ ss) (packets @ ps))"

definition directDescription :: "string list \<Rightarrow> string" where
  "directDescription descriptions =
     (case descriptions of
        [] \<Rightarrow> []
      | [a] \<Rightarrow> ''('' @ a @ '')''
      | [a, b] \<Rightarrow> ''('' @ a @ '','' @ b @ '')''
      | a # b # _ \<Rightarrow> ''('' @ a @ '','' @ b @ '',...)'')"

definition ResolveAction :: "RouteActionResolveOptions \<Rightarrow> RuleActionResolveT" where
  "ResolveAction o' =
     \<lparr>aResolveServer = oResolveServer o', aResolveTimeout = oResolveTimeout o',
      aResolveStrategy = oResolveStrategy o', aResolveDisableCache = oResolveDisableCache o',
      aResolveDisableOptimisticCache = oResolveDisableOptimisticCache o',
      aResolveRewriteTTL = oResolveRewriteTTL o',
      aResolveClientSubnet = (case oResolveClientSubnet o' of Some p \<Rightarrow> p | None \<Rightarrow> PrefixZero),
      aMatchOnly = oMatchOnly o'\<rparr>"

text \<open>
  \<^verbatim>\<open>NewRuleAction\<close>. The outer \<open>None\<close> is the panic on an unknown action, the inner
  one the nil action of a nested rule.
\<close>

definition NewRuleAction ::
  "env \<Rightarrow> RuleActionOptions \<Rightarrow> (action_error + RuleAction option) option" where
  "NewRuleAction E action =
     (case action of
        NoActionOptions \<Rightarrow> Some (Inr None)
      | RouteOptions outbound o' \<Rightarrow>
          Some (map_sum id (\<lambda>r. Some (RuleActionRoute outbound r)) (newRuleActionRouteOptions E o'))
      | RouteOptionsOptions o' \<Rightarrow>
          Some (map_sum id (\<lambda>r. Some (RuleActionRouteOptions r)) (newRuleActionRouteOptions E o'))
      | BypassOptions outbound o' \<Rightarrow>
          Some (map_sum id (\<lambda>r. Some (RuleActionBypass outbound r)) (newRuleActionRouteOptions E o'))
      | DirectOptions descriptions \<Rightarrow>
          Some (if \<not> NewDialerOk E descriptions then Inl DialerError
                else Inr (Some (RuleActionDirect (directDescription descriptions))))
      | RejectOptions method noDrop \<Rightarrow>
          Some (Inr (Some (RuleActionReject
            \<lparr>rejectRcode = 0, rejectMethod = method, rejectNoDrop = noDrop, dropCounter = []\<rparr>)))
      | HijackDNSOptions \<Rightarrow> Some (Inr (Some RuleActionHijackDNS))
      | SniffOptions names timeout \<Rightarrow>
          Some (map_sum id (\<lambda>(ss, ps). Some (RuleActionSniff names ss ps timeout))
                  (sniff_build names [] []))
      | SniffOverrideDestinationOptions \<Rightarrow> Some (Inr (Some RuleActionSniffOverrideDestination))
      | ResolveOptions o' \<Rightarrow> Some (Inr (Some (RuleActionResolve (ResolveAction o'))))
      | UnknownActionOptions _ \<Rightarrow> None)"

definition DNSRouteOptionsAction ::
  "AbstractDNSRouteActionOptions \<Rightarrow> RuleActionDNSRouteOptionsT" where
  "DNSRouteOptionsAction o' =
     \<lparr>aStrategy = oStrategy o', aTimeout = oTimeout o', aDisableCache = oDisableCache o',
      aDisableOptimisticCache = oDisableOptimisticCache o', aRewriteTTL = oRewriteTTL o',
      aClientSubnet = (case oClientSubnet o' of Some p \<Rightarrow> p | None \<Rightarrow> PrefixZero),
      aRemoveClientSubnet = oRemoveClientSubnet o'\<rparr>"

definition NewDNSRuleAction :: "DNSRuleActionOptions \<Rightarrow> RuleAction option option" where
  "NewDNSRuleAction action =
     (case action of
        NoDNSActionOptions \<Rightarrow> Some None
      | DNSRouteOptions server speculative o' \<Rightarrow>
          Some (Some (RuleActionDNSRoute server speculative (DNSRouteOptionsAction o')))
      | DNSEvaluateOptions server tag speculative o' \<Rightarrow>
          Some (Some (RuleActionEvaluate server tag speculative (DNSRouteOptionsAction o')))
      | DNSRespondOptions \<Rightarrow> Some (Some RuleActionRespond)
      | DNSRouteOptionsOptions o' \<Rightarrow>
          Some (Some (RuleActionDNSRouteOptions (DNSRouteOptionsAction o')))
      | DNSRejectOptions rcode method noDrop \<Rightarrow>
          Some (Some (RuleActionReject
            \<lparr>rejectRcode = (case rcode of Some r \<Rightarrow> r | None \<Rightarrow> -1), rejectMethod = method,
             rejectNoDrop = noDrop, dropCounter = []\<rparr>))
      | DNSPredefinedOptions rcode answer ns extra \<Rightarrow>
          Some (Some (RuleActionPredefined (case rcode of Some r \<Rightarrow> r | None \<Rightarrow> RcodeSuccess)
            answer ns extra))
      | UnknownDNSActionOptions _ \<Rightarrow> None)"

section \<open>Rejecting\<close>

datatype reject_error = RejectedReset | RejectedDrop

text \<open>
  \<^verbatim>\<open>RuleActionReject.Error\<close> at the time \<open>now\<close>: the error (\<open>None\<close> for a reply) and the
  action with its counter of recent rejections; a panic on an unknown method
  is the outer \<open>None\<close>.
\<close>

definition rejectWindow :: int where
  "rejectWindow = 30 * 1000000000"

definition RuleActionReject_Error ::
  "RuleActionRejectT \<Rightarrow> int \<Rightarrow> (reject_error option \<times> RuleActionRejectT) option" where
  "RuleActionReject_Error r now =
     (if rejectMethod r = ''default'' then
        (if rejectNoDrop r then Some (Some RejectedReset, r)
         else
           let counter = filter (\<lambda>t. now - t \<le> rejectWindow) (dropCounter r) @ [now];
               r' = r\<lparr>dropCounter := counter\<rparr>
           in if length counter > 50 then Some (Some RejectedDrop, r')
              else Some (Some RejectedReset, r'))
      else if rejectMethod r = ''drop'' then Some (Some RejectedDrop, r)
      else if rejectMethod r = ''reply'' then Some (None, r)
      else None)"

section \<open>Predefined answers\<close>

definition rewriteRecord :: "DNSQuestion \<Rightarrow> RR \<Rightarrow> RR" where
  "rewriteRecord question it =
     (if HasPrefix (RRName it) ''*'' \<and> HasSuffix (QName question) (drop 1 (RRName it))
      then it\<lparr>RRName := QName question\<rparr> else it)"

definition rewriteRecords :: "RR list \<Rightarrow> DNSQuestion \<Rightarrow> RR list" where
  "rewriteRecords records question = map (rewriteRecord question) records"

text \<open>A request without a question panics: \<open>None\<close>.\<close>

definition RuleActionPredefined_Response ::
  "int \<Rightarrow> RR list \<Rightarrow> RR list \<Rightarrow> RR list \<Rightarrow> Msg \<Rightarrow> Msg option" where
  "RuleActionPredefined_Response rcode answer ns extra request =
     (case Questions request of
        [] \<Rightarrow> None
      | question # _ \<Rightarrow>
          Some \<lparr>MsgId = MsgId request, IsResponse = True, Authoritative = True,
            RecursionDesired = True, RecursionAvailable = True, Rcode = rcode,
            Questions = Questions request, Answer = rewriteRecords answer question,
            Ns = rewriteRecords ns question, Extra = rewriteRecords extra question\<rparr>)"

section \<open>Properties\<close>

text \<open>The answers of one reject action to a sequence of connections, by their times.\<close>

fun rejectAll :: "RuleActionRejectT \<Rightarrow> int list \<Rightarrow> reject_error option list option" where
  "rejectAll r [] = Some []"
| "rejectAll r (now # rest) =
     (case RuleActionReject_Error r now of
        None \<Rightarrow> None
      | Some (err, r') \<Rightarrow> map_option ((#) err) (rejectAll r' rest))"

definition recent :: "int \<Rightarrow> int list \<Rightarrow> nat" where
  "recent now ts = length (filter (\<lambda>t. now - t \<le> rejectWindow) ts)"

lemma filter_recent_later:
  "n \<le> n' \<Longrightarrow> filter (\<lambda>t. n' - t \<le> rejectWindow) (filter (\<lambda>t. n - t \<le> rejectWindow) ts)
     = filter (\<lambda>t. n' - t \<le> rejectWindow) ts"
  by (induction ts) auto

lemma rejectAll_history:
  assumes "rejectMethod r = ''default''" "\<not> rejectNoDrop r" "sorted ts"
    and "\<And>n. ts \<noteq> [] \<Longrightarrow> hd ts \<le> n \<Longrightarrow>
      filter (\<lambda>t. n - t \<le> rejectWindow) (dropCounter r) = filter (\<lambda>t. n - t \<le> rejectWindow) hs"
  shows "rejectAll r ts = Some (map (\<lambda>k.
    Some (if recent (ts ! k) (hs @ take (Suc k) ts) > 50 then RejectedDrop else RejectedReset)) [0..<length ts])"
  using assms
proof (induction ts arbitrary: r hs)
  case (Cons now ts)
  define counter where "counter = filter (\<lambda>t. now - t \<le> rejectWindow) (dropCounter r) @ [now]"
  define r' where "r' = r\<lparr>dropCounter := counter\<rparr>"
  have now: "now - now \<le> rejectWindow" by (simp add: rejectWindow_def)
  have counter: "counter = filter (\<lambda>t. now - t \<le> rejectWindow) (hs @ [now])"
    using Cons.prems(4) [of now] now by (simp add: counter_def)
  have step: "RuleActionReject_Error r now =
      Some (Some (if recent now (hs @ [now]) > 50 then RejectedDrop else RejectedReset), r')"
    using Cons.prems(1,2) unfolding counter_def [symmetric] r'_def recent_def counter [symmetric]
    by (simp add: RuleActionReject_Error_def Let_def counter_def)
  have "filter (\<lambda>t. n - t \<le> rejectWindow) (dropCounter r') = filter (\<lambda>t. n - t \<le> rejectWindow) (hs @ [now])"
    if "ts \<noteq> []" "hd ts \<le> n" for n
    using that Cons.prems(3) filter_recent_later [of now n "hs @ [now]"]
    by (cases ts) (auto simp: r'_def counter)
  then have "rejectAll r' ts = Some (map (\<lambda>k. Some (if recent (ts ! k) ((hs @ [now]) @ take (Suc k) ts) > 50
      then RejectedDrop else RejectedReset)) [0..<length ts])"
    using Cons.prems by (intro Cons.IH) (simp_all add: r'_def)
  then show ?case
    by (simp add: step map_upt_Suc del: upt_Suc)
qed simp

text \<open>
  C5. A reject action with method \<^verbatim>\<open>default\<close> answers a reset until it has
  rejected more than fifty connections in the last thirty seconds, and drops
  from then on: the answer to each connection of a sequence in time order is
  decided by the number of connections in the window that ends with it.
\<close>

theorem reject_flood:
  assumes "rejectMethod r = ''default''" "\<not> rejectNoDrop r" "dropCounter r = []" "sorted ts"
  shows "rejectAll r ts = Some (map (\<lambda>k.
    Some (if recent (ts ! k) (take (Suc k) ts) > 50 then RejectedDrop else RejectedReset)) [0..<length ts])"
  using rejectAll_history [of r ts "[]"] assms by simp

theorem reject_flood_witness:
  "rejectAll \<lparr>rejectRcode = 0, rejectMethod = ''default'', rejectNoDrop = False, dropCounter = []\<rparr>
     (replicate 51 0) = Some (replicate 50 (Some RejectedReset) @ [Some RejectedDrop])"
proof -
  have take: "take (Suc k) (replicate 51 (0::int)) = replicate (Suc k) 0" if "k < 51" for k
    using that by (simp add: take_replicate min_def)
  have "map (\<lambda>k. Some (if recent (replicate 51 0 ! k) (take (Suc k) (replicate 51 0)) > 50
      then RejectedDrop else RejectedReset)) [0..<51] =
    map (\<lambda>k. Some (if k = 50 then RejectedDrop else RejectedReset)) [0..<51]"
    by (intro map_cong refl) (auto simp: take recent_def rejectWindow_def)
  also have "\<dots> = replicate 50 (Some RejectedReset) @ [Some RejectedDrop]"
    by (intro nth_equalityI) (auto simp: nth_append less_Suc_eq)
  finally show ?thesis
    using reject_flood [of "\<lparr>rejectRcode = 0, rejectMethod = ''default'', rejectNoDrop = False,
      dropCounter = []\<rparr>" "replicate 51 0"]
    by simp
qed

text \<open>
  The names of the spoofing methods round trip, every other name but the
  empty one is refused, and spoofing options are accepted exactly when a method
  comes with a server name, the platform supports it and the name is known.
\<close>

lemma spoof_options:
  "ParseMethod (SpoofMethod_String m) = Inr m \<and>
   ((\<exists>result. ParseOptions E spoof method = Inr result) \<longleftrightarrow>
     (if spoof = [] then method = []
      else SpoofPlatformSupported E \<and> (method = [] \<or> (\<exists>m. method = SpoofMethod_String m))))"
proof -
  have "ParseMethod (SpoofMethod_String m) = Inr m" for m
    by (cases m) (simp_all add: ParseMethod_def)
  moreover have "(\<exists>m. ParseMethod method = Inr m) \<longleftrightarrow> method = [] \<or> (\<exists>m. method = SpoofMethod_String m)"
  proof
    assume "\<exists>m. ParseMethod method = Inr m"
    then show "method = [] \<or> (\<exists>m. method = SpoofMethod_String m)"
      unfolding ParseMethod_def by (auto split: if_splits intro: SpoofMethod_String.simps [symmetric])
  qed (auto simp: calculation, simp add: ParseMethod_def)
  ultimately show ?thesis
    by (auto simp: ParseOptions_def map_sum_Inr_iff)
qed

text \<open>
  A sniff action is built exactly from known protocol names: it gets the
  sniffers of all names in their order, or fails on the first unknown one.
\<close>

lemma sniff_build_all:
  "sniff_build names [] [] =
     (case find (\<lambda>name. snifferOf name = None) names of
        Some name \<Rightarrow> Inl (UnknownSniffer name)
      | None \<Rightarrow> Inr (concat (map (\<lambda>name. fst (the (snifferOf name))) names),
                    concat (map (\<lambda>name. snd (the (snifferOf name))) names)))"
proof -
  have "sniff_build names ss ps =
     (case find (\<lambda>name. snifferOf name = None) names of
        Some name \<Rightarrow> Inl (UnknownSniffer name)
      | None \<Rightarrow> Inr (ss @ concat (map (\<lambda>name. fst (the (snifferOf name))) names),
                    ps @ concat (map (\<lambda>name. snd (the (snifferOf name))) names)))" for ss ps
    by (induction names arbitrary: ss ps) (auto split: option.splits)
  then show ?thesis by (simp split: option.split)
qed

end
