(* ===== verification/RuleBuild.thy ===== *)
theory RuleBuild
  imports RuleEngine RuleActions
begin

text \<open>
  The constructors of \<^verbatim>\<open>rule_default.go\<close>, \<^verbatim>\<open>rule_headless.go\<close> and \<^verbatim>\<open>rule_dns.go\<close>, the
  check of nested actions (\<^verbatim>\<open>rule_nested_action.go\<close>), and the option structs they
  read (\<^verbatim>\<open>option/rule.go\<close>, \<^verbatim>\<open>rule_dns.go\<close>, \<^verbatim>\<open>rule_set.go\<close>). A constructor is a sequence
  of steps, one per condition of the configuration, each of which adds one
  item to one list of the rule and to \<open>allItems\<close>, or fails.
\<close>

section \<open>Options\<close>

text \<open>
  The fields of the three option structs, under the names they share. A
  constructor reads the fields its struct has. Nil and empty lists and maps
  are the same here.
\<close>

record ruleOptions =
  opt_Inbound :: "string list"
  opt_IPVersion :: int
  opt_QueryType :: "u16 list"
  opt_QueryClientSubnet :: "Prefix list"
  opt_QueryDNSSEC :: bool
  opt_Network :: "string list"
  opt_AuthUser :: "string list"
  opt_Protocol :: "string list"
  opt_Client :: "string list"
  opt_Domain :: "string list"
  opt_DomainSuffix :: "string list"
  opt_DomainKeyword :: "string list"
  opt_DomainRegex :: "string list"
  opt_Geosite :: "string list"
  opt_SourceGeoIP :: "string list"
  opt_GeoIP :: "string list"
  opt_SourceIPCIDR :: "Prefix list"
  opt_SourceIPIsPrivate :: bool
  opt_IPCIDR :: "Prefix list"
  opt_IPIsPrivate :: bool
  opt_IPAcceptAny :: bool
  opt_ResponseRcode :: "int option"
  opt_ResponseAnswer :: "RR option list"
  opt_ResponseNs :: "RR option list"
  opt_ResponseExtra :: "RR option list"
  opt_SourcePort :: "u16 list"
  opt_SourcePortRange :: "string list"
  opt_Port :: "u16 list"
  opt_PortRange :: "string list"
  opt_ProcessName :: "string list"
  opt_ProcessPath :: "string list"
  opt_ProcessPathRegex :: "string list"
  opt_PackageName :: "string list"
  opt_PackageNameRegex :: "string list"
  opt_User :: "string list"
  opt_UserID :: "int list"
  opt_Outbound :: "string list"
  opt_ClashMode :: "string list"
  opt_NetworkType :: "InterfaceType list"
  opt_NetworkIsExpensive :: bool
  opt_NetworkIsConstrained :: bool
  opt_WIFISSID :: "string list"
  opt_WIFIBSSID :: "string list"
  opt_InterfaceAddress :: "(string \<times> Prefix list) list"
  opt_NetworkInterfaceAddress :: "(InterfaceType \<times> Prefix list) list"
  opt_DefaultInterfaceAddress :: "Prefix list"
  opt_SourceMACAddress :: "string list"
  opt_SourceHostname :: "string list"
  opt_PreferredBy :: "string list"
  opt_DNSServerAddress :: "(string \<times> Prefix list) list"
  opt_DNSSearchDomain :: "(string \<times> string list) list"
  opt_RuleSet :: "string list"
  opt_RuleSetIPCIDRMatchSource :: bool
  opt_RuleSetIPCIDRAcceptEmpty :: bool
  opt_DeprecatedRulesetIPCIDRMatchSource :: bool
  opt_MatchResponse :: "(bool \<times> string) option"
  opt_AllowFallthrough :: bool
  opt_DomainMatchStrategy :: DomainMatchStrategy
  opt_Invert :: bool
  opt_DomainMatcher :: "(string \<Rightarrow> bool) option"
  opt_SourceIPSet :: "IPSetT option"
  opt_IPSet :: "IPSetT option"
  opt_AdGuardDomain :: "string list"
  opt_AdGuardDomainMatcher :: "(string \<Rightarrow> bool) option"

definition ruleOptionsZero :: ruleOptions where
  "ruleOptionsZero = \<lparr>opt_Inbound = [], opt_IPVersion = 0, opt_QueryType = [],
     opt_QueryClientSubnet = [], opt_QueryDNSSEC = False, opt_Network = [], opt_AuthUser = [],
     opt_Protocol = [], opt_Client = [], opt_Domain = [], opt_DomainSuffix = [],
     opt_DomainKeyword = [], opt_DomainRegex = [], opt_Geosite = [], opt_SourceGeoIP = [],
     opt_GeoIP = [], opt_SourceIPCIDR = [], opt_SourceIPIsPrivate = False, opt_IPCIDR = [],
     opt_IPIsPrivate = False, opt_IPAcceptAny = False, opt_ResponseRcode = None,
     opt_ResponseAnswer = [], opt_ResponseNs = [], opt_ResponseExtra = [], opt_SourcePort = [],
     opt_SourcePortRange = [], opt_Port = [], opt_PortRange = [], opt_ProcessName = [],
     opt_ProcessPath = [], opt_ProcessPathRegex = [], opt_PackageName = [],
     opt_PackageNameRegex = [], opt_User = [], opt_UserID = [], opt_Outbound = [],
     opt_ClashMode = [], opt_NetworkType = [], opt_NetworkIsExpensive = False,
     opt_NetworkIsConstrained = False, opt_WIFISSID = [], opt_WIFIBSSID = [],
     opt_InterfaceAddress = [], opt_NetworkInterfaceAddress = [],
     opt_DefaultInterfaceAddress = [], opt_SourceMACAddress = [], opt_SourceHostname = [],
     opt_PreferredBy = [], opt_DNSServerAddress = [], opt_DNSSearchDomain = [],
     opt_RuleSet = [], opt_RuleSetIPCIDRMatchSource = False,
     opt_RuleSetIPCIDRAcceptEmpty = False, opt_DeprecatedRulesetIPCIDRMatchSource = False,
     opt_MatchResponse = None, opt_AllowFallthrough = False,
     opt_DomainMatchStrategy = DomainMatchStrategyAsIS, opt_Invert = False,
     opt_DomainMatcher = None, opt_SourceIPSet = None, opt_IPSet = None,
     opt_AdGuardDomain = [], opt_AdGuardDomainMatcher = None\<rparr>"

text \<open>\<^verbatim>\<open>IsValid\<close> of the default options: anything but \<^verbatim>\<open>invert\<close> is set.\<close>

definition conditionsSet :: "ruleOptions \<Rightarrow> bool" where
  "conditionsSet options \<longleftrightarrow> options \<noteq> ruleOptionsZero\<lparr>opt_Invert := opt_Invert options\<rparr>"

text \<open>A rule of the configuration, by its \<^verbatim>\<open>type\<close>: route, DNS and headless rules.\<close>

datatype RuleOptions =
    DefaultOptions ruleOptions RuleActionOptions
  | LogicalOptions (LogicalMode: string) (LogicalRules: "RuleOptions list") bool RuleActionOptions
  | UnknownTypeOptions string

datatype DNSRuleOptions =
    DNSDefaultOptions ruleOptions bool DNSRuleActionOptions
  | DNSLogicalOptions string "DNSRuleOptions list" bool bool DNSRuleActionOptions
  | DNSUnknownTypeOptions string

datatype HeadlessRuleOptions =
    HeadlessDefaultOptions ruleOptions
  | HeadlessLogicalOptions string "HeadlessRuleOptions list" bool
  | HeadlessUnknownTypeOptions string

datatype rule_error =
    MissingConditions | MissingOutbound | MissingServer | UnknownRuleType string
  | InvalidIPVersion int
  | ItemError string item_error
  | ActionError action_error | PanicUnknownAction
  | GeositeRemoved | GeoIPRemoved | RulesetMatchSourceRemoved | AcceptEmptyRemoved
  | UnknownLogicalMode string
  | SubRule nat rule_error
  | NestedAction
  | OnlyTopLevel string
  | RejectReplyUnsupported | ClientSubnetExclusive
  | RaceRequiresFinalAction | RaceWithSpeculative | RaceRequiresMatchResponse

section \<open>Steps\<close>

datatype slot =
    SlotItems | SlotSourceAddress | SlotSourcePort | SlotDestinationAddress
  | SlotDestinationIPCIDR | SlotDestinationPort

fun addItem :: "slot \<Rightarrow> simple_item \<Rightarrow> ruleFields \<Rightarrow> ruleFields" where
  "addItem SlotItems i r = r\<lparr>items := items r @ [i], allItems := allItems r @ [Item i]\<rparr>"
| "addItem SlotSourceAddress i r =
     r\<lparr>sourceAddressItems := sourceAddressItems r @ [i], allItems := allItems r @ [Item i]\<rparr>"
| "addItem SlotSourcePort i r =
     r\<lparr>sourcePortItems := sourcePortItems r @ [i], allItems := allItems r @ [Item i]\<rparr>"
| "addItem SlotDestinationAddress i r =
     r\<lparr>destinationAddressItems := destinationAddressItems r @ [i], allItems := allItems r @ [Item i]\<rparr>"
| "addItem SlotDestinationIPCIDR i r =
     r\<lparr>destinationIPCIDRItems := destinationIPCIDRItems r @ [i], allItems := allItems r @ [Item i]\<rparr>"
| "addItem SlotDestinationPort i r =
     r\<lparr>destinationPortItems := destinationPortItems r @ [i], allItems := allItems r @ [Item i]\<rparr>"

type_synonym step = "rule_error + (slot \<times> simple_item) option"

text \<open>\<open>add\<close>: under a condition, append an item; \<open>addE\<close>: one that may fail to build.\<close>

definition add :: "bool \<Rightarrow> slot \<Rightarrow> simple_item \<Rightarrow> step" where
  "add cond slot item = Inr (if cond then Some (slot, item) else None)"

definition addE :: "bool \<Rightarrow> string \<Rightarrow> slot \<Rightarrow> item_error + simple_item \<Rightarrow> step" where
  "addE cond cause slot result =
     (if cond then map_sum (ItemError cause) (\<lambda>item. Some (slot, item)) result else Inr None)"

definition failIf :: "bool \<Rightarrow> rule_error \<Rightarrow> step" where
  "failIf cond err = (if cond then Inl err else Inr None)"

fun runSteps :: "step list \<Rightarrow> ruleFields \<Rightarrow> rule_error + ruleFields" where
  "runSteps [] r = Inr r"
| "runSteps (Inl err # _) r = Inl err"
| "runSteps (Inr None # rest) r = runSteps rest r"
| "runSteps (Inr (Some (slot, item)) # rest) r = runSteps rest (addItem slot item r)"

definition emptyFields :: "DomainMatchStrategy \<Rightarrow> ruleFields" where
  "emptyFields strategy = \<lparr>items = [], sourceAddressItems = [], sourcePortItems = [],
     destinationAddressItems = [], destinationIPCIDRItems = [], destinationPortItems = [],
     allItems = [], domainMatchStrategy = strategy, ruleCount = 0\<rparr>"

definition ipVersionStep :: "int \<Rightarrow> step" where
  "ipVersionStep v =
     (if v > 0 then
        (if v = 4 \<or> v = 6 then Inr (Some (SlotItems, IPVersionItem (v = 6)))
         else Inl (InvalidIPVersion v))
      else Inr None)"

text \<open>
  The strategy of a rule: its own, or the router's default where the rule has
  none and there is a router.
\<close>

definition ruleStrategy :: "DomainMatchStrategy option \<Rightarrow> DomainMatchStrategy \<Rightarrow> DomainMatchStrategy" where
  "ruleStrategy routerDefault s =
     (case routerDefault of
        Some d \<Rightarrow> if s = DomainMatchStrategyAsIS then d else s
      | None \<Rightarrow> s)"

section \<open>Route rules\<close>

definition NewDefaultRule_addressSteps :: "env \<Rightarrow> DomainMatchStrategy \<Rightarrow> ruleOptions \<Rightarrow> step list" where
  "NewDefaultRule_addressSteps E strategy options =
     [add (opt_Inbound options \<noteq> []) SlotItems (NewInboundRule (opt_Inbound options)),
      ipVersionStep (opt_IPVersion options),
      add (opt_Network options \<noteq> []) SlotItems (NewNetworkItem (opt_Network options)),
      add (opt_AuthUser options \<noteq> []) SlotItems (NewAuthUserItem (opt_AuthUser options)),
      add (opt_Protocol options \<noteq> []) SlotItems (NewProtocolItem (opt_Protocol options)),
      add (opt_Client options \<noteq> []) SlotItems (NewClientItem (opt_Client options)),
      addE (opt_Domain options \<noteq> [] \<or> opt_DomainSuffix options \<noteq> []) [] SlotDestinationAddress
        (NewDomainItem E (opt_Domain options) (opt_DomainSuffix options) strategy),
      add (opt_DomainKeyword options \<noteq> []) SlotDestinationAddress
        (NewDomainKeywordItem (opt_DomainKeyword options) strategy),
      addE (opt_DomainRegex options \<noteq> []) [] SlotDestinationAddress
        (NewDomainRegexItem E (opt_DomainRegex options) strategy),
      failIf (opt_Geosite options \<noteq> []) GeositeRemoved,
      failIf (opt_SourceGeoIP options \<noteq> []) GeoIPRemoved,
      failIf (opt_GeoIP options \<noteq> []) GeoIPRemoved,
      addE (opt_SourceIPCIDR options \<noteq> []) ''source_ip_cidr'' SlotSourceAddress
        (NewIPCIDRItem E True (opt_SourceIPCIDR options)),
      add (opt_SourceIPIsPrivate options) SlotSourceAddress (IPIsPrivateItem True),
      addE (opt_IPCIDR options \<noteq> []) ''ipcidr'' SlotDestinationIPCIDR
        (NewIPCIDRItem E False (opt_IPCIDR options)),
      add (opt_IPIsPrivate options) SlotDestinationIPCIDR (IPIsPrivateItem False),
      add (opt_SourcePort options \<noteq> []) SlotSourcePort (NewPortItem True (opt_SourcePort options)),
      addE (opt_SourcePortRange options \<noteq> []) ''source_port_range'' SlotSourcePort
        (NewPortRangeItem True (opt_SourcePortRange options)),
      add (opt_Port options \<noteq> []) SlotDestinationPort (NewPortItem False (opt_Port options)),
      addE (opt_PortRange options \<noteq> []) ''port_range'' SlotDestinationPort
        (NewPortRangeItem False (opt_PortRange options))]"

text \<open>The conditions on the process, which all three constructors take the same way.\<close>

definition processSteps :: "env \<Rightarrow> ruleOptions \<Rightarrow> step list" where
  "processSteps E options =
     [add (opt_ProcessName options \<noteq> []) SlotItems (NewProcessItem (opt_ProcessName options)),
      add (opt_ProcessPath options \<noteq> []) SlotItems (NewProcessPathItem (opt_ProcessPath options)),
      addE (opt_ProcessPathRegex options \<noteq> []) ''process_path_regex'' SlotItems
        (NewProcessPathRegexItem E (opt_ProcessPathRegex options)),
      add (opt_PackageName options \<noteq> []) SlotItems (NewPackageNameItem (opt_PackageName options)),
      addE (opt_PackageNameRegex options \<noteq> []) ''package_name_regex'' SlotItems
        (NewPackageNameRegexItem E (opt_PackageNameRegex options))]"

text \<open>The conditions on the network, from \<^verbatim>\<open>network_type\<close> to \<^verbatim>\<open>wifi_bssid\<close>.\<close>

definition networkSteps :: "ruleOptions \<Rightarrow> step list" where
  "networkSteps options =
     [add (opt_NetworkType options \<noteq> []) SlotItems (NetworkTypeItem (opt_NetworkType options)),
      add (opt_NetworkIsExpensive options) SlotItems NetworkIsExpensiveItem,
      add (opt_NetworkIsConstrained options) SlotItems NetworkIsConstrainedItem,
      add (opt_WIFISSID options \<noteq> []) SlotItems (NewWIFISSIDItem (opt_WIFISSID options)),
      add (opt_WIFIBSSID options \<noteq> []) SlotItems (NewWIFIBSSIDItem (opt_WIFIBSSID options))]"

definition interfaceSteps :: "env \<Rightarrow> ruleOptions \<Rightarrow> step list" where
  "interfaceSteps E options =
     [add (opt_NetworkInterfaceAddress options \<noteq> []) SlotItems
        (NewNetworkInterfaceAddressItem E (opt_NetworkInterfaceAddress options)),
      add (opt_DefaultInterfaceAddress options \<noteq> []) SlotItems
        (NewDefaultInterfaceAddressItem E (opt_DefaultInterfaceAddress options))]"

definition NewDefaultRule_steps :: "env \<Rightarrow> DomainMatchStrategy \<Rightarrow> ruleOptions \<Rightarrow> step list" where
  "NewDefaultRule_steps E strategy options =
     NewDefaultRule_addressSteps E strategy options @ processSteps E options @
     [add (opt_User options \<noteq> []) SlotItems (NewUserItem (opt_User options)),
      add (opt_UserID options \<noteq> []) SlotItems (NewUserIDItem (opt_UserID options)),
      add (opt_ClashMode options \<noteq> []) SlotItems (NewClashModeItem (opt_ClashMode options))] @
     networkSteps options @
     [add (opt_InterfaceAddress options \<noteq> []) SlotItems
        (NewInterfaceAddressItem E (opt_InterfaceAddress options))] @
     interfaceSteps E options @
     [add (opt_SourceMACAddress options \<noteq> []) SlotItems
        (NewSourceMACAddressItem (opt_SourceMACAddress options)),
      add (opt_SourceHostname options \<noteq> []) SlotItems
        (NewSourceHostnameItem (opt_SourceHostname options)),
      add (opt_PreferredBy options \<noteq> []) SlotItems
        (NewPreferredByItem (opt_PreferredBy options) strategy),
      add (opt_DNSServerAddress options \<noteq> []) SlotItems
        (NewDNSServerAddressItem E (opt_DNSServerAddress options)),
      add (opt_DNSSearchDomain options \<noteq> []) SlotItems
        (NewDNSSearchDomainItem E (opt_DNSSearchDomain options))]"

definition NewRuleSetItem :: "string list \<Rightarrow> bool \<Rightarrow> bool \<Rightarrow> RuleSetItem" where
  "NewRuleSetItem tags matchSource acceptEmpty = RuleSetItem tags [] matchSource acceptEmpty"

text \<open>The last step of a constructor: the rule-set item, where sets are named.\<close>

definition withRuleSet ::
  "bool \<Rightarrow> ruleOptions \<Rightarrow> ruleFields \<Rightarrow> rule_error + abstractDefaultRule" where
  "withRuleSet acceptEmpty options r =
     (if opt_RuleSet options \<noteq> [] then
        (if opt_DeprecatedRulesetIPCIDRMatchSource options then Inl RulesetMatchSourceRemoved
         else Inr (AbstractDefaultRule (r\<lparr>allItems := allItems r @ [TheRuleSetItem]\<rparr>)
                (Some (NewRuleSetItem (opt_RuleSet options) (opt_RuleSetIPCIDRMatchSource options) acceptEmpty))
                (opt_Invert options)))
      else Inr (AbstractDefaultRule r None (opt_Invert options)))"

text \<open>A built rule with its action; nil for a nested rule.\<close>

record builtRule =
  builtHeadless :: HeadlessRule
  builtAction :: "RuleAction option"

definition newAction :: "env \<Rightarrow> RuleActionOptions \<Rightarrow> rule_error + RuleAction option" where
  "newAction E action =
     (case NewRuleAction E action of
        None \<Rightarrow> Inl PanicUnknownAction
      | Some result \<Rightarrow> map_sum ActionError id result)"

definition NewDefaultRule ::
  "env \<Rightarrow> DomainMatchStrategy option \<Rightarrow> ruleOptions \<Rightarrow> RuleActionOptions \<Rightarrow> rule_error + builtRule" where
  "NewDefaultRule E routerDefault options actionOptions =
     (case newAction E actionOptions of
        Inl err \<Rightarrow> Inl err
      | Inr action \<Rightarrow>
          let strategy = ruleStrategy routerDefault (opt_DomainMatchStrategy options) in
          (case runSteps (NewDefaultRule_steps E strategy options) (emptyFields strategy) of
             Inl err \<Rightarrow> Inl err
           | Inr r \<Rightarrow>
               map_sum id (\<lambda>d. \<lparr>builtHeadless = DefaultRule d, builtAction = action\<rparr>)
                 (withRuleSet False options r)))"

section \<open>Nested actions\<close>

fun ruleHasConfiguredAction :: "RuleOptions \<Rightarrow> bool" where
  "ruleHasConfiguredAction (DefaultOptions _ action) \<longleftrightarrow> action \<noteq> NoActionOptions"
| "ruleHasConfiguredAction (LogicalOptions _ _ _ action) \<longleftrightarrow> action \<noteq> NoActionOptions"
| "ruleHasConfiguredAction (UnknownTypeOptions _) \<longleftrightarrow> False"

fun validateNoNestedRuleActions :: "RuleOptions \<Rightarrow> bool \<Rightarrow> rule_error option"
  and validateSubRules :: "nat \<Rightarrow> RuleOptions list \<Rightarrow> rule_error option" where
  "validateNoNestedRuleActions rule nested =
     (if nested \<and> ruleHasConfiguredAction rule then Some NestedAction
      else case rule of
        LogicalOptions _ rules _ _ \<Rightarrow> validateSubRules 0 rules
      | _ \<Rightarrow> None)"
| "validateSubRules i [] = None"
| "validateSubRules i (subRule # rest) =
     (case validateNoNestedRuleActions subRule True of
        Some err \<Rightarrow> Some (SubRule i err)
      | None \<Rightarrow> validateSubRules (Suc i) rest)"

text \<open>\<^verbatim>\<open>Rule.IsValid\<close>; the panic on an unknown type does not arise after decoding.\<close>

fun Rule_IsValid :: "RuleOptions \<Rightarrow> bool" where
  "Rule_IsValid (DefaultOptions options action) \<longleftrightarrow> conditionsSet options \<or> action \<noteq> NoActionOptions"
| "Rule_IsValid (LogicalOptions _ rules _ _) \<longleftrightarrow> rules \<noteq> [] \<and> list_all Rule_IsValid rules"
| "Rule_IsValid (UnknownTypeOptions _) \<longleftrightarrow> False"

fun missingOutbound :: "RuleActionOptions \<Rightarrow> bool" where
  "missingOutbound NoActionOptions = True"
| "missingOutbound (RouteOptions outbound _) = (outbound = [])"
| "missingOutbound _ = False"

definition logicalMode :: "string \<Rightarrow> rule_error + string" where
  "logicalMode mode =
     (if mode = ''and'' \<or> mode = ''or'' then Inr mode else Inl (UnknownLogicalMode mode))"

fun NewRule ::
  "env \<Rightarrow> DomainMatchStrategy option \<Rightarrow> RuleOptions \<Rightarrow> bool \<Rightarrow> rule_error + builtRule"
  and newSubRules ::
  "env \<Rightarrow> DomainMatchStrategy option \<Rightarrow> nat \<Rightarrow> RuleOptions list \<Rightarrow> rule_error + HeadlessRule list" where
  "NewRule E d (DefaultOptions options action) checkOutbound =
     (if \<not> Rule_IsValid (DefaultOptions options action) then Inl MissingConditions
      else if missingOutbound action \<and> checkOutbound then Inl MissingOutbound
      else NewDefaultRule E d options action)"
| "NewRule E d (LogicalOptions mode rules inverted action) checkOutbound =
     (if \<not> Rule_IsValid (LogicalOptions mode rules inverted action) then Inl MissingConditions
      else if missingOutbound action \<and> checkOutbound then Inl MissingOutbound
      else case newAction E action of
        Inl err \<Rightarrow> Inl err
      | Inr act \<Rightarrow>
          (case logicalMode mode of
             Inl err \<Rightarrow> Inl err
           | Inr m \<Rightarrow>
               map_sum id (\<lambda>subRules. \<lparr>builtHeadless = LogicalRule subRules m inverted, builtAction = act\<rparr>)
                 (newSubRules E d 0 rules)))"
| "NewRule E d (UnknownTypeOptions t) checkOutbound = Inl (UnknownRuleType t)"
| "newSubRules E d i [] = Inr []"
| "newSubRules E d i (subOptions # rest) =
     (case validateNoNestedRuleActions subOptions True of
        Some err \<Rightarrow> Inl (SubRule i err)
      | None \<Rightarrow>
          (case NewRule E d subOptions False of
             Inl err \<Rightarrow> Inl (SubRule i err)
           | Inr subRule \<Rightarrow>
               map_sum id ((#) (builtHeadless subRule)) (newSubRules E d (Suc i) rest)))"

section \<open>Headless rules\<close>

text \<open>An item built from a list where it is given, or else from a prepared matcher or set.\<close>

definition addOrRaw :: "step \<Rightarrow> bool \<Rightarrow> slot \<Rightarrow> simple_item option \<Rightarrow> step" where
  "addOrRaw listed cond slot raw =
     (if cond then listed else case raw of Some item \<Rightarrow> Inr (Some (slot, item)) | None \<Rightarrow> Inr None)"

definition NewDefaultHeadlessRule_addressSteps ::
  "env \<Rightarrow> DomainMatchStrategy \<Rightarrow> ruleOptions \<Rightarrow> step list" where
  "NewDefaultHeadlessRule_addressSteps E strategy options =
     [add (opt_QueryType options \<noteq> []) SlotItems (NewQueryTypeItem (opt_QueryType options)),
      add (opt_Network options \<noteq> []) SlotItems (NewNetworkItem (opt_Network options)),
      addOrRaw
        (addE True [] SlotDestinationAddress
          (NewDomainItem E (opt_Domain options) (opt_DomainSuffix options) strategy))
        (opt_Domain options \<noteq> [] \<or> opt_DomainSuffix options \<noteq> []) SlotDestinationAddress
        (map_option (\<lambda>m. NewRawDomainItem m strategy) (opt_DomainMatcher options)),
      add (opt_DomainKeyword options \<noteq> []) SlotDestinationAddress
        (NewDomainKeywordItem (opt_DomainKeyword options) strategy),
      addE (opt_DomainRegex options \<noteq> []) ''domain_regex'' SlotDestinationAddress
        (NewDomainRegexItem E (opt_DomainRegex options) strategy),
      addOrRaw
        (addE True ''source_ip_cidr'' SlotSourceAddress
          (NewIPCIDRItem E True (opt_SourceIPCIDR options)))
        (opt_SourceIPCIDR options \<noteq> []) SlotSourceAddress
        (map_option (NewRawIPCIDRItem True) (opt_SourceIPSet options)),
      addOrRaw
        (addE True ''ipcidr'' SlotDestinationIPCIDR (NewIPCIDRItem E False (opt_IPCIDR options)))
        (opt_IPCIDR options \<noteq> []) SlotDestinationIPCIDR
        (map_option (NewRawIPCIDRItem False) (opt_IPSet options)),
      add (opt_SourcePort options \<noteq> []) SlotSourcePort (NewPortItem True (opt_SourcePort options)),
      addE (opt_SourcePortRange options \<noteq> []) ''source_port_range'' SlotSourcePort
        (NewPortRangeItem True (opt_SourcePortRange options)),
      add (opt_Port options \<noteq> []) SlotDestinationPort (NewPortItem False (opt_Port options)),
      addE (opt_PortRange options \<noteq> []) ''port_range'' SlotDestinationPort
        (NewPortRangeItem False (opt_PortRange options))]"

definition NewDefaultHeadlessRule_steps ::
  "env \<Rightarrow> bool \<Rightarrow> DomainMatchStrategy \<Rightarrow> ruleOptions \<Rightarrow> step list" where
  "NewDefaultHeadlessRule_steps E hasNetworkManager strategy options =
     NewDefaultHeadlessRule_addressSteps E strategy options @ processSteps E options @
     (if hasNetworkManager then networkSteps options @ interfaceSteps E options else []) @
     [addOrRaw
        (add True SlotDestinationAddress
          (NewAdGuardDomainItem E (opt_AdGuardDomain options) strategy))
        (opt_AdGuardDomain options \<noteq> []) SlotDestinationAddress
        (map_option (\<lambda>m. NewRawAdGuardDomainItem m strategy) (opt_AdGuardDomainMatcher options))]"

definition headlessRuleCount :: "ruleFields \<Rightarrow> nat" where
  "headlessRuleCount r =
     (if length (allItems r) = length (destinationAddressItems r) + length (destinationIPCIDRItems r)
      then length (destinationAddressItems r) + length (destinationIPCIDRItems r)
      else if length (allItems r) = length (sourceAddressItems r) then length (sourceAddressItems r)
      else if length (allItems r) = length (sourcePortItems r) then length (sourcePortItems r)
      else if length (allItems r) = length (destinationPortItems r)
        then length (destinationPortItems r)
      else 1)"

definition NewDefaultHeadlessRule ::
  "env \<Rightarrow> bool \<Rightarrow> DomainMatchStrategy option \<Rightarrow> ruleOptions \<Rightarrow> rule_error + HeadlessRule" where
  "NewDefaultHeadlessRule E hasNetworkManager routerDefault options =
     (let strategy = ruleStrategy routerDefault (opt_DomainMatchStrategy options) in
      map_sum id (\<lambda>r. DefaultHeadlessRule (AbstractDefaultRule
          (r\<lparr>ruleCount := word_of_nat (headlessRuleCount r)\<rparr>) None (opt_Invert options)))
        (runSteps (NewDefaultHeadlessRule_steps E hasNetworkManager strategy options)
          (emptyFields strategy)))"

fun HeadlessRule_IsValid :: "HeadlessRuleOptions \<Rightarrow> bool" where
  "HeadlessRule_IsValid (HeadlessDefaultOptions options) = conditionsSet options"
| "HeadlessRule_IsValid (HeadlessLogicalOptions _ rules _) =
     (rules \<noteq> [] \<and> list_all HeadlessRule_IsValid rules)"
| "HeadlessRule_IsValid (HeadlessUnknownTypeOptions _) = False"

fun NewHeadlessRule ::
  "env \<Rightarrow> bool \<Rightarrow> DomainMatchStrategy option \<Rightarrow> HeadlessRuleOptions \<Rightarrow> rule_error + HeadlessRule"
  and newHeadlessSubRules ::
  "env \<Rightarrow> bool \<Rightarrow> DomainMatchStrategy option \<Rightarrow> nat \<Rightarrow> HeadlessRuleOptions list
     \<Rightarrow> rule_error + HeadlessRule list" where
  "NewHeadlessRule E nm d (HeadlessDefaultOptions options) =
     (if \<not> HeadlessRule_IsValid (HeadlessDefaultOptions options) then Inl MissingConditions
      else NewDefaultHeadlessRule E nm d options)"
| "NewHeadlessRule E nm d (HeadlessLogicalOptions mode rules inverted) =
     (if \<not> HeadlessRule_IsValid (HeadlessLogicalOptions mode rules inverted) then Inl MissingConditions
      else case logicalMode mode of
        Inl err \<Rightarrow> Inl err
      | Inr m \<Rightarrow>
          map_sum id (\<lambda>subRules. LogicalRule subRules m inverted) (newHeadlessSubRules E nm d 0 rules))"
| "NewHeadlessRule E nm d (HeadlessUnknownTypeOptions t) = Inl (UnknownRuleType t)"
| "newHeadlessSubRules E nm d i [] = Inr []"
| "newHeadlessSubRules E nm d i (subRule # rest) =
     (case NewHeadlessRule E nm d subRule of
        Inl err \<Rightarrow> Inl (SubRule i err)
      | Inr rule \<Rightarrow> map_sum id ((#) rule) (newHeadlessSubRules E nm d (Suc i) rest))"

section \<open>DNS rules\<close>

definition NewDefaultDNSRule_addressSteps :: "env \<Rightarrow> ruleOptions \<Rightarrow> step list" where
  "NewDefaultDNSRule_addressSteps E options =
     [add (opt_Inbound options \<noteq> []) SlotItems (NewInboundRule (opt_Inbound options)),
      ipVersionStep (opt_IPVersion options),
      add (opt_QueryType options \<noteq> []) SlotItems (NewQueryTypeItem (opt_QueryType options)),
      add (opt_QueryClientSubnet options \<noteq> []) SlotItems
        (NewQueryClientSubnetItem (opt_QueryClientSubnet options)),
      add (opt_QueryDNSSEC options) SlotItems QueryDNSSECItem,
      add (opt_Network options \<noteq> []) SlotItems (NewNetworkItem (opt_Network options)),
      add (opt_AuthUser options \<noteq> []) SlotItems (NewAuthUserItem (opt_AuthUser options)),
      add (opt_Protocol options \<noteq> []) SlotItems (NewProtocolItem (opt_Protocol options)),
      addE (opt_Domain options \<noteq> [] \<or> opt_DomainSuffix options \<noteq> []) [] SlotDestinationAddress
        (NewDomainItem E (opt_Domain options) (opt_DomainSuffix options) DomainMatchStrategyAsIS),
      add (opt_DomainKeyword options \<noteq> []) SlotDestinationAddress
        (NewDomainKeywordItem (opt_DomainKeyword options) DomainMatchStrategyAsIS),
      addE (opt_DomainRegex options \<noteq> []) ''domain_regex'' SlotDestinationAddress
        (NewDomainRegexItem E (opt_DomainRegex options) DomainMatchStrategyAsIS),
      failIf (opt_Geosite options \<noteq> []) GeositeRemoved,
      failIf (opt_SourceGeoIP options \<noteq> []) GeoIPRemoved,
      failIf (opt_GeoIP options \<noteq> []) GeoIPRemoved,
      addE (opt_SourceIPCIDR options \<noteq> []) ''source_ip_cidr'' SlotSourceAddress
        (NewIPCIDRItem E True (opt_SourceIPCIDR options)),
      addE (opt_IPCIDR options \<noteq> []) ''ip_cidr'' SlotDestinationIPCIDR
        (NewIPCIDRItem E False (opt_IPCIDR options)),
      add (opt_SourceIPIsPrivate options) SlotSourceAddress (IPIsPrivateItem True),
      add (opt_IPIsPrivate options) SlotDestinationIPCIDR (IPIsPrivateItem False),
      add (opt_IPAcceptAny options) SlotDestinationIPCIDR IPAcceptAnyItem]"

definition NewDefaultDNSRule_responseSteps :: "ruleOptions \<Rightarrow> step list" where
  "NewDefaultDNSRule_responseSteps options =
     [(case opt_ResponseRcode options of
         Some rcode \<Rightarrow> add True SlotItems (DNSResponseRCodeItem rcode)
       | None \<Rightarrow> Inr None),
      add (opt_ResponseAnswer options \<noteq> []) SlotItems
        (NewDNSResponseRecordItem ''response_answer'' (opt_ResponseAnswer options) Answer),
      add (opt_ResponseNs options \<noteq> []) SlotItems
        (NewDNSResponseRecordItem ''response_ns'' (opt_ResponseNs options) Ns),
      add (opt_ResponseExtra options \<noteq> []) SlotItems
        (NewDNSResponseRecordItem ''response_extra'' (opt_ResponseExtra options) Extra),
      add (opt_SourcePort options \<noteq> []) SlotSourcePort (NewPortItem True (opt_SourcePort options)),
      addE (opt_SourcePortRange options \<noteq> []) ''source_port_range'' SlotSourcePort
        (NewPortRangeItem True (opt_SourcePortRange options)),
      add (opt_Port options \<noteq> []) SlotDestinationPort (NewPortItem False (opt_Port options)),
      addE (opt_PortRange options \<noteq> []) ''port_range'' SlotDestinationPort
        (NewPortRangeItem False (opt_PortRange options))]"

definition NewDefaultDNSRule_steps :: "env \<Rightarrow> bool \<Rightarrow> ruleOptions \<Rightarrow> step list" where
  "NewDefaultDNSRule_steps E legacyDNSMode options =
     NewDefaultDNSRule_addressSteps E options @ NewDefaultDNSRule_responseSteps options @
     processSteps E options @
     [add (opt_User options \<noteq> []) SlotItems (NewUserItem (opt_User options)),
      add (opt_UserID options \<noteq> []) SlotItems (NewUserIDItem (opt_UserID options)),
      add (opt_Outbound options \<noteq> []) SlotItems (NewOutboundRule (opt_Outbound options)),
      add (opt_ClashMode options \<noteq> []) SlotItems (NewClashModeItem (opt_ClashMode options))] @
     networkSteps options @
     [add (opt_InterfaceAddress options \<noteq> []) SlotItems
        (NewInterfaceAddressItem E (opt_InterfaceAddress options))] @
     interfaceSteps E options @
     [add (opt_SourceMACAddress options \<noteq> []) SlotItems
        (NewSourceMACAddressItem (opt_SourceMACAddress options)),
      add (opt_SourceHostname options \<noteq> []) SlotItems
        (NewSourceHostnameItem (opt_SourceHostname options)),
      add (opt_PreferredBy options \<noteq> []) SlotItems
        (NewPreferredByDNSItem (opt_PreferredBy options)),
      add (opt_DNSServerAddress options \<noteq> []) SlotItems
        (NewDNSServerAddressItem E (opt_DNSServerAddress options)),
      add (opt_DNSSearchDomain options \<noteq> []) SlotItems
        (NewDNSSearchDomainItem E (opt_DNSSearchDomain options)),
      failIf (opt_RuleSetIPCIDRAcceptEmpty options \<and> \<not> legacyDNSMode) AcceptEmptyRemoved]"

text \<open>A built DNS rule; the tags are those of the responses it matches.\<close>

record builtDNSRule =
  dnsHeadless :: HeadlessRule
  dnsAction :: "RuleAction option"
  dnsRace :: bool
  dnsAllowFallthrough :: bool
  dnsMatchResponseTags :: "string list"
  dnsMatchResponseAnonymous :: bool

definition MatchResponse_IsEnabled :: "(bool \<times> string) option \<Rightarrow> bool" where
  "MatchResponse_IsEnabled m = (case m of None \<Rightarrow> False | Some (enabled, _) \<Rightarrow> enabled)"

definition MatchResponse_ResponseTag :: "(bool \<times> string) option \<Rightarrow> string" where
  "MatchResponse_ResponseTag m = (case m of None \<Rightarrow> [] | Some (_, tag) \<Rightarrow> tag)"

definition newDNSAction :: "DNSRuleActionOptions \<Rightarrow> rule_error + RuleAction option" where
  "newDNSAction action =
     (case NewDNSRuleAction action of None \<Rightarrow> Inl PanicUnknownAction | Some a \<Rightarrow> Inr a)"

definition NewDefaultDNSRule ::
  "env \<Rightarrow> bool \<Rightarrow> ruleOptions \<Rightarrow> bool \<Rightarrow> DNSRuleActionOptions \<Rightarrow> rule_error + builtDNSRule" where
  "NewDefaultDNSRule E legacyDNSMode options race actionOptions =
     (case newDNSAction actionOptions of
        Inl err \<Rightarrow> Inl err
      | Inr action \<Rightarrow>
          (case runSteps (NewDefaultDNSRule_steps E legacyDNSMode options)
                  (emptyFields DomainMatchStrategyAsIS) of
             Inl err \<Rightarrow> Inl err
           | Inr r \<Rightarrow>
               let matchResponse = MatchResponse_IsEnabled (opt_MatchResponse options);
                   tag = MatchResponse_ResponseTag (opt_MatchResponse options) in
               map_sum id (\<lambda>d.
                   \<lparr>dnsHeadless = DefaultDNSRule d matchResponse tag, dnsAction = action,
                    dnsRace = race, dnsAllowFallthrough = opt_AllowFallthrough options,
                    dnsMatchResponseTags = (if tag = [] then [] else [tag]),
                    dnsMatchResponseAnonymous = (matchResponse \<and> tag = [])\<rparr>)
                 (withRuleSet (opt_RuleSetIPCIDRAcceptEmpty options) options r)))"

fun dnsRouteOptionsOf :: "DNSRuleActionOptions \<Rightarrow> AbstractDNSRouteActionOptions option" where
  "dnsRouteOptionsOf (DNSRouteOptions _ _ o') = Some o'"
| "dnsRouteOptionsOf (DNSEvaluateOptions _ _ _ o') = Some o'"
| "dnsRouteOptionsOf (DNSRouteOptionsOptions o') = Some o'"
| "dnsRouteOptionsOf _ = None"

fun isFinalDNSAction :: "DNSRuleActionOptions \<Rightarrow> bool" where
  "isFinalDNSAction NoDNSActionOptions = True"
| "isFinalDNSAction (DNSRouteOptions _ _ _) = True"
| "isFinalDNSAction DNSRespondOptions = True"
| "isFinalDNSAction (DNSRejectOptions _ _ _) = True"
| "isFinalDNSAction (DNSPredefinedOptions _ _ _ _) = True"
| "isFinalDNSAction _ = False"

definition validateDNSRuleAction :: "DNSRuleActionOptions \<Rightarrow> bool \<Rightarrow> rule_error option" where
  "validateDNSRuleAction action race =
     (if (case action of DNSRejectOptions _ method _ \<Rightarrow> method = ''reply'' | _ \<Rightarrow> False)
        then Some RejectReplyUnsupported
      else if (case dnsRouteOptionsOf action of
                 Some o' \<Rightarrow> oRemoveClientSubnet o' \<and> oClientSubnet o' \<noteq> None
               | None \<Rightarrow> False)
        then Some ClientSubnetExclusive
      else if race \<and> \<not> isFinalDNSAction action then Some RaceRequiresFinalAction
      else if race \<and> (case action of DNSRouteOptions _ speculative _ \<Rightarrow> speculative | _ \<Rightarrow> False)
        then Some RaceWithSpeculative
      else None)"

fun dnsRuleHasConfiguredAction :: "DNSRuleOptions \<Rightarrow> bool" where
  "dnsRuleHasConfiguredAction (DNSDefaultOptions _ race action) \<longleftrightarrow> race \<or> action \<noteq> NoDNSActionOptions"
| "dnsRuleHasConfiguredAction (DNSLogicalOptions _ _ _ race action) \<longleftrightarrow>
     race \<or> action \<noteq> NoDNSActionOptions"
| "dnsRuleHasConfiguredAction (DNSUnknownTypeOptions _) \<longleftrightarrow> False"

fun validateNoNestedDNSRuleActions :: "DNSRuleOptions \<Rightarrow> bool \<Rightarrow> rule_error option"
  and validateDNSSubRules :: "nat \<Rightarrow> DNSRuleOptions list \<Rightarrow> rule_error option" where
  "validateNoNestedDNSRuleActions rule nested =
     (if nested \<and> dnsRuleHasConfiguredAction rule then Some NestedAction
      else case rule of
        DNSLogicalOptions _ rules _ _ _ \<Rightarrow> validateDNSSubRules 0 rules
      | _ \<Rightarrow> None)"
| "validateDNSSubRules i [] = None"
| "validateDNSSubRules i (subRule # rest) =
     (case validateNoNestedDNSRuleActions subRule True of
        Some err \<Rightarrow> Some (SubRule i err)
      | None \<Rightarrow> validateDNSSubRules (Suc i) rest)"

fun DNSRule_IsValid :: "DNSRuleOptions \<Rightarrow> bool" where
  "DNSRule_IsValid (DNSDefaultOptions options race action) \<longleftrightarrow>
     conditionsSet options \<or> race \<or> action \<noteq> NoDNSActionOptions"
| "DNSRule_IsValid (DNSLogicalOptions _ rules _ _ _) \<longleftrightarrow> rules \<noteq> [] \<and> list_all DNSRule_IsValid rules"
| "DNSRule_IsValid (DNSUnknownTypeOptions _) \<longleftrightarrow> False"

fun missingServer :: "DNSRuleActionOptions \<Rightarrow> bool" where
  "missingServer NoDNSActionOptions = True"
| "missingServer (DNSRouteOptions server _ _) = (server = [])"
| "missingServer (DNSEvaluateOptions server _ _ _) = (server = [])"
| "missingServer _ = False"

fun isEvaluate :: "DNSRuleActionOptions \<Rightarrow> bool" where
  "isEvaluate (DNSEvaluateOptions _ _ _ _) = True"
| "isEvaluate _ = False"

text \<open>
  \<^verbatim>\<open>NewDNSRule\<close> and \<^verbatim>\<open>NewLogicalDNSRule\<close>, for a rule without fallback rules. The
  response tags of a logical rule are those of its sub-rules.
\<close>

fun NewDNSRule ::
  "env \<Rightarrow> bool \<Rightarrow> DNSRuleOptions \<Rightarrow> bool \<Rightarrow> rule_error + builtDNSRule"
  and newDNSSubRules ::
  "env \<Rightarrow> bool \<Rightarrow> nat \<Rightarrow> DNSRuleOptions list \<Rightarrow> rule_error + builtDNSRule list" where
  "NewDNSRule E legacy (DNSDefaultOptions options race action) checkServer =
     (if \<not> DNSRule_IsValid (DNSDefaultOptions options race action) then Inl MissingConditions
      else if \<not> checkServer \<and> isEvaluate action then Inl (OnlyTopLevel ''evaluate'')
      else case validateDNSRuleAction action race of
        Some err \<Rightarrow> Inl err
      | None \<Rightarrow>
          if race \<and> \<not> MatchResponse_IsEnabled (opt_MatchResponse options)
            then Inl RaceRequiresMatchResponse
          else if missingServer action \<and> checkServer then Inl MissingServer
          else NewDefaultDNSRule E legacy options race action)"
| "NewDNSRule E legacy (DNSLogicalOptions mode rules inverted race action) checkServer =
     (if \<not> DNSRule_IsValid (DNSLogicalOptions mode rules inverted race action) then Inl MissingConditions
      else if \<not> checkServer \<and> isEvaluate action then Inl (OnlyTopLevel ''evaluate'')
      else case validateDNSRuleAction action race of
        Some err \<Rightarrow> Inl err
      | None \<Rightarrow>
          if missingServer action \<and> checkServer then Inl MissingServer
          else case newDNSAction action of
            Inl err \<Rightarrow> Inl err
          | Inr act \<Rightarrow>
              (case logicalMode mode of
                 Inl err \<Rightarrow> Inl err
               | Inr m \<Rightarrow>
                   (case newDNSSubRules E legacy 0 rules of
                      Inl err \<Rightarrow> Inl err
                    | Inr subRules \<Rightarrow>
                        let tags = Uniq E (concat (map dnsMatchResponseTags subRules));
                            anonymous = list_ex dnsMatchResponseAnonymous subRules in
                        if race \<and> tags = [] \<and> \<not> anonymous then Inl RaceRequiresMatchResponse
                        else Inr \<lparr>dnsHeadless = LogicalRule (map dnsHeadless subRules) m inverted,
                               dnsAction = act, dnsRace = race, dnsAllowFallthrough = False,
                               dnsMatchResponseTags = tags,
                               dnsMatchResponseAnonymous = anonymous\<rparr>)))"
| "NewDNSRule E legacy (DNSUnknownTypeOptions t) checkServer = Inl (UnknownRuleType t)"
| "newDNSSubRules E legacy i [] = Inr []"
| "newDNSSubRules E legacy i (subRule # rest) =
     (case validateNoNestedDNSRuleActions subRule True of
        Some err \<Rightarrow> Inl (SubRule i err)
      | None \<Rightarrow>
          (case NewDNSRule E legacy subRule False of
             Inl err \<Rightarrow> Inl (SubRule i err)
           | Inr rule \<Rightarrow> map_sum id ((#) rule) (newDNSSubRules E legacy (Suc i) rest)))"

end
