(* ===== verification/RuleSemantics.thy ===== *)
theory RuleSemantics
  imports RuleEngine
begin

text \<open>
  What a rule means, and that matching computes it. The bit masks of
  \<^verbatim>\<open>match_state.go\<close> are sets of groups; a rule holds if its items all match and
  every group it names has a matching item, where a rule set may supply the
  items. \<^verbatim>\<open>Match\<close> decides this meaning and leaves the metadata as it found it.
\<close>

section \<open>Groups as sets\<close>

datatype group = SourceAddress | SourcePort | DestinationAddress | DestinationPort

definition all_groups :: "group list" where
  "all_groups = [SourceAddress, SourcePort, DestinationAddress, DestinationPort]"

lemma set_all_groups [simp]: "set all_groups = UNIV"
  using group.exhaust by (auto simp: all_groups_def)

lemma list_all_groups [simp]: "list_all P all_groups \<longleftrightarrow> (\<forall>g. P g)"
  by (simp add: list_all_iff)

fun group_bit :: "group \<Rightarrow> u8" where
  "group_bit SourceAddress = ruleMatchSourceAddress"
| "group_bit SourcePort = ruleMatchSourcePort"
| "group_bit DestinationAddress = ruleMatchDestinationAddress"
| "group_bit DestinationPort = ruleMatchDestinationPort"

definition gmask :: "(group \<Rightarrow> bool) \<Rightarrow> u8" where
  "gmask P = (if P SourceAddress then 1 else 0) OR (if P SourcePort then 2 else 0)
     OR (if P DestinationAddress then 4 else 0) OR (if P DestinationPort then 8 else 0)"

lemma bit_gmask:
  "bit (gmask P) n \<longleftrightarrow> n = 0 \<and> P SourceAddress \<or> n = 1 \<and> P SourcePort
     \<or> n = 2 \<and> P DestinationAddress \<or> n = 3 \<and> P DestinationPort"
proof -
  have b: "bit (1 :: u8) n \<longleftrightarrow> n = 0" "bit (2 :: u8) n \<longleftrightarrow> n = 1"
    "bit (4 :: u8) n \<longleftrightarrow> n = 2" "bit (8 :: u8) n \<longleftrightarrow> n = 3"
    using bit_push_bit_iff [of 1 "1 :: u8" n] bit_push_bit_iff [of 2 "1 :: u8" n]
      bit_push_bit_iff [of 3 "1 :: u8" n]
    by (auto simp: bit_1_iff push_bit_eq_mult)
  have z: "\<not> bit (0 :: u8) n" by simp
  have i: "bit (if p then x else 0) n \<longleftrightarrow> p \<and> bit (x :: u8) n" for p x
    by simp
  show ?thesis by (simp only: gmask_def bit_or_iff i b disj_assoc conj_commute)
qed

lemma gmask_or [simp]: "gmask P OR gmask Q = gmask (\<lambda>g. P g \<or> Q g)"
  by (rule bit_eqI) (auto simp: bit_or_iff bit_gmask)

lemma gmask_and_not [simp]: "and_not (gmask P) (gmask Q) = gmask (\<lambda>g. P g \<and> \<not> Q g)"
  by (rule bit_eqI) (auto simp: and_not_def bit_and_iff bit_not_iff bit_gmask dest: bit_imp_le_length)

lemma gmask_eq_0 [simp]: "gmask P = 0 \<longleftrightarrow> (\<forall>g. \<not> P g)"
proof
  assume "gmask P = 0"
  then have z: "\<not> bit (gmask P) n" for n by simp
  show "\<forall>g. \<not> P g"
  proof
    fix g show "\<not> P g"
      using z [of 0] z [of 1] z [of 2] z [of 3] by (cases g) (auto simp: bit_gmask)
  qed
qed (simp add: gmask_def)

lemma gmask_single: "group_bit g = gmask (\<lambda>h. h = g)"
  by (cases g) (simp_all add: gmask_def)

lemma has_mask [simp]: "has (gmask P) (group_bit g) = P g"
proof -
  have "gmask P AND gmask (\<lambda>h. h = g) = gmask (\<lambda>h. h = g \<and> P g)"
    by (rule bit_eqI) (cases g; auto simp: bit_and_iff bit_gmask)
  then show ?thesis by (auto simp: has_def gmask_single)
qed

abbreviation groupMatch :: "(group \<Rightarrow> bool) \<Rightarrow> (group \<Rightarrow> bool) \<Rightarrow> ruleGroupMatch" where
  "groupMatch P Q \<equiv> \<lparr>required = gmask P, satisfied = gmask Q\<rparr>"

lemma groups_done_mask [simp]: "groups_done (groupMatch P Q) \<longleftrightarrow> (\<forall>g. P g \<longrightarrow> Q g)"
  by (auto simp: groups_done_def)

lemma mergeWith_mask [simp]:
  "mergeWith (groupMatch P Q) (groupMatch P' Q') = groupMatch (\<lambda>g. P g \<or> P' g) (\<lambda>g. Q g \<or> Q' g)"
  by (simp add: mergeWith_def)

lemma noGroups_mask: "noGroups = groupMatch (\<lambda>_. False) (\<lambda>_. False)"
  by (simp add: noGroups_def gmask_def)

section \<open>Items on a settled context\<close>

definition item_sem :: "env \<Rightarrow> InboundContext \<Rightarrow> simple_item \<Rightarrow> bool" where
  "item_sem E c i = fst (simple_Match E i c)"

lemma simple_Match_settled [simp]:
  "settled c \<Longrightarrow> simple_Match E i c = (item_sem E c i, c)"
  by (cases i) (auto simp: item_sem_def ProcessItem_Match_def ProcessPathItem_Match_def split: option.splits)

lemma matchAnyItem_settled [simp]:
  "settled c \<Longrightarrow> matchAnyItem E xs c = (list_ex (item_sem E c) xs, c)"
  by (induction xs) (auto split: bool.splits)

lemma matchAllItems_settled [simp]:
  "settled c \<Longrightarrow> matchAllItems E xs c = (list_all (item_sem E c) xs, c)"
  by (induction xs) (auto split: bool.splits)

lemma evaluateGroup_settled:
  "settled c \<Longrightarrow> evaluateGroup E cond (group_bit g) xs (groupMatch P Q, c) =
     (groupMatch (P(g := P g \<or> cond)) (Q(g := Q g \<or> cond \<and> list_ex (item_sem E c) xs)), c)"
proof -
  have upd: "gmask F OR group_bit g = gmask (F(g := True))" for F
    by (auto simp: gmask_single fun_upd_def intro: arg_cong [of _ _ gmask])
  assume "settled c"
  then show ?thesis
    by (auto simp: evaluateGroup_def upd Let_def fun_upd_idem split: bool.splits)
qed

text \<open>The items of each group, in a context that says where IP-CIDR items look.\<close>

fun group_items :: "ruleFields \<Rightarrow> InboundContext \<Rightarrow> group \<Rightarrow> simple_item list" where
  "group_items r c SourceAddress =
     sourceAddressItems r @ (if IPCIDRMatchSource c then destinationIPCIDRItems r else [])"
| "group_items r c SourcePort = sourcePortItems r"
| "group_items r c DestinationAddress =
     destinationAddressItems r @
       (if \<not> IPCIDRMatchSource c \<and> \<not> IgnoreDestinationIPCIDRMatch c
        then destinationIPCIDRItems r else [])"
| "group_items r c DestinationPort = destinationPortItems r"

definition group_required :: "ruleFields \<Rightarrow> InboundContext \<Rightarrow> group \<Rightarrow> bool" where
  "group_required r c g \<longleftrightarrow> group_items r c g \<noteq> []"

definition group_satisfied :: "env \<Rightarrow> ruleFields \<Rightarrow> InboundContext \<Rightarrow> group \<Rightarrow> bool" where
  "group_satisfied E r c g = list_ex (item_sem E c) (group_items r c g)"

lemma evaluateGroups_settled:
  assumes "settled c"
  shows "evaluateGroups E r c =
    (groupMatch (group_required r c) (group_satisfied E r c), deferIPCIDR r c)"
proof -
  have bits: "ruleMatchSourceAddress = group_bit SourceAddress"
    "ruleMatchSourcePort = group_bit SourcePort"
    "ruleMatchDestinationAddress = group_bit DestinationAddress"
    "ruleMatchDestinationPort = group_bit DestinationPort"
    by simp_all
  have P: "group_required r c = (\<lambda>g. case g of
      SourceAddress \<Rightarrow> sourceAddressItems r \<noteq> [] \<or> destinationIPCIDRMatchesSource r c
    | SourcePort \<Rightarrow> sourcePortItems r \<noteq> []
    | DestinationAddress \<Rightarrow> destinationAddressItems r \<noteq> [] \<or> destinationIPCIDRMatchesDestination r c
    | DestinationPort \<Rightarrow> destinationPortItems r \<noteq> [])"
    by (rule ext) (auto simp: group_required_def destinationIPCIDRMatchesSource_def
        destinationIPCIDRMatchesDestination_def split: group.splits)
  have Q: "group_satisfied E r c = (\<lambda>g. case g of
      SourceAddress \<Rightarrow> list_ex (item_sem E c) (sourceAddressItems r)
        \<or> destinationIPCIDRMatchesSource r c \<and> list_ex (item_sem E c) (destinationIPCIDRItems r)
    | SourcePort \<Rightarrow> list_ex (item_sem E c) (sourcePortItems r)
    | DestinationAddress \<Rightarrow> list_ex (item_sem E c) (destinationAddressItems r)
        \<or> destinationIPCIDRMatchesDestination r c \<and> list_ex (item_sem E c) (destinationIPCIDRItems r)
    | DestinationPort \<Rightarrow> list_ex (item_sem E c) (destinationPortItems r))"
    by (rule ext) (auto simp: group_satisfied_def destinationIPCIDRMatchesSource_def
        destinationIPCIDRMatchesDestination_def split: group.splits)
  have ex: "xs \<noteq> [] \<and> list_ex f xs \<longleftrightarrow> list_ex f xs" for f and xs :: "simple_item list"
    by (cases xs) auto
  show ?thesis
    unfolding evaluateGroups_def Let_def bits noGroups_mask
    by (simp only: evaluateGroup_settled [OF assms] fst_conv snd_conv P Q ex
        prod.inject ruleGroupMatch.ext_inject simp_thms)
      (intro conjI arg_cong [of _ _ gmask] ext; simp split: group.splits)
qed

section \<open>Meaning of rules\<close>

text \<open>
  \<open>rule_sem E r c\<close>: the rule holds of the metadata. \<open>outer_sem\<close> is a rule-set
  item seen from the groups its rule requires (\<open>P\<close>) and satisfies (\<open>Q\<close>): some
  set matches, and a mergeable set may complete the groups.
\<close>

definition withFlags :: "bool \<Rightarrow> bool \<Rightarrow> InboundContext \<Rightarrow> InboundContext" where
  "withFlags matchSource acceptEmpty c =
     c\<lparr>IPCIDRMatchSource := matchSource, IPCIDRAcceptEmpty := acceptEmpty\<rparr>"

definition merged_sem ::
  "env \<Rightarrow> ruleFields \<Rightarrow> (group \<Rightarrow> bool) \<Rightarrow> (group \<Rightarrow> bool) \<Rightarrow> InboundContext \<Rightarrow> bool" where
  "merged_sem E b P Q c \<longleftrightarrow>
     list_all (item_sem E c) (items b) \<and>
     list_all (\<lambda>g. P g \<or> group_required b c g \<longrightarrow> Q g \<or> group_satisfied E b c g) all_groups"

primrec rule_sem :: "env \<Rightarrow> HeadlessRule \<Rightarrow> InboundContext \<Rightarrow> bool"
  and default_sem :: "env \<Rightarrow> abstractDefaultRule \<Rightarrow> InboundContext \<Rightarrow> bool"
  and set_sem :: "env \<Rightarrow> RuleSet \<Rightarrow> InboundContext \<Rightarrow> bool"
  and outer_sem ::
    "env \<Rightarrow> RuleSetItem \<Rightarrow> (group \<Rightarrow> bool) \<Rightarrow> (group \<Rightarrow> bool) \<Rightarrow> InboundContext \<Rightarrow> bool" where
  "rule_sem E (DefaultHeadlessRule r) = default_sem E r"
| "rule_sem E (DefaultRule r) = default_sem E r"
| "rule_sem E (DefaultDNSRule r matchResponse tag) = (\<lambda>c.
     if \<not> matchResponse then default_sem E r c
     else case (if tag \<noteq> [] then NamedDNSResponses c tag else DNSResponse c) of
       None \<Rightarrow> invert r
     | Some response \<Rightarrow> default_sem E r
         (c\<lparr>DNSResponse := Some response, DestinationAddressMatchFromResponse := True\<rparr>))"
| "rule_sem E (LogicalRule rules mode inverted) = (\<lambda>c.
     (if mode = ''and'' then list_all (\<lambda>sem. sem (withFlags False False c)) (map (rule_sem E) rules)
      else list_ex (\<lambda>sem. sem (withFlags False False c)) (map (rule_sem E) rules)) \<noteq> inverted)"
| "default_sem E (AbstractDefaultRule r setItem inverted) = (\<lambda>c.
     allItems r = [] \<or>
     (list_all (item_sem E c) (items r) \<and>
      (case map_option (outer_sem E) setItem of
         None \<Rightarrow> list_all (\<lambda>g. group_required r c g \<longrightarrow> group_satisfied E r c g) all_groups
       | Some sem \<Rightarrow> sem (group_required r c) (group_satisfied E r c) c)) \<noteq> inverted)"
| "set_sem E (RuleSet tag rules md) = (\<lambda>c. list_ex (\<lambda>sem. sem c) (map (rule_sem E) rules))"
| "outer_sem E (RuleSetItem tags sets matchSource acceptEmpty) = (\<lambda>P Q c.
     list_ex (\<lambda>(sem, mergeable).
       case mergeable of
         Some b \<Rightarrow> merged_sem E b P Q (withFlags matchSource acceptEmpty c)
       | None \<Rightarrow> list_all (\<lambda>g. P g \<longrightarrow> Q g) all_groups \<and> sem (withFlags matchSource acceptEmpty c))
       (map (\<lambda>s. (set_sem E s, mergeableRule s)) sets))"

section \<open>Matching computes the meaning\<close>

text \<open>
  A clean context: the process is settled and the match caches are reset, as
  the routers leave it before each rule. Here IP-CIDR items are not ignored.
\<close>

definition clean :: "InboundContext \<Rightarrow> bool" where
  "clean c \<longleftrightarrow> settled c \<and> \<not> SourceAddressMatch c \<and> \<not> SourcePortMatch c
     \<and> \<not> DestinationAddressMatch c \<and> \<not> DestinationPortMatch c \<and> DeferredIPCIDRMatchGroups c = 0"

definition full :: "InboundContext \<Rightarrow> bool" where
  "full c \<longleftrightarrow> clean c \<and> \<not> IgnoreDestinationIPCIDRMatch c"

definition computes :: "matcher \<Rightarrow> (InboundContext \<Rightarrow> bool) \<Rightarrow> bool" where
  "computes m sem \<longleftrightarrow> (\<forall>c. full c \<longrightarrow> m c = (sem c, c))"

lemma computesD: "computes m sem \<Longrightarrow> full c \<Longrightarrow> m c = (sem c, c)"
  by (simp add: computes_def)

lemma full_settled [simp]: "full c \<Longrightarrow> settled c"
  by (simp add: full_def clean_def)

lemma clean_Reset [simp]: "clean c \<Longrightarrow> ResetRuleMatchCache c = c"
  by (simp add: clean_def ResetRuleMatchCache_def)

lemma full_clean [simp]: "full c \<Longrightarrow> clean c"
  by (simp add: full_def)

lemma Deferred_Reset [simp]: "DeferredIPCIDRMatchGroups (ResetRuleMatchCache c) = 0"
  by (simp add: ResetRuleMatchCache_def)

lemma full_Deferred [simp]: "full c \<Longrightarrow> DeferredIPCIDRMatchGroups c = 0"
  by (simp add: full_def clean_def)

lemma full_withFlags [simp]: "full (withFlags a b c) = full c"
  by (simp add: full_def clean_def withFlags_def settled_def)

lemma full_response [simp]:
  "full (c\<lparr>DNSResponse := r, DestinationAddressMatchFromResponse := b\<rparr>) = full c"
  by (simp add: full_def clean_def settled_def)

lemma ResetRuleCache_withFlags: "ResetRuleCache c = withFlags False False (ResetRuleMatchCache c)"
  by (simp add: ResetRuleCache_def ResetRuleMatchCache_def withFlags_def)

lemma prepareNestedMatch_withFlags:
  "prepareNestedMatch a b c = withFlags a b (ResetRuleMatchCache c)"
  by (simp add: prepareNestedMatch_def withFlags_def)

lemma withFlags_withFlags [simp]: "withFlags a b (withFlags a' b' c) = withFlags a b c"
  by (simp add: withFlags_def)

lemma restore_snapshot [simp]:
  "full c \<Longrightarrow> restore (snapshotRuleMatch c) c = c"
  "full c \<Longrightarrow> restore (snapshotRuleMatch c) (withFlags a b c) = c"
  by (simp_all add: restore_def snapshotRuleMatch_def withFlags_def)

lemma leave_snapshot [simp]:
  "full c \<Longrightarrow> leave (snapshotRuleMatch c) m 0 c = c"
  "full c \<Longrightarrow> leave (snapshotRuleMatch c) m 0 (withFlags a b c) = c"
  by (simp_all add: leave_def Let_def)

lemma deferIPCIDR_full [simp]: "full c \<Longrightarrow> deferIPCIDR r c = c"
  by (simp add: deferIPCIDR_def full_def)

lemma and_not_0 [simp]: "and_not 0 a = 0"
  by (simp add: and_not_def)

lemma Deferred_self [simp]:
  "full c \<Longrightarrow> c\<lparr>DeferredIPCIDRMatchGroups := 0\<rparr> = c"
  using full_Deferred [of c] by simp

lemma evaluateForMerge_full:
  "full c \<Longrightarrow> evaluateForMerge E b c =
     (if list_all (item_sem E c) (items b)
      then Some (groupMatch (group_required b c) (group_satisfied E b c)) else None, c)"
  by (simp add: evaluateForMerge_def evaluateGroups_settled split: bool.splits)

lemma anyHeadlessLoop_computes:
  assumes "list_all2 computes ms sems" "full c"
  shows "anyHeadlessLoop ms (snapshotRuleMatch c) False 0 c = (list_ex (\<lambda>s. s c) sems, c)"
  using assms(1) by induction (auto simp: computesD assms(2) split: bool.splits)

lemma outerGroupsLoop_computes:
  assumes "list_all2 (\<lambda>(m, b) (s, b'). computes m s \<and> b' = b) ms sems" "full c"
  shows "outerGroupsLoop E ms' ae (groupMatch P Q) ms (snapshotRuleMatch c) False 0 (withFlags ms'' ae'' c) =
      (list_ex (\<lambda>(s, b). case b of
          Some b \<Rightarrow> merged_sem E b P Q (withFlags ms' ae c)
        | None \<Rightarrow> (\<forall>g. P g \<longrightarrow> Q g) \<and> s (withFlags ms' ae c)) sems, c)"
  using assms(1)
proof (induction arbitrary: ms'' ae'')
  case (Cons x ms y sems)
  obtain m b where x: "x = (m, b)" by (cases x)
  with Cons.hyps obtain s where y: "y = (s, b)" and m: "computes m s" by (cases y) auto
  let ?c = "withFlags ms' ae c"
  have prep: "prepareNestedMatch ms' ae (withFlags ms'' ae'' c) = ?c"
    using assms(2) by (simp add: prepareNestedMatch_withFlags)
  have snap: "snapDeferredGroups (snapshotRuleMatch c) = 0"
    using assms(2) by (simp add: snapshotRuleMatch_def)
  show ?case
  proof (cases b)
    case None
    then show ?thesis using Cons.IH [of ms' ae] assms(2) computesD [OF m, of ?c]
      by (auto simp: x y prep Let_def split: bool.splits)
  next
    case (Some f)
    then show ?thesis using Cons.IH [of ms' ae] assms(2)
      by (auto simp: x y prep snap evaluateForMerge_full merged_sem_def Let_def)
  qed
qed (use assms(2) in simp)

lemma withFlags_self: "c = withFlags (IPCIDRMatchSource c) (IPCIDRAcceptEmpty c) c"
  by (simp add: withFlags_def)

lemma ResetRuleCache_full [simp]:
  "full c \<Longrightarrow> ResetRuleCache (withFlags a b c) = withFlags False False c"
  by (simp add: ResetRuleCache_withFlags)

lemma logicalAndLoop_computes:
  assumes "list_all2 computes ms sems" "full c"
  shows "logicalAndLoop ms 0 (withFlags a b c) =
    (list_all (\<lambda>s. s (withFlags False False c)) sems, 0,
     if ms = [] then withFlags a b c else withFlags False False c)"
  using assms(1)
proof (induction arbitrary: a b)
  case (Cons m ms s sems)
  then show ?case
    using assms(2) computesD [OF Cons.hyps(1), of "withFlags False False c"]
    by (auto split: bool.splits)
qed simp

lemma logicalOrLoop_computes:
  assumes "list_all2 computes ms sems" "full c"
  shows "logicalOrLoop ms False 0 (withFlags a b c) =
    (list_ex (\<lambda>s. s (withFlags False False c)) sems, 0,
     if ms = [] then withFlags a b c else withFlags False False c)"
  using assms(1)
proof (induction arbitrary: a b)
  case (Cons m ms s sems)
  then show ?case
    using assms(2) computesD [OF Cons.hyps(1), of "withFlags False False c"]
    by (auto split: bool.splits)
qed simp

lemma logicalRuleMatch_computes:
  assumes "list_all2 computes ms sems"
  shows "computes (logicalRuleMatch ms mode inverted) (\<lambda>c.
    (if mode = ''and'' then list_all (\<lambda>s. s (withFlags False False c)) sems
     else list_ex (\<lambda>s. s (withFlags False False c)) sems) \<noteq> inverted)"
  unfolding computes_def
proof (intro allI impI)
  fix c assume c: "full c"
  have "logicalAndLoop ms 0 c = (list_all (\<lambda>s. s (withFlags False False c)) sems, 0,
      if ms = [] then c else withFlags False False c)"
    "logicalOrLoop ms False 0 c = (list_ex (\<lambda>s. s (withFlags False False c)) sems, 0,
      if ms = [] then c else withFlags False False c)"
    using logicalAndLoop_computes [OF assms c, of "IPCIDRMatchSource c" "IPCIDRAcceptEmpty c"]
      logicalOrLoop_computes [OF assms c, of "IPCIDRMatchSource c" "IPCIDRAcceptEmpty c"]
    by (simp_all add: withFlags_self [symmetric])
  then show "logicalRuleMatch ms mode inverted c = ((if mode = ''and''
      then list_all (\<lambda>s. s (withFlags False False c)) sems
      else list_ex (\<lambda>s. s (withFlags False False c)) sems) \<noteq> inverted, c)"
    using c by (auto simp: logicalRuleMatch_def)
qed

lemma matchInner_computes:
  assumes "rel_option (\<lambda>m s. \<forall>P Q. computes (m (groupMatch P Q)) (s P Q)) m sem" "full c"
  shows "matchInner E r m c =
    (list_all (item_sem E c) (items r) \<and>
     (case sem of
        None \<Rightarrow> \<forall>g. group_required r c g \<longrightarrow> group_satisfied E r c g
      | Some s \<Rightarrow> s (group_required r c) (group_satisfied E r c) c), c)"
proof (cases m)
  case None
  then show ?thesis using assms
    by (auto simp: matchInner_def evaluateGroups_settled split: bool.splits)
next
  case (Some f)
  then obtain s where "sem = Some s"
    and f: "computes (f (groupMatch P Q)) (s P Q)" for P Q
    using assms(1) by (cases sem) auto
  then show ?thesis
    using assms(2) Some
      computesD [OF f [of "group_required r c" "group_satisfied E r c"] assms(2)]
    by (auto simp: matchInner_def evaluateGroups_settled split: bool.splits)
qed

lemma defaultRuleMatch_computes:
  assumes "rel_option (\<lambda>m s. \<forall>P Q. computes (m (groupMatch P Q)) (s P Q)) m sem"
  shows "computes (defaultRuleMatch E r m inverted) (\<lambda>c.
    allItems r = [] \<or>
    (list_all (item_sem E c) (items r) \<and>
     (case sem of
        None \<Rightarrow> list_all (\<lambda>g. group_required r c g \<longrightarrow> group_satisfied E r c g) all_groups
      | Some s \<Rightarrow> s (group_required r c) (group_satisfied E r c) c)) \<noteq> inverted)"
  unfolding computes_def
  by (cases sem) (auto simp: defaultRuleMatch_def matchInner_computes [OF assms])

lemma list_all2_map_computes:
  "(\<And>x. x \<in> set xs \<Longrightarrow> computes (f x) (g x)) \<Longrightarrow> list_all2 computes (map f xs) (map g xs)"
  by (simp add: list_all2_map1 list_all2_map2 list_all2_same)

lemma Match_computes:
  "\<forall>P Q. computes (RuleSetItem_matchWithOuterGroups E i (groupMatch P Q)) (outer_sem E i P Q)"
  "computes (RuleSet_Match E s) (set_sem E s)"
  "computes (DefaultRule_Match E d) (default_sem E d)"
  "computes (Rule_Match E r) (rule_sem E r)"
proof (induction i and s and d and r)
  case (RuleSetItem tags sets src emp)
  have rel: "list_all2 (\<lambda>(m, b) (s, b'). computes m s \<and> b' = b)
      (map (\<lambda>s. (RuleSet_Match E s, mergeableRule s)) sets)
      (map (\<lambda>s. (set_sem E s, mergeableRule s)) sets)"
    using RuleSetItem by (simp add: list_all2_map1 list_all2_map2 list_all2_same)
  show ?case
    unfolding computes_def
  proof (intro allI impI)
    fix P Q c assume c: "full c"
    show "RuleSetItem_matchWithOuterGroups E (RuleSetItem tags sets src emp) (groupMatch P Q) c =
      (outer_sem E (RuleSetItem tags sets src emp) P Q c, c)"
      using outerGroupsLoop_computes [OF rel c, of E src emp P Q "IPCIDRMatchSource c" "IPCIDRAcceptEmpty c"]
      by (simp add: matchWithOuterGroups_def withFlags_self [symmetric] split: option.splits cong: list.map_cong)
  qed
next
  case (RuleSet tag rules md)
  then have "list_all2 computes (map (Rule_Match E) rules) (map (rule_sem E) rules)"
    by (intro list_all2_map_computes)
  then show ?case
    by (simp add: computes_def matchAnyHeadlessRule_def anyHeadlessLoop_computes)
next
  case (AbstractDefaultRule r setItem inverted)
  have "rel_option (\<lambda>m s. \<forall>P Q. computes (m (groupMatch P Q)) (s P Q))
      (map_option (RuleSetItem_matchWithOuterGroups E) setItem) (map_option (outer_sem E) setItem)"
    using AbstractDefaultRule by (cases setItem) simp_all
  from defaultRuleMatch_computes [OF this] show ?case by simp
next
  case (DefaultDNSRule d matchResponse tag)
  then show ?case
    by (auto simp: computes_def matchForMatch_def split: option.splits)
next
  case (LogicalRule rules mode inverted)
  then have "list_all2 computes (map (Rule_Match E) rules) (map (rule_sem E) rules)"
    by (intro list_all2_map_computes)
  from logicalRuleMatch_computes [OF this] show ?case by simp
qed simp_all

section \<open>What matching leaves of the metadata\<close>

text \<open>
  In any context, settled or not, matching changes at most the process
  information (when it resolves the process) and the match caches: \<open>view\<close>
  blanks those. In particular the flags a rule-set item or a logical rule sets
  for its nested rules (\<open>inner_view\<close> blanks them too) are put back.
\<close>

definition view :: "InboundContext \<Rightarrow> InboundContext" where
  "view c = c\<lparr>ProcessInfo := None, ProcessInfoResolver := [], SourceAddressMatch := False,
     SourcePortMatch := False, DestinationAddressMatch := False, DestinationPortMatch := False,
     DeferredIPCIDRMatchGroups := 0\<rparr>"

definition inner_view :: "InboundContext \<Rightarrow> InboundContext" where
  "inner_view c = withFlags False False (view c)"

definition keeps :: "matcher \<Rightarrow> bool" where
  "keeps m \<longleftrightarrow> (\<forall>c. view (snd (m c)) = view c)"

lemma keepsD: "keeps m \<Longrightarrow> view (snd (m c)) = view c"
  by (simp add: keeps_def)

lemma view_simps [simp]:
  "view (ResetRuleMatchCache c) = view c"
  "view (c\<lparr>DeferredIPCIDRMatchGroups := d\<rparr>) = view c"
  "view (deferIPCIDR r c) = view c"
  by (simp_all add: view_def ResetRuleMatchCache_def deferIPCIDR_def)

lemma view_ResolveProcessInfo [simp]: "view (snd (ResolveProcessInfo c)) = view c"
proof (cases c rule: settled_cases)
  case (3 f l)
  then show ?thesis by (cases "f ()") (simp_all add: ResolveProcessInfo_def view_def)
qed (simp_all add: ResolveProcessInfo_def)

lemma inner_view_cong: "view c = view c' \<Longrightarrow> inner_view c = inner_view c'"
  by (simp only: inner_view_def)

lemma inner_view_withFlags [simp]: "inner_view (withFlags a b c) = inner_view c"
  by (simp add: inner_view_def withFlags_def view_def)

lemma inner_view_Reset [simp]:
  "inner_view (ResetRuleMatchCache c) = inner_view c"
  "inner_view (ResetRuleCache c) = inner_view c"
  "inner_view (prepareNestedMatch a b c) = inner_view c"
  by (simp_all only: ResetRuleCache_withFlags prepareNestedMatch_withFlags inner_view_withFlags
      inner_view_cong [OF view_simps(1)])

lemma view_restore:
  assumes "inner_view c' = inner_view c"
  shows "view (restore (snapshotRuleMatch c) c') = view c"
proof -
  have "view (restore (snapshotRuleMatch c) c') =
      withFlags (IPCIDRMatchSource c) (IPCIDRAcceptEmpty c) (inner_view c')"
    by (simp add: view_def restore_def snapshotRuleMatch_def inner_view_def withFlags_def)
  also have "\<dots> = withFlags (IPCIDRMatchSource c) (IPCIDRAcceptEmpty c) (inner_view c)"
    by (simp only: assms)
  also have "\<dots> = view c"
    by (simp add: view_def inner_view_def withFlags_def)
  finally show ?thesis .
qed

lemma view_leave:
  "inner_view c' = inner_view c \<Longrightarrow> view (leave (snapshotRuleMatch c) m d c') = view c"
  by (simp add: leave_def Let_def view_restore)

lemma keeps_simple: "view (snd (simple_Match E i c)) = view c"
proof -
  have "snd (simple_Match E i c) = (if resolves_process i then snd (ResolveProcessInfo c) else c)"
    by (cases i) (simp_all add: ProcessItem_Match_def ProcessPathItem_Match_def
        split: prod.split option.split)
  then show ?thesis by simp
qed

lemma keeps_anyItem: "view (snd (matchAnyItem E xs c)) = view c"
proof (induction xs arbitrary: c)
  case (Cons x xs)
  then show ?case using keeps_simple [of E x c] by (auto split: prod.split bool.split)
qed simp

lemma keeps_allItems: "view (snd (matchAllItems E xs c)) = view c"
proof (induction xs arbitrary: c)
  case (Cons x xs)
  then show ?case using keeps_simple [of E x c] by (auto split: prod.split bool.split)
qed simp

lemma keeps_evaluateGroup: "view (snd (evaluateGroup E p t xs s)) = view (snd s)"
  using keeps_anyItem [of E xs "snd s"]
  by (cases s) (auto simp: evaluateGroup_def Let_def split: prod.split bool.split)

lemma keeps_evaluateGroups: "view (snd (evaluateGroups E r c)) = view c"
  by (simp add: evaluateGroups_def Let_def keeps_evaluateGroup)

lemma keeps_evaluateForMerge: "view (snd (evaluateForMerge E r c)) = view c"
proof -
  obtain g c1 where 1: "evaluateGroups E r c = (g, c1)" by (cases "evaluateGroups E r c")
  obtain b c2 where 2: "matchAllItems E (items r) c1 = (b, c2)"
    by (cases "matchAllItems E (items r) c1")
  show ?thesis
    using keeps_evaluateGroups [of E r c] keeps_allItems [of E "items r" c1]
    by (cases b) (simp_all add: evaluateForMerge_def 1 2)
qed

lemma keeps_anyHeadlessLoop:
  assumes "\<And>m. m \<in> set ms \<Longrightarrow> keeps m" "inner_view c' = inner_view c"
  shows "view (snd (anyHeadlessLoop ms (snapshotRuleMatch c) b d c')) = view c"
  using assms
proof (induction ms arbitrary: b d c')
  case (Cons m ms)
  obtain b' c2 where m: "m (ResetRuleMatchCache c') = (b', c2)"
    by (cases "m (ResetRuleMatchCache c')")
  have "view c2 = view c'"
    using keepsD [OF Cons.prems(1) [of m], of "ResetRuleMatchCache c'"] m by simp
  then have c2: "inner_view c2 = inner_view c"
    using Cons.prems(2) inner_view_cong by metis
  show ?case
    using Cons.IH [OF Cons.prems(1) c2] view_restore [OF c2] by (cases b') (simp_all add: m)
qed (simp add: view_leave)

lemma keeps_outerGroupsLoop:
  assumes "\<forall>x \<in> set ms. keeps (fst x)" "inner_view c' = inner_view c"
  shows "view (snd (outerGroupsLoop E src emp g ms (snapshotRuleMatch c) b d c')) = view c"
  using assms
proof (induction ms arbitrary: b d c')
  case (Cons x ms)
  obtain m br where x: "x = (m, br)" by (cases x)
  let ?c = "prepareNestedMatch src emp c'"
  have p: "inner_view ?c = inner_view c" using Cons.prems(2) by simp
  have IH: "inner_view c2 = inner_view c \<Longrightarrow>
      view (snd (outerGroupsLoop E src emp g ms (snapshotRuleMatch c) b d c2)) = view c" for b d c2
    using Cons.IH Cons.prems(1) by simp
  show ?case
  proof (cases br)
    case None
    obtain b' c2 where m: "m ?c = (b', c2)" by (cases "m ?c")
    have "view c2 = view ?c"
      using keepsD [of m ?c] Cons.prems(1) m by (simp add: x)
    then have "inner_view c2 = inner_view c" using p inner_view_cong by metis
    then show ?thesis using IH p by (cases b') (simp_all add: x None m Let_def view_restore)
  next
    case (Some f)
    obtain g' c2 where m: "evaluateForMerge E f ?c = (g', c2)" by (cases "evaluateForMerge E f ?c")
    have "view c2 = view ?c" using keeps_evaluateForMerge [of E f ?c] m by simp
    then have "inner_view c2 = inner_view c" using p inner_view_cong by metis
    then show ?thesis using IH by (cases g') (simp_all add: x Some m Let_def view_restore)
  qed
qed (simp add: view_leave)

lemma keeps_logicalAndLoop:
  assumes "\<And>m. m \<in> set ms \<Longrightarrow> keeps m" "inner_view c' = inner_view c"
  shows "inner_view (snd (snd (logicalAndLoop ms d c'))) = inner_view c"
  using assms
proof (induction ms arbitrary: d c')
  case (Cons m ms)
  obtain b c2 where m: "m (ResetRuleCache c') = (b, c2)" by (cases "m (ResetRuleCache c')")
  have "view c2 = view (ResetRuleCache c')"
    using keepsD [OF Cons.prems(1) [of m], of "ResetRuleCache c'"] m by simp
  then have "inner_view c2 = inner_view c"
    using Cons.prems(2) inner_view_cong inner_view_Reset(2) by metis
  then show ?case using Cons.IH [of c2] Cons.prems(1) by (cases b) (simp_all add: m)
qed simp

lemma keeps_logicalOrLoop:
  assumes "\<And>m. m \<in> set ms \<Longrightarrow> keeps m" "inner_view c' = inner_view c"
  shows "inner_view (snd (snd (logicalOrLoop ms k d c'))) = inner_view c"
  using assms
proof (induction ms arbitrary: k d c')
  case (Cons m ms)
  obtain b c2 where m: "m (ResetRuleCache c') = (b, c2)" by (cases "m (ResetRuleCache c')")
  have "view c2 = view (ResetRuleCache c')"
    using keepsD [OF Cons.prems(1) [of m], of "ResetRuleCache c'"] m by simp
  then have "inner_view c2 = inner_view c"
    using Cons.prems(2) inner_view_cong inner_view_Reset(2) by metis
  then show ?case using Cons.IH [of c2] Cons.prems(1) by (cases b) (simp_all add: m)
qed simp

lemma keeps_logicalRuleMatch:
  "(\<And>m. m \<in> set ms \<Longrightarrow> keeps m) \<Longrightarrow> keeps (logicalRuleMatch ms mode inverted)"
  using keeps_logicalAndLoop [of ms _ _ 0] keeps_logicalOrLoop [of ms _ _ False 0]
  by (auto simp: keeps_def logicalRuleMatch_def Let_def split: prod.split intro!: view_leave)
    (metis snd_conv)+

lemma keeps_matchInner:
  assumes "\<And>f g. m = Some f \<Longrightarrow> keeps (f g)"
  shows "view (snd (matchInner E r m c)) = view c"
proof -
  obtain g c1 where 1: "evaluateGroups E r c = (g, c1)" by (cases "evaluateGroups E r c")
  obtain b c2 where 2: "matchAllItems E (items r) c1 = (b, c2)"
    by (cases "matchAllItems E (items r) c1")
  have v: "view c2 = view c"
    using keeps_evaluateGroups [of E r c] keeps_allItems [of E "items r" c1] 1 2 by simp
  show ?thesis
  proof (cases m)
    case None
    then show ?thesis using v by (auto simp: matchInner_def 1 2 split: bool.split)
  next
    case (Some f)
    obtain b' c3 where 3: "f g c2 = (b', c3)" by (cases "f g c2")
    have "view c3 = view c" using keepsD [OF assms [OF Some], of g c2] v 3 by simp
    then show ?thesis using v by (auto simp: matchInner_def 1 2 3 Some split: bool.split)
  qed
qed

lemma Match_keeps:
  "\<forall>g. keeps (RuleSetItem_matchWithOuterGroups E i g)"
  "keeps (RuleSet_Match E s)"
  "keeps (DefaultRule_Match E d)"
  "keeps (Rule_Match E r)"
proof (induction i and s and d and r)
  case (RuleSetItem tags sets src emp)
  then show ?case
    by (auto simp: keeps_def matchWithOuterGroups_def
        intro!: keeps_outerGroupsLoop [unfolded keeps_def])
next
  case (RuleSet tag rules md)
  then show ?case
    by (auto simp: keeps_def matchAnyHeadlessRule_def
        intro!: keeps_anyHeadlessLoop [unfolded keeps_def])
next
  case (AbstractDefaultRule r setItem inverted)
  have "view (snd (matchInner E r (map_option (RuleSetItem_matchWithOuterGroups E) setItem) c)) = view c" for c
    using AbstractDefaultRule by (intro keeps_matchInner) auto
  then show ?case
    by (auto simp: keeps_def defaultRuleMatch_def split: prod.split) (metis snd_conv)+
next
  case (DefaultDNSRule d matchResponse tag)
  then show ?case
    by (auto simp: keeps_def matchForMatch_def split: option.splits)
next
  case (LogicalRule rules mode inverted)
  then show ?case by (auto intro!: keeps_logicalRuleMatch)
qed simp_all

end
