(* ===== verification/RuleConfig.thy ===== *)
theory RuleConfig
  imports RuleBuild RuleSemantics "HOL-Library.Multiset"
begin

text \<open>
  From the configuration to the meaning of the rule it builds: every condition
  ends up in the list of its group and in \<open>allItems\<close>, and a rule matches
  exactly when the formula of the documentation holds of its options.
\<close>

section \<open>Where the steps put items\<close>

definition step_items :: "slot \<Rightarrow> step \<Rightarrow> simple_item list" where
  "step_items slot s = (case s of Inr (Some (slot', i)) \<Rightarrow> if slot' = slot then [i] else [] | _ \<Rightarrow> [])"

definition steps_items :: "slot \<Rightarrow> step list \<Rightarrow> simple_item list" where
  "steps_items slot ss = concat (map (step_items slot) ss)"

lemma steps_items_simps [simp]:
  "steps_items slot [] = []"
  "steps_items slot (s # ss) = step_items slot s @ steps_items slot ss"
  "steps_items slot (ss @ ss') = steps_items slot ss @ steps_items slot ss'"
  by (simp_all add: steps_items_def)

definition step_all :: "step \<Rightarrow> RuleItem list" where
  "step_all s = (case s of Inr (Some (_, i)) \<Rightarrow> [Item i] | _ \<Rightarrow> [])"

fun slot_list :: "slot \<Rightarrow> ruleFields \<Rightarrow> simple_item list" where
  "slot_list SlotItems r = items r"
| "slot_list SlotSourceAddress r = sourceAddressItems r"
| "slot_list SlotSourcePort r = sourcePortItems r"
| "slot_list SlotDestinationAddress r = destinationAddressItems r"
| "slot_list SlotDestinationIPCIDR r = destinationIPCIDRItems r"
| "slot_list SlotDestinationPort r = destinationPortItems r"

lemma slot_list_addItem:
  "slot_list slot (addItem slot' i r) = slot_list slot r @ (if slot' = slot then [i] else [])"
  by (cases slot; cases slot') simp_all

lemma allItems_addItem [simp]: "allItems (addItem slot i r) = allItems r @ [Item i]"
  by (cases slot) simp_all

lemma strategy_addItem [simp]: "domainMatchStrategy (addItem slot i r) = domainMatchStrategy r"
  by (cases slot) simp_all

lemma runSteps_slot:
  "runSteps ss r = Inr r' \<Longrightarrow> slot_list slot r' = slot_list slot r @ steps_items slot ss"
  by (induction ss r rule: runSteps.induct) (auto simp: slot_list_addItem step_items_def)

lemma runSteps_all:
  "runSteps ss r = Inr r' \<Longrightarrow> allItems r' = allItems r @ concat (map step_all ss)"
  by (induction ss r rule: runSteps.induct) (auto simp: step_all_def)

lemma runSteps_no_error: "runSteps ss r = Inr r' \<Longrightarrow> s \<in> set ss \<Longrightarrow> s \<noteq> Inl err"
  by (induction ss r rule: runSteps.induct) auto

lemma runSteps_total: "(\<forall>s \<in> set ss. \<not> isl s) \<Longrightarrow> \<exists>r'. runSteps ss r = Inr r'"
  by (induction ss r rule: runSteps.induct) auto

lemma slot_list_empty [simp]: "slot_list slot (emptyFields st) = []" "allItems (emptyFields st) = []"
  by (cases slot; simp add: emptyFields_def)+

lemmas runSteps_items = runSteps_slot [where slot = SlotItems, simplified]
lemmas runSteps_groups =
  runSteps_slot [where slot = SlotSourceAddress, simplified]
  runSteps_slot [where slot = SlotSourcePort, simplified]
  runSteps_slot [where slot = SlotDestinationAddress, simplified]
  runSteps_slot [where slot = SlotDestinationIPCIDR, simplified]
  runSteps_slot [where slot = SlotDestinationPort, simplified]

section \<open>Well-formed rules\<close>

text \<open>
  The items of \<open>allItems\<close> are those of the six lists, each once: so a rule has
  no items at all exactly when all its lists are empty and it names no sets.
\<close>

fun plain_items :: "RuleItem list \<Rightarrow> simple_item list" where
  "plain_items [] = []"
| "plain_items (Item i # rest) = i # plain_items rest"
| "plain_items (TheRuleSetItem # rest) = plain_items rest"

lemma plain_items_append [simp]: "plain_items (xs @ ys) = plain_items xs @ plain_items ys"
  by (induction xs rule: plain_items.induct) simp_all

definition wf_items :: "ruleFields \<Rightarrow> bool" where
  "wf_items r \<longleftrightarrow> mset (plain_items (allItems r)) =
     mset (items r) + mset (sourceAddressItems r) + mset (sourcePortItems r)
     + mset (destinationAddressItems r) + mset (destinationIPCIDRItems r)
     + mset (destinationPortItems r)"

lemma wf_items_addItem: "wf_items r \<Longrightarrow> wf_items (addItem slot i r)"
  by (cases slot) (simp_all add: wf_items_def)

lemma wf_items_runSteps: "runSteps ss r = Inr r' \<Longrightarrow> wf_items r \<Longrightarrow> wf_items r'"
  by (induction ss r rule: runSteps.induct) (auto intro: wf_items_addItem)

lemma wf_items_empty: "wf_items (emptyFields st)"
  by (simp add: wf_items_def emptyFields_def)

text \<open>The list an item belongs in: conditions on addresses and ports have their groups.\<close>

fun kind :: "simple_item \<Rightarrow> slot" where
  "kind (IPCIDRItem _ isSource _) = (if isSource then SlotSourceAddress else SlotDestinationIPCIDR)"
| "kind (IPIsPrivateItem isSource) = (if isSource then SlotSourceAddress else SlotDestinationIPCIDR)"
| "kind IPAcceptAnyItem = SlotDestinationIPCIDR"
| "kind (PortItem _ _ isSource) = (if isSource then SlotSourcePort else SlotDestinationPort)"
| "kind (PortRangeItem isSource _ _) = (if isSource then SlotSourcePort else SlotDestinationPort)"
| "kind (DomainItem _ _ _) = SlotDestinationAddress"
| "kind (DomainKeywordItem _ _) = SlotDestinationAddress"
| "kind (DomainRegexItem _ _ _) = SlotDestinationAddress"
| "kind (AdGuardDomainItem _ _) = SlotDestinationAddress"
| "kind _ = SlotItems"

definition well_placed :: "ruleFields \<Rightarrow> bool" where
  "well_placed r \<longleftrightarrow> (\<forall>slot. \<forall>i \<in> set (slot_list slot r). kind i = slot)"

definition step_placed :: "step \<Rightarrow> bool" where
  "step_placed s = (case s of Inr (Some (slot, i)) \<Rightarrow> kind i = slot | _ \<Rightarrow> True)"

lemma well_placed_addItem: "kind i = slot \<Longrightarrow> well_placed r \<Longrightarrow> well_placed (addItem slot i r)"
  unfolding well_placed_def slot_list_addItem by (intro allI ballI) (simp split: if_splits, blast)

lemma well_placed_runSteps:
  "runSteps ss r = Inr r' \<Longrightarrow> list_all step_placed ss \<Longrightarrow> well_placed r \<Longrightarrow> well_placed r'"
  by (induction ss r rule: runSteps.induct) (simp_all add: step_placed_def well_placed_addItem)

lemma well_placed_empty: "well_placed (emptyFields st)"
  by (simp add: well_placed_def)

lemma step_placed_add [simp]: "step_placed (add cond slot i) \<longleftrightarrow> (cond \<longrightarrow> kind i = slot)"
  by (simp add: step_placed_def add_def)

lemma step_placed_failIf [simp]: "step_placed (failIf cond err)"
  by (simp add: step_placed_def failIf_def)

lemma step_placed_None [simp]: "step_placed (Inr None)"
  by (simp add: step_placed_def)

lemma step_placed_ipVersion [simp]: "step_placed (ipVersionStep v)"
  by (simp add: step_placed_def ipVersionStep_def)

lemma step_placed_addE [simp]:
  "step_placed (addE cond cause slot res) \<longleftrightarrow> (\<forall>i. cond \<longrightarrow> res = Inr i \<longrightarrow> kind i = slot)"
  by (cases res) (auto simp: step_placed_def addE_def)

lemma step_placed_addOrRaw [simp]:
  "step_placed (addOrRaw s cond slot raw) \<longleftrightarrow>
     (if cond then step_placed s else (\<forall>i. raw = Some i \<longrightarrow> kind i = slot))"
  by (auto simp: step_placed_def addOrRaw_def split: option.splits)

lemma kind_New [simp]:
  "NewDomainItem E ds ss st = Inr i \<Longrightarrow> kind i = SlotDestinationAddress"
  "NewDomainRegexItem E rs st = Inr i \<Longrightarrow> kind i = SlotDestinationAddress"
  "NewIPCIDRItem E b ps = Inr i \<Longrightarrow> kind i = (if b then SlotSourceAddress else SlotDestinationIPCIDR)"
  "NewPortRangeItem b rl = Inr i \<Longrightarrow> kind i = (if b then SlotSourcePort else SlotDestinationPort)"
  "NewProcessPathRegexItem E rs = Inr i \<Longrightarrow> kind i = SlotItems"
  "NewPackageNameRegexItem E rs = Inr i \<Longrightarrow> kind i = SlotItems"
proof -
  show "NewDomainItem E ds ss st = Inr i \<Longrightarrow> kind i = SlotDestinationAddress"
    by (auto simp: NewDomainItem_def Let_def split: if_splits)
  show "NewDomainRegexItem E rs st = Inr i \<Longrightarrow> kind i = SlotDestinationAddress"
    by (cases "compileAll E 0 rs") (auto simp: NewDomainRegexItem_def)
  show "NewIPCIDRItem E b ps = Inr i \<Longrightarrow> kind i = (if b then SlotSourceAddress else SlotDestinationIPCIDR)"
    by (cases "BuildIPSet E ps") (auto simp: NewIPCIDRItem_def Let_def)
  show "NewPortRangeItem b rl = Inr i \<Longrightarrow> kind i = (if b then SlotSourcePort else SlotDestinationPort)"
    by (cases "parsePortRanges rl") (auto simp: NewPortRangeItem_def)
  show "NewProcessPathRegexItem E rs = Inr i \<Longrightarrow> kind i = SlotItems"
    by (cases "compileAll E 0 rs") (auto simp: NewProcessPathRegexItem_def)
  show "NewPackageNameRegexItem E rs = Inr i \<Longrightarrow> kind i = SlotItems"
    by (cases "compileAll E 0 rs") (auto simp: NewPackageNameRegexItem_def)
qed

lemmas New_defs =
  NewInboundRule_def NewNetworkItem_def NewAuthUserItem_def NewProtocolItem_def NewClientItem_def
  NewDomainKeywordItem_def NewPortItem_def NewProcessItem_def NewProcessPathItem_def
  NewPackageNameItem_def NewUserItem_def NewUserIDItem_def NewClashModeItem_def
  NewWIFISSIDItem_def NewWIFIBSSIDItem_def NewInterfaceAddressItem_def
  NewNetworkInterfaceAddressItem_def NewDefaultInterfaceAddressItem_def
  NewSourceMACAddressItem_def NewSourceHostnameItem_def NewPreferredByItem_def
  NewDNSServerAddressItem_def NewDNSSearchDomainItem_def NewQueryTypeItem_def
  NewQueryClientSubnetItem_def NewDNSResponseRecordItem_def NewOutboundRule_def
  NewPreferredByDNSItem_def NewAdGuardDomainItem_def NewRawAdGuardDomainItem_def
  NewRawDomainItem_def NewRawIPCIDRItem_def

lemma shared_steps_placed [simp]:
  "list_all step_placed (processSteps E options)"
  "list_all step_placed (networkSteps options)"
  "list_all step_placed (interfaceSteps E options)"
  by (simp_all add: processSteps_def networkSteps_def interfaceSteps_def New_defs)

lemma route_steps_placed: "list_all step_placed (NewDefaultRule_steps E st options)"
  by (simp add: NewDefaultRule_steps_def NewDefaultRule_addressSteps_def New_defs)

lemma headless_steps_placed: "list_all step_placed (NewDefaultHeadlessRule_steps E nm st options)"
  by (auto simp: NewDefaultHeadlessRule_steps_def NewDefaultHeadlessRule_addressSteps_def New_defs)

lemma dns_steps_placed: "list_all step_placed (NewDefaultDNSRule_steps E legacy options)"
  by (cases "opt_ResponseRcode options")
    (auto simp: NewDefaultDNSRule_steps_def NewDefaultDNSRule_addressSteps_def
      NewDefaultDNSRule_responseSteps_def New_defs)

definition wf_default :: "abstractDefaultRule \<Rightarrow> bool" where
  "wf_default d \<longleftrightarrow> wf_items (defaultFields d) \<and> well_placed (defaultFields d)
     \<and> (TheRuleSetItem \<in> set (allItems (defaultFields d)) \<longleftrightarrow> ruleSetItem d \<noteq> None)"

primrec wf_rule :: "HeadlessRule \<Rightarrow> bool" where
  "wf_rule (DefaultHeadlessRule d) = wf_default d"
| "wf_rule (DefaultRule d) = wf_default d"
| "wf_rule (DefaultDNSRule d _ _) = wf_default d"
| "wf_rule (LogicalRule rules mode _) = ((mode = ''and'' \<or> mode = ''or'') \<and> list_all id (map wf_rule rules))"

lemma TheRuleSetItem_runSteps:
  "runSteps ss r = Inr r' \<Longrightarrow> TheRuleSetItem \<notin> set (allItems r) \<Longrightarrow> TheRuleSetItem \<notin> set (allItems r')"
  by (induction ss r rule: runSteps.induct) simp_all

lemma wf_withRuleSet:
  assumes "runSteps ss (emptyFields st) = Inr r" "list_all step_placed ss"
    "withRuleSet acceptEmpty options r = Inr d"
  shows "wf_default d"
proof -
  have "wf_items r" using wf_items_runSteps [OF assms(1) wf_items_empty] .
  moreover have "well_placed r" using well_placed_runSteps [OF assms(1,2) well_placed_empty] .
  moreover have "TheRuleSetItem \<notin> set (allItems r)" using TheRuleSetItem_runSteps [OF assms(1)] by simp
  moreover have "slot_list slot (r\<lparr>allItems := x\<rparr>) = slot_list slot r" for slot x
    by (cases slot) simp_all
  ultimately show ?thesis using assms(3)
    by (auto simp: withRuleSet_def wf_default_def wf_items_def well_placed_def split: if_splits)
qed

lemma NewDefaultRule_built:
  assumes "NewDefaultRule E rd options a = Inr b"
  obtains r d where
    "runSteps (NewDefaultRule_steps E (ruleStrategy rd (opt_DomainMatchStrategy options)) options)
       (emptyFields (ruleStrategy rd (opt_DomainMatchStrategy options))) = Inr r"
    "withRuleSet False options r = Inr d" "builtHeadless b = DefaultRule d"
  using assms by (auto simp: NewDefaultRule_def Let_def split: sum.splits)

lemma wf_NewRule:
  "NewRule E rd options chk = Inr b \<Longrightarrow> wf_rule (builtHeadless b)"
  "newSubRules E rd i rules = Inr bs \<Longrightarrow> list_all wf_rule bs"
proof (induction E rd options chk and E rd i rules arbitrary: b and bs rule: NewRule_newSubRules.induct)
  case (1 E d options action chk)
  then have "NewDefaultRule E d options action = Inr b" by (simp split: if_splits)
  then show ?case
    by (rule NewDefaultRule_built) (auto dest: wf_withRuleSet [OF _ route_steps_placed])
next
  case (2 E d mode rules inverted action chk)
  then show ?case
    by (fastforce simp: logicalMode_def list_all_iff split: if_splits sum.splits)
next
  case (5 E d i sub rest)
  then show ?case by (auto split: option.splits sum.splits)
qed simp_all

text \<open>Headless rules never name rule sets, so a rule set cannot contain another.\<close>

primrec no_rule_set :: "HeadlessRule \<Rightarrow> bool" where
  "no_rule_set (DefaultHeadlessRule d) \<longleftrightarrow> ruleSetItem d = None"
| "no_rule_set (DefaultRule d) \<longleftrightarrow> False"
| "no_rule_set (DefaultDNSRule d _ _) \<longleftrightarrow> False"
| "no_rule_set (LogicalRule rules _ _) \<longleftrightarrow> list_all id (map no_rule_set rules)"

lemma wf_NewDefaultHeadlessRule:
  assumes "NewDefaultHeadlessRule E nm rd options = Inr h"
  shows "wf_rule h \<and> no_rule_set h"
proof -
  let ?st = "ruleStrategy rd (opt_DomainMatchStrategy options)"
  obtain r where r: "runSteps (NewDefaultHeadlessRule_steps E nm ?st options) (emptyFields ?st) = Inr r"
    and h: "h = DefaultHeadlessRule (AbstractDefaultRule
      (r\<lparr>ruleCount := word_of_nat (headlessRuleCount r)\<rparr>) None (opt_Invert options))"
    using assms by (auto simp: NewDefaultHeadlessRule_def Let_def)
  have "wf_items r" using wf_items_runSteps [OF r wf_items_empty] .
  moreover have "well_placed r" using well_placed_runSteps [OF r headless_steps_placed well_placed_empty] .
  moreover have "TheRuleSetItem \<notin> set (allItems r)" using TheRuleSetItem_runSteps [OF r] by simp
  moreover have "slot_list slot (r\<lparr>ruleCount := x\<rparr>) = slot_list slot r" for slot x
    by (cases slot) simp_all
  ultimately show ?thesis by (simp add: h wf_default_def wf_items_def well_placed_def)
qed

lemma wf_NewHeadlessRule:
  "NewHeadlessRule E nm rd options = Inr h \<Longrightarrow> wf_rule h \<and> no_rule_set h"
  "newHeadlessSubRules E nm rd i rules = Inr hs \<Longrightarrow> list_all (\<lambda>h. wf_rule h \<and> no_rule_set h) hs"
proof (induction E nm rd options and E nm rd i rules arbitrary: h and hs
    rule: NewHeadlessRule_newHeadlessSubRules.induct)
  case (1 E nm d options)
  then show ?case using wf_NewDefaultHeadlessRule by (simp split: if_splits)
next
  case (2 E nm d mode rules inverted)
  then show ?case
    by (fastforce simp: logicalMode_def list_all_iff split: if_splits sum.splits)
next
  case (5 E nm d i sub rest)
  then show ?case by (auto split: sum.splits)
qed simp_all

lemma NewDefaultDNSRule_built:
  assumes "NewDefaultDNSRule E legacy options race a = Inr b"
  obtains r d where
    "runSteps (NewDefaultDNSRule_steps E legacy options) (emptyFields DomainMatchStrategyAsIS) = Inr r"
    "withRuleSet (opt_RuleSetIPCIDRAcceptEmpty options) options r = Inr d"
    "dnsHeadless b = DefaultDNSRule d (MatchResponse_IsEnabled (opt_MatchResponse options))
       (MatchResponse_ResponseTag (opt_MatchResponse options))"
  using assms by (auto simp: NewDefaultDNSRule_def Let_def split: sum.splits)

lemma wf_NewDNSRule:
  "NewDNSRule E legacy options chk = Inr b \<Longrightarrow> wf_rule (dnsHeadless b)"
  "newDNSSubRules E legacy i rules = Inr bs \<Longrightarrow> list_all (\<lambda>b. wf_rule (dnsHeadless b)) bs"
proof (induction E legacy options chk and E legacy i rules arbitrary: b and bs
    rule: NewDNSRule_newDNSSubRules.induct)
  case (1 E legacy options race action chk)
  then have "NewDefaultDNSRule E legacy options race action = Inr b"
    by (simp split: if_splits option.splits)
  then show ?case
    by (rule NewDefaultDNSRule_built) (auto dest: wf_withRuleSet [OF _ dns_steps_placed])
next
  case (2 E legacy mode rules inverted race action chk)
  then obtain m subRules where "logicalMode mode = Inr m" "newDNSSubRules E legacy 0 rules = Inr subRules"
    and b: "dnsHeadless b = LogicalRule (map dnsHeadless subRules) m inverted"
    by (auto simp: Let_def split: if_splits option.splits sum.splits)
  moreover from this 2 have "list_all (\<lambda>b. wf_rule (dnsHeadless b)) subRules"
    by (auto split: if_splits option.splits sum.splits)
  ultimately show ?case
    by (auto simp: logicalMode_def list_all_iff split: if_splits)
next
  case (5 E legacy i sub rest)
  then show ?case by (auto split: option.splits sum.splits)
qed simp_all

text \<open>No rule nested in another one carries an action.\<close>

primrec no_actions :: "RuleOptions \<Rightarrow> bool" where
  "no_actions (DefaultOptions _ action) \<longleftrightarrow> action = NoActionOptions"
| "no_actions (LogicalOptions _ rules _ action) \<longleftrightarrow>
     action = NoActionOptions \<and> list_all id (map no_actions rules)"
| "no_actions (UnknownTypeOptions _) \<longleftrightarrow> True"

lemma validate_no_actions:
  "validateNoNestedRuleActions r nested = None \<Longrightarrow>
     (nested \<longrightarrow> no_actions r) \<and> (\<forall>m rules i a. r = LogicalOptions m rules i a \<longrightarrow> list_all no_actions rules)"
  "validateSubRules i rules = None \<Longrightarrow> list_all no_actions rules"
proof (induction r nested and i rules rule: validateNoNestedRuleActions_validateSubRules.induct)
  case (1 r nested)
  then show ?case
    by (cases r) (auto simp: list_all_iff split: if_splits)
qed (auto split: option.splits)

section \<open>The documented meaning of a route rule\<close>

text \<open>
  The fields of a rule as a table: the group of the field, whether the rule
  sets it, and whether it holds of the connection. A step of the constructor
  realizes a field if it adds the item the field describes, or nothing.
\<close>

type_synonym field = "slot \<times> bool \<times> bool"

definition given_in :: "slot \<Rightarrow> field list \<Rightarrow> bool" where
  "given_in slot fs = list_ex (\<lambda>(sl, given, _). sl = slot \<and> given) fs"

definition holds_in :: "slot \<Rightarrow> field list \<Rightarrow> bool" where
  "holds_in slot fs = list_ex (\<lambda>(sl, given, holds). sl = slot \<and> given \<and> holds) fs"

text \<open>A group of alternatives: if a field of its lists is set, one that is set holds.\<close>

definition any_field :: "slot list \<Rightarrow> field list \<Rightarrow> bool" where
  "any_field slots fs \<longleftrightarrow>
     (list_ex (\<lambda>slot. given_in slot fs) slots \<longrightarrow> list_ex (\<lambda>slot. holds_in slot fs) slots)"

definition each_field :: "slot \<Rightarrow> field list \<Rightarrow> bool" where
  "each_field slot fs \<longleftrightarrow> list_all (\<lambda>(slot', given, holds). slot' = slot \<and> given \<longrightarrow> holds) fs"

definition realizes :: "env \<Rightarrow> InboundContext \<Rightarrow> step \<Rightarrow> field \<Rightarrow> bool" where
  "realizes E c s f = (case f of (slot, given, holds) \<Rightarrow>
     \<not> isl s \<longrightarrow> (if given then \<exists>i. s = Inr (Some (slot, i)) \<and> item_sem E c i = holds else s = Inr None))"

lemma realizes_add:
  "(cond \<Longrightarrow> item_sem E c i = holds) \<Longrightarrow> realizes E c (add cond slot i) (slot, cond, holds)"
  by (simp add: realizes_def add_def)

lemma realizes_addE:
  "(\<And>i. cond \<Longrightarrow> res = Inr i \<Longrightarrow> item_sem E c i = holds) \<Longrightarrow>
     realizes E c (addE cond cause slot res) (slot, cond, holds)"
  by (cases res) (auto simp: realizes_def addE_def)

lemma realizes_failIf: "realizes E c (failIf cond err) (slot, False, holds)"
  by (simp add: realizes_def failIf_def)

lemma realizes_ipVersion:
  "realizes E c (ipVersionStep v) (SlotItems, v > 0, IPVersionItem_Match E (v = 6) c)"
  by (auto simp: realizes_def ipVersionStep_def item_sem_def)

lemmas realizes_intros = realizes_add realizes_addE realizes_failIf realizes_ipVersion

text \<open>A rule built by steps that realize a table has the lists the table describes.\<close>

lemma realized_lists:
  assumes "list_all2 (realizes E c) ss fs" "runSteps ss r = Inr r'"
  shows "(slot_list slot r' \<noteq> [] \<longleftrightarrow> slot_list slot r \<noteq> [] \<or> given_in slot fs) \<and>
    (list_ex (item_sem E c) (slot_list slot r') \<longleftrightarrow>
      list_ex (item_sem E c) (slot_list slot r) \<or> holds_in slot fs) \<and>
    (list_all (item_sem E c) (slot_list slot r') \<longleftrightarrow> list_all (item_sem E c) (slot_list slot r)
      \<and> each_field slot fs)"
  using assms
proof (induction arbitrary: r)
  case (Cons s ss f fs)
  obtain sl given holds where f: "f = (sl, given, holds)" by (cases f)
  have "\<not> isl s" using Cons.prems by (cases s) auto
  then consider i where "s = Inr (Some (sl, i))" "given" "item_sem E c i = holds" | "s = Inr None" "\<not> given"
    using Cons.hyps(1) by (auto simp: realizes_def f split: if_splits)
  then show ?case
  proof cases
    case 1
    then have "runSteps ss (addItem sl i r) = Inr r'" using Cons.prems by simp
    from Cons.IH [OF this] 1 show ?thesis by (auto simp: f slot_list_addItem each_field_def given_in_def holds_in_def)
  next
    case 2
    then have "runSteps ss r = Inr r'" using Cons.prems by simp
    from Cons.IH [OF this] 2 show ?thesis by (simp add: f each_field_def given_in_def holds_in_def)
  qed
qed (simp add: each_field_def given_in_def holds_in_def)

lemma groups_of_fields:
  assumes "list_all2 (realizes E c) ss fs" "runSteps ss (emptyFields st) = Inr r"
    "full c" "\<not> IPCIDRMatchSource c"
  shows "list_all (item_sem E c) (items r) \<longleftrightarrow> each_field SlotItems fs"
    "(\<forall>g. group_required r c g \<longrightarrow> group_satisfied E r c g) \<longleftrightarrow>
       any_field [SlotDestinationAddress, SlotDestinationIPCIDR] fs \<and> any_field [SlotDestinationPort] fs
       \<and> any_field [SlotSourceAddress] fs \<and> any_field [SlotSourcePort] fs"
    "allItems r = [] \<longleftrightarrow> \<not> list_ex (\<lambda>(_, given, _). given) fs"
proof -
  note L = realized_lists [OF assms(1,2)]
  show "list_all (item_sem E c) (items r) \<longleftrightarrow> each_field SlotItems fs"
    using L [of SlotItems] by simp
  have ign: "\<not> IgnoreDestinationIPCIDRMatch c" using assms(3) by (simp add: full_def)
  have all: "(\<forall>g. P g) \<longleftrightarrow> P SourceAddress \<and> P SourcePort \<and> P DestinationAddress \<and> P DestinationPort" for P
    using group.exhaust by metis
  show "(\<forall>g. group_required r c g \<longrightarrow> group_satisfied E r c g) \<longleftrightarrow>
       any_field [SlotDestinationAddress, SlotDestinationIPCIDR] fs \<and> any_field [SlotDestinationPort] fs
       \<and> any_field [SlotSourceAddress] fs \<and> any_field [SlotSourcePort] fs"
    using L [of SlotDestinationAddress] L [of SlotDestinationIPCIDR] L [of SlotDestinationPort]
      L [of SlotSourceAddress] L [of SlotSourcePort] ign assms(4)
    unfolding all group_required_def group_satisfied_def any_field_def
    by (simp del: all_not_in_conv) blast
  have none: "allItems r = [] \<longleftrightarrow> (\<forall>slot. slot_list slot r = [])"
  proof -
    have "wf_items r" using wf_items_runSteps [OF assms(2) wf_items_empty] .
    moreover have "TheRuleSetItem \<notin> set (allItems r)"
      using TheRuleSetItem_runSteps [OF assms(2)] by simp
    then have "allItems r = [] \<longleftrightarrow> plain_items (allItems r) = []"
      by (cases "allItems r" rule: plain_items.cases) auto
    moreover have "(\<forall>slot. slot_list slot r = []) \<longleftrightarrow>
      items r = [] \<and> sourceAddressItems r = [] \<and> sourcePortItems r = []
      \<and> destinationAddressItems r = [] \<and> destinationIPCIDRItems r = [] \<and> destinationPortItems r = []"
      using slot.exhaust slot_list.simps by metis
    ultimately show ?thesis by (auto simp: wf_items_def)
  qed
  have "list_ex (\<lambda>(_, given, _). given) fs \<longleftrightarrow> (\<exists>slot. given_in slot fs)"
    by (auto simp: given_in_def list_ex_iff)
  then show "allItems r = [] \<longleftrightarrow> \<not> list_ex (\<lambda>(_, given, _). given) fs"
    unfolding none using L by auto
qed

subsection \<open>The table of a route rule\<close>

definition on_host :: "env \<Rightarrow> DomainMatchStrategy \<Rightarrow> InboundContext \<Rightarrow> (string \<Rightarrow> bool) \<Rightarrow> bool" where
  "on_host E st c p \<longleftrightarrow> domainHost E st c \<noteq> [] \<and> p (ToLower (domainHost E st c))"

definition on_process :: "InboundContext \<Rightarrow> (ConnectionOwner \<Rightarrow> bool) \<Rightarrow> bool" where
  "on_process c p = (case ProcessInfo c of Some owner \<Rightarrow> p owner | None \<Rightarrow> False)"

definition on_network :: "env \<Rightarrow> (NetworkInterface \<Rightarrow> bool) \<Rightarrow> bool" where
  "on_network E p = (case DefaultNetworkInterface E of Some ni \<Rightarrow> p ni | None \<Rightarrow> False)"

definition regex_matches :: "env \<Rightarrow> string \<Rightarrow> string \<Rightarrow> bool" where
  "regex_matches E regex s = (case RegexpCompile E regex of Some m \<Rightarrow> m s | None \<Rightarrow> False)"

definition in_cidr :: "env \<Rightarrow> bool \<Rightarrow> Prefix list \<Rightarrow> InboundContext \<Rightarrow> bool" where
  "in_cidr E isSource prefixes c =
     (case BuildIPSet E prefixes of
        Some ranges \<Rightarrow> IPCIDRItem_Match E (FromIPSet ranges) isSource c
      | None \<Rightarrow> False)"

definition in_range :: "u16 \<Rightarrow> string \<Rightarrow> bool" where
  "in_range port portRange =
     (case parsePortRange portRange of
        Inr r \<Rightarrow> start r \<le> port \<and> port \<le> end r
      | Inl _ \<Rightarrow> False)"

definition canonicalMAC :: "string \<Rightarrow> string" where
  "canonicalMAC a = (case ParseMAC a of Some m \<Rightarrow> HardwareAddrString m | None \<Rightarrow> a)"

definition route_address_fields ::
  "env \<Rightarrow> DomainMatchStrategy \<Rightarrow> ruleOptions \<Rightarrow> InboundContext \<Rightarrow> field list" where
  "route_address_fields E st o' c =
     [(SlotItems, opt_Inbound o' \<noteq> [], Inbound c \<in> set (opt_Inbound o')),
      (SlotItems, opt_IPVersion o' > 0, IPVersionItem_Match E (opt_IPVersion o' = 6) c),
      (SlotItems, opt_Network o' \<noteq> [], Network c \<in> set (opt_Network o')),
      (SlotItems, opt_AuthUser o' \<noteq> [], User c \<in> set (opt_AuthUser o')),
      (SlotItems, opt_Protocol o' \<noteq> [], Protocol c \<in> set (opt_Protocol o')),
      (SlotItems, opt_Client o' \<noteq> [], Client c \<in> set (opt_Client o')),
      (SlotDestinationAddress, opt_Domain o' \<noteq> [] \<or> opt_DomainSuffix o' \<noteq> [],
       on_host E st c (NewMatcher E (opt_Domain o') (opt_DomainSuffix o') False)),
      (SlotDestinationAddress, opt_DomainKeyword o' \<noteq> [],
       on_host E st c (\<lambda>host. list_ex (StrContains host) (opt_DomainKeyword o'))),
      (SlotDestinationAddress, opt_DomainRegex o' \<noteq> [],
       on_host E st c (\<lambda>host. list_ex (\<lambda>regex. regex_matches E regex host) (opt_DomainRegex o'))),
      (SlotItems, False, True), (SlotItems, False, True), (SlotItems, False, True),
      (SlotSourceAddress, opt_SourceIPCIDR o' \<noteq> [], in_cidr E True (opt_SourceIPCIDR o') c),
      (SlotSourceAddress, opt_SourceIPIsPrivate o', \<not> IsPublicAddr E (SAddr (Source c))),
      (SlotDestinationIPCIDR, opt_IPCIDR o' \<noteq> [], in_cidr E False (opt_IPCIDR o') c),
      (SlotDestinationIPCIDR, opt_IPIsPrivate o', IPIsPrivateItem_Match E False c),
      (SlotSourcePort, opt_SourcePort o' \<noteq> [], SPort (Source c) \<in> set (opt_SourcePort o')),
      (SlotSourcePort, opt_SourcePortRange o' \<noteq> [],
       list_ex (in_range (SPort (Source c))) (opt_SourcePortRange o')),
      (SlotDestinationPort, opt_Port o' \<noteq> [], SPort (Destination c) \<in> set (opt_Port o')),
      (SlotDestinationPort, opt_PortRange o' \<noteq> [],
       list_ex (in_range (SPort (Destination c))) (opt_PortRange o'))]"

definition process_fields :: "env \<Rightarrow> ruleOptions \<Rightarrow> InboundContext \<Rightarrow> field list" where
  "process_fields E o' c =
     [(SlotItems, opt_ProcessName o' \<noteq> [], on_process c (\<lambda>w.
        list_ex (\<lambda>path. FilepathBase path \<in> set (opt_ProcessName o')) (ProcessPaths w))),
      (SlotItems, opt_ProcessPath o' \<noteq> [], on_process c (\<lambda>w.
        list_ex (\<lambda>path. path \<in> set (opt_ProcessPath o')) (ProcessPaths w)
        \<or> IsAndroid E \<and> list_ex (\<lambda>n. n \<in> set (opt_ProcessPath o')) (PackageNames w))),
      (SlotItems, opt_ProcessPathRegex o' \<noteq> [], on_process c (\<lambda>w.
        list_ex (\<lambda>regex. list_ex (regex_matches E regex) (ProcessPaths w)) (opt_ProcessPathRegex o'))),
      (SlotItems, opt_PackageName o' \<noteq> [], on_process c (\<lambda>w.
        list_ex (\<lambda>n. n \<in> set (opt_PackageName o')) (PackageNames w))),
      (SlotItems, opt_PackageNameRegex o' \<noteq> [], on_process c (\<lambda>w.
        list_ex (\<lambda>regex. list_ex (regex_matches E regex) (PackageNames w)) (opt_PackageNameRegex o')))]"

definition network_fields :: "env \<Rightarrow> ruleOptions \<Rightarrow> InboundContext \<Rightarrow> field list" where
  "network_fields E o' c =
     [(SlotItems, opt_NetworkType o' \<noteq> [], NetworkTypeItem_Match E (opt_NetworkType o')),
      (SlotItems, opt_NetworkIsExpensive o', on_network E NIExpensive),
      (SlotItems, opt_NetworkIsConstrained o', on_network E NIConstrained),
      (SlotItems, opt_WIFISSID o' \<noteq> [], SSID (WIFIState E) \<in> set (opt_WIFISSID o')),
      (SlotItems, opt_WIFIBSSID o' \<noteq> [],
       BSSID (WIFIState E) \<in> set (map NormalizeWIFIBSSID (opt_WIFIBSSID o')))]"

definition interface_fields :: "env \<Rightarrow> ruleOptions \<Rightarrow> InboundContext \<Rightarrow> field list" where
  "interface_fields E o' c =
     [(SlotItems, opt_NetworkInterfaceAddress o' \<noteq> [],
       item_sem E c (NewNetworkInterfaceAddressItem E (opt_NetworkInterfaceAddress o'))),
      (SlotItems, opt_DefaultInterfaceAddress o' \<noteq> [],
       item_sem E c (NewDefaultInterfaceAddressItem E (opt_DefaultInterfaceAddress o')))]"

definition route_fields ::
  "env \<Rightarrow> DomainMatchStrategy \<Rightarrow> ruleOptions \<Rightarrow> InboundContext \<Rightarrow> field list" where
  "route_fields E st o' c =
     route_address_fields E st o' c @ process_fields E o' c @
     [(SlotItems, opt_User o' \<noteq> [],
       on_process c (\<lambda>w. UserName w \<noteq> [] \<and> UserName w \<in> set (opt_User o'))),
      (SlotItems, opt_UserID o' \<noteq> [],
       on_process c (\<lambda>w. UserId w \<noteq> -1 \<and> UserId w \<in> set (opt_UserID o'))),
      (SlotItems, False, True)] @
     network_fields E o' c @
     [(SlotItems, opt_InterfaceAddress o' \<noteq> [],
       item_sem E c (NewInterfaceAddressItem E (opt_InterfaceAddress o')))] @
     interface_fields E o' c @
     [(SlotItems, opt_SourceMACAddress o' \<noteq> [],
       case SourceMACAddress c of
         None \<Rightarrow> False
       | Some mac \<Rightarrow> HardwareAddrString mac \<in> set (map canonicalMAC (opt_SourceMACAddress o'))),
      (SlotItems, opt_SourceHostname o' \<noteq> [],
       SourceHostname c \<noteq> [] \<and> SourceHostname c \<in> set (opt_SourceHostname o')),
      (SlotItems, False, True),
      (SlotItems, False, True),
      (SlotItems, False, True)]"

text \<open>The formula of \<^verbatim>\<open>docs/configuration/route/rule.md\<close>.\<close>

definition documented :: "field list \<Rightarrow> bool" where
  "documented fs \<longleftrightarrow>
     any_field [SlotDestinationAddress, SlotDestinationIPCIDR] fs \<and>
     any_field [SlotDestinationPort] fs \<and> any_field [SlotSourceAddress] fs \<and>
     any_field [SlotSourcePort] fs \<and> each_field SlotItems fs"

text \<open>The fields whose items are only bound when the rule starts are left out.\<close>

definition binds_at_start :: "ruleOptions \<Rightarrow> bool" where
  "binds_at_start o' \<longleftrightarrow> opt_ClashMode o' \<noteq> [] \<or> opt_PreferredBy o' \<noteq> []
     \<or> opt_DNSServerAddress o' \<noteq> [] \<or> opt_DNSSearchDomain o' \<noteq> []"

lemma list_ex_in_range:
  "parsePortRanges rl = Inr rs \<Longrightarrow>
     list_ex (\<lambda>r. start r \<le> port \<and> port \<le> end r) rs = list_ex (in_range port) rl"
  by (induction rl arbitrary: rs rule: parsePortRanges.induct)
    (auto simp: in_range_def split: sum.splits)

lemma list_ex_compile:
  "compileAll E i regexes = Inr ms \<Longrightarrow>
     list_ex P ms = list_ex (\<lambda>regex. case RegexpCompile E regex of Some m \<Rightarrow> P m | None \<Rightarrow> False) regexes"
  by (induction E i regexes arbitrary: ms rule: compileAll.induct) (auto split: option.splits)

lemma regex_nested:
  "(case RegexpCompile E regex of Some m \<Rightarrow> list_ex m xs | None \<Rightarrow> False) = list_ex (regex_matches E regex) xs"
  by (induction xs) (auto simp: regex_matches_def split: option.splits)

text \<open>The meaning of the items whose constructor may fail.\<close>

lemma item_sem_domain:
  "NewDomainItem E ds ss st = Inr i \<Longrightarrow>
     item_sem E c i = on_host E st c (NewMatcher E ds ss False)"
  by (auto simp: NewDomainItem_def item_sem_def DomainItem_Match_def on_host_def Let_def split: if_splits)

lemma item_sem_regex:
  "NewDomainRegexItem E rs st = Inr i \<Longrightarrow>
     item_sem E c i = on_host E st c (\<lambda>host. list_ex (\<lambda>regex. regex_matches E regex host) rs)"
  using list_ex_compile [of E 0 rs _ "\<lambda>m. m (ToLower (domainHost E st c))"]
  by (auto simp: NewDomainRegexItem_def item_sem_def DomainRegexItem_Match_def on_host_def
      regex_matches_def map_sum_Inr_iff Let_def split: if_splits)

lemma item_sem_cidr: "NewIPCIDRItem E src ps = Inr i \<Longrightarrow> item_sem E c i = in_cidr E src ps c"
  by (auto simp: NewIPCIDRItem_def item_sem_def in_cidr_def Let_def split: option.splits)

lemma item_sem_port_range:
  "NewPortRangeItem src rl = Inr i \<Longrightarrow>
     item_sem E c i = list_ex (in_range (SPort (if src then Source c else Destination c))) rl"
  by (auto simp: NewPortRangeItem_def item_sem_def PortRangeItem_Match_def Let_def map_sum_Inr_iff
      list_ex_in_range)

lemma item_sem_process_regex:
  "NewProcessPathRegexItem E rs = Inr i \<Longrightarrow> item_sem E c i = on_process c (\<lambda>w.
     list_ex (\<lambda>regex. list_ex (regex_matches E regex) (ProcessPaths w)) rs)"
  using list_ex_compile [of E 0 rs _ "\<lambda>m. list_ex m (ProcessPaths (the (ProcessInfo c)))"]
  by (cases "ProcessInfo c")
    (auto simp: NewProcessPathRegexItem_def item_sem_def ProcessPathRegexItem_Match_def on_process_def
      regex_nested map_sum_Inr_iff)

lemma item_sem_package_regex:
  "NewPackageNameRegexItem E rs = Inr i \<Longrightarrow> item_sem E c i = on_process c (\<lambda>w.
     list_ex (\<lambda>regex. list_ex (regex_matches E regex) (PackageNames w)) rs)"
  using list_ex_compile [of E 0 rs _ "\<lambda>m. list_ex m (PackageNames (the (ProcessInfo c)))"]
  by (cases "ProcessInfo c"; cases "PackageNames (the (ProcessInfo c)) = []")
    (auto simp: NewPackageNameRegexItem_def item_sem_def PackageNameRegexItem_Match_def on_process_def
      regex_nested map_sum_Inr_iff list_ex_iff simp del: ex_simps ball_simps)

lemmas item_sem_built = item_sem_domain item_sem_regex item_sem_cidr item_sem_port_range
  item_sem_process_regex item_sem_package_regex

lemmas Match_defs =
  InboundItem_Match_def NetworkItem_Match_def AuthUserItem_Match_def ProtocolItem_Match_def
  ClientItem_Match_def DomainKeywordItem_Match_def IPIsPrivateItem_Match_def PortItem_Match_def
  PackageNameItem_Match_def UserItem_Match_def UserIdItem_Match_def
  NetworkIsExpensiveItem_Match_def NetworkIsConstrainedItem_Match_def
  WIFISSIDItem_Match_def WIFIBSSIDItem_Match_def SourceMACAddressItem_Match_def
  SourceHostnameItem_Match_def

lemma route_address_realizes:
  "list_all2 (realizes E c) (NewDefaultRule_addressSteps E st o') (route_address_fields E st o' c)"
  unfolding NewDefaultRule_addressSteps_def route_address_fields_def
  by (intro list.rel_intros realizes_intros)
    ((simp add: item_sem_built; fail) |
      simp add: New_defs item_sem_def Match_defs on_host_def Let_def list_ex_iff)+

lemma process_realizes:
  "settled c \<Longrightarrow> list_all2 (realizes E c) (processSteps E o') (process_fields E o' c)"
  unfolding processSteps_def process_fields_def
  by (intro list.rel_intros realizes_intros)
    ((simp add: item_sem_built; fail) |
      cases "ProcessInfo c"; auto simp: New_defs item_sem_def Match_defs on_process_def
        ProcessItem_Match_def ProcessPathItem_Match_def list_ex_iff)+

lemma route_realizes:
  assumes "settled c" "\<not> binds_at_start o'"
  shows "list_all2 (realizes E c) (NewDefaultRule_steps E st o') (route_fields E st o' c)"
proof -
  have "list_all2 (realizes E c) (networkSteps o') (network_fields E o' c)"
    unfolding networkSteps_def network_fields_def
    by (intro list.rel_intros realizes_intros)
      (simp_all add: New_defs item_sem_def Match_defs on_network_def split: option.split)
  moreover have "list_all2 (realizes E c) (interfaceSteps E o') (interface_fields E o' c)"
    unfolding interfaceSteps_def interface_fields_def by (intro list.rel_intros realizes_intros) simp_all
  moreover have "list_all2 (realizes E c)
      [add (opt_User o' \<noteq> []) SlotItems (NewUserItem (opt_User o')),
       add (opt_UserID o' \<noteq> []) SlotItems (NewUserIDItem (opt_UserID o'))]
      [(SlotItems, opt_User o' \<noteq> [],
        on_process c (\<lambda>w. UserName w \<noteq> [] \<and> UserName w \<in> set (opt_User o'))),
       (SlotItems, opt_UserID o' \<noteq> [],
        on_process c (\<lambda>w. UserId w \<noteq> -1 \<and> UserId w \<in> set (opt_UserID o')))]"
    by (intro list.rel_intros realizes_intros)
      (cases "ProcessInfo c"; simp add: New_defs item_sem_def Match_defs on_process_def)+
  moreover have "list_all2 (realizes E c)
      [add (opt_InterfaceAddress o' \<noteq> []) SlotItems (NewInterfaceAddressItem E (opt_InterfaceAddress o'))]
      [(SlotItems, opt_InterfaceAddress o' \<noteq> [],
        item_sem E c (NewInterfaceAddressItem E (opt_InterfaceAddress o')))]"
    by (intro list.rel_intros realizes_intros) simp
  moreover have "realizes E c
      (add (opt_SourceMACAddress o' \<noteq> []) SlotItems (NewSourceMACAddressItem (opt_SourceMACAddress o')))
      (SlotItems, opt_SourceMACAddress o' \<noteq> [],
       case SourceMACAddress c of
         None \<Rightarrow> False
       | Some mac \<Rightarrow> HardwareAddrString mac \<in> set (map canonicalMAC (opt_SourceMACAddress o')))"
    by (intro realizes_intros)
      (cases "SourceMACAddress c"; simp add: New_defs item_sem_def Match_defs canonicalMAC_def [abs_def])
  moreover have "realizes E c
      (add (opt_SourceHostname o' \<noteq> []) SlotItems (NewSourceHostnameItem (opt_SourceHostname o')))
      (SlotItems, opt_SourceHostname o' \<noteq> [],
       SourceHostname c \<noteq> [] \<and> SourceHostname c \<in> set (opt_SourceHostname o'))"
    by (intro realizes_intros) (simp add: New_defs item_sem_def Match_defs)
  moreover have "realizes E c (add False slot i) (slot, False, True)" for slot i
    by (simp add: realizes_def add_def)
  ultimately show ?thesis
    using assms(2) route_address_realizes [of E c st o'] process_realizes [OF assms(1), of E o']
    unfolding NewDefaultRule_steps_def route_fields_def binds_at_start_def
    by (simp add: list_all2_appendI)
qed

lemma documented_default:
  assumes built: "NewDefaultRule E rd o' a = Inr b" and c: "full c" "\<not> IPCIDRMatchSource c"
    and o': "opt_RuleSet o' = []" "\<not> binds_at_start o'"
  shows "rule_sem E (builtHeadless b) c \<longleftrightarrow>
    \<not> list_ex (\<lambda>(_, given, _). given) (route_fields E (ruleStrategy rd (opt_DomainMatchStrategy o')) o' c)
    \<or> documented (route_fields E (ruleStrategy rd (opt_DomainMatchStrategy o')) o' c) \<noteq> opt_Invert o'"
proof -
  let ?st = "ruleStrategy rd (opt_DomainMatchStrategy o')"
  obtain r where r: "runSteps (NewDefaultRule_steps E ?st o') (emptyFields ?st) = Inr r"
    and b: "builtHeadless b = DefaultRule (AbstractDefaultRule r None (opt_Invert o'))"
    using NewDefaultRule_built [OF built] o'(1) by (auto simp: withRuleSet_def)
  note G = groups_of_fields [OF route_realizes [OF full_settled [OF c(1)] o'(2)] r c]
  have "list_all P all_groups \<longleftrightarrow> (\<forall>g. P g)" for P
    by (simp add: list_all_iff)
  then show ?thesis using G unfolding b documented_def by auto
qed

end
