(* ===== verification/RuleProps.thy ===== *)
theory RuleProps
  imports RuleConfig
begin

text \<open>
  The properties of the rule engine: what matching means, that it keeps the
  metadata, what the constructors guarantee of the rules they build, and what
  a route rule means in terms of its configuration.
\<close>

section \<open>Examples to evaluate\<close>

lemma exampleEnv_simps [simp]:
  "IsIP exampleEnv a = AddrIsValid (SAddr a)"
  "IsDomain exampleEnv a = (SFqdn a \<noteq> [])"
  "NewMatcher exampleEnv domains suffixes gen s = (s \<in> set domains \<or> list_ex (HasSuffix s) suffixes)"
  "RegexpCompile exampleEnv regex = (if regex = ''('' then None else Some (\<lambda>s. s = regex))"
  "BuildIPSet exampleEnv prefixes = Some (map (\<lambda>p. (PrefixAddr p, PrefixAddr p)) prefixes)"
  "SpoofPlatformSupported exampleEnv" "NewDialerOk exampleEnv ds"
  "ParseSocksaddrHostPort exampleEnv host port = \<lparr>SAddr = AddrZero, SPort = port, SFqdn = host\<rparr>"
  by (simp_all add: exampleEnv_def)

lemma full_Zero: "full InboundContextZero"
  by (simp add: full_def clean_def settled_def InboundContextZero_def)

lemma full_update [simp]:
  "full (c\<lparr>Network := n\<rparr>) = full c" "full (c\<lparr>Source := a\<rparr>) = full c"
  "full (c\<lparr>Destination := a\<rparr>) = full c" "full (c\<lparr>Domain := d\<rparr>) = full c"
  by (simp_all add: full_def clean_def settled_def)

text \<open>The set of the address 9 of IPv4, and a connection from it to the address 1.\<close>

definition set9 :: IPSetT where
  "set9 = FromIPSet [(Addr4 9, Addr4 9)]"

lemma Contains_set9 [simp]: "IPSetContains set9 (Addr4 a) \<longleftrightarrow> a = 9"
  using Contains_FromIPSet [of "[(Addr4 9, Addr4 9)]" "Addr4 a"]
  by (auto simp: set9_def netipx_ranges_def)

definition from9 :: InboundContext where
  "from9 = InboundContextZero\<lparr>Network := ''tcp'', Source := SocksaddrZero\<lparr>SAddr := Addr4 9\<rparr>,
     Destination := SocksaddrZero\<lparr>SAddr := Addr4 1, SPort := 443\<rparr>\<rparr>"

lemma from9_simps [simp]:
  "full from9" "SAddr (Source from9) = Addr4 9" "SAddr (Destination from9) = Addr4 1"
  "SPort (Destination from9) = 443" "Network from9 = ''tcp''" "\<not> IPCIDRMatchSource from9"
  "\<not> IgnoreDestinationIPCIDRMatch from9" "\<not> DestinationAddressMatchFromResponse from9"
  by (simp_all add: from9_def InboundContextZero_def SocksaddrZero_def full_def clean_def settled_def)

lemma withFlags_simps [simp]:
  "Source (withFlags src emp c) = Source c" "Destination (withFlags src emp c) = Destination c"
  "Network (withFlags src emp c) = Network c" "IPCIDRMatchSource (withFlags src emp c) = src"
  "IgnoreDestinationIPCIDRMatch (withFlags src emp c) = IgnoreDestinationIPCIDRMatch c"
  "DestinationAddressMatchFromResponse (withFlags src emp c) = DestinationAddressMatchFromResponse c"
  by (simp_all add: withFlags_def)

text \<open>A rule on TCP, and a rule on the address 9.\<close>

definition exampleFields :: ruleFields where
  "exampleFields = emptyFields DomainMatchStrategyAsIS"

definition tcpFields :: ruleFields where
  "tcpFields = addItem SlotItems (NewNetworkItem [''tcp'']) exampleFields"

definition fields9 :: ruleFields where
  "fields9 = addItem SlotDestinationIPCIDR (IPCIDRItem set9 False []) exampleFields"

definition address9 :: HeadlessRule where
  "address9 = DefaultHeadlessRule (AbstractDefaultRule fields9 None False)"

definition setOf9 :: RuleSet where
  "setOf9 = RuleSet [] [address9] \<lparr>ContainsProcessRule = False, ContainsProcessPathRule = False,
     ContainsWIFIRule = False, ContainsIPCIDRRule = True, ContainsDNSQueryTypeRule = False,
     ContainsNonIPCIDRRule = False\<rparr>"

definition tcpAndSet9 :: "bool \<Rightarrow> HeadlessRule" where
  "tcpAndSet9 matchSource = DefaultRule (AbstractDefaultRule tcpFields
     (Some (RuleSetItem [] [setOf9] matchSource False)) False)"

lemmas example_defs = exampleFields_def emptyFields_def tcpFields_def fields9_def NewNetworkItem_def

lemma group_all: "(\<forall>g. P g) \<longleftrightarrow> P SourceAddress \<and> P SourcePort \<and> P DestinationAddress \<and> P DestinationPort"
  using group.exhaust by metis

lemma address9_sem:
  "rule_sem exampleEnv address9 (withFlags src emp from9) \<longleftrightarrow> src"
  by (auto simp: address9_def example_defs group_all group_required_def group_satisfied_def item_sem_def
      IPCIDRItem_Match_def)

lemma tcpAndSet9_sem: "rule_sem exampleEnv (tcpAndSet9 src) from9 \<longleftrightarrow> src"
  by (auto simp: tcpAndSet9_def setOf9_def address9_def mergeableRule_def merged_sem_def example_defs
      group_all group_required_def group_satisfied_def item_sem_def IPCIDRItem_Match_def
      NetworkItem_Match_def)

section \<open>Matching\<close>

text \<open>
  C1. Matching a rule computes its meaning. On metadata whose match caches are
  reset and whose process is settled, \<^verbatim>\<open>Match\<close> of any rule (route, DNS, headless
  or logical, with rule sets nested to any depth, merged or not, inverted or
  not) answers the meaning \<open>rule_sem\<close> gives it, in which there are neither
  caches nor bit masks, and leaves the metadata exactly as it was.
\<close>

theorem Rule_Match_meaning:
  assumes "full c"
  shows "Rule_Match E r c = (rule_sem E r c, c)"
  using Match_computes(4) assms by (rule computesD)

theorem Rule_Match_meaning_witness:
  "Rule_Match exampleEnv (tcpAndSet9 True) from9 = (True, from9) \<and>
   Rule_Match exampleEnv (tcpAndSet9 False) from9 = (False, from9)"
  using Rule_Match_meaning [of from9 exampleEnv] tcpAndSet9_sem by simp

text \<open>
  C3. Matching never changes the connection it looks at: whatever the rule and
  the metadata, the context after \<^verbatim>\<open>Match\<close> differs from the one before only in
  the match caches and in the process it may have resolved. In particular the
  flags a rule-set item sets for its nested rules are back in place.
\<close>

theorem Rule_Match_keeps_metadata:
  "view (snd (Rule_Match E r c)) = view c"
  using Match_keeps(4) by (rule keepsD)

text \<open>
  C30. \<^verbatim>\<open>rule_set_ip_cidr_match_source\<close> and \<^verbatim>\<open>rule_set_ip_cidr_accept_empty\<close> do not
  reach into a logical rule: whatever flags the rule-set item sets, a logical
  rule answers as it does without them.
\<close>

theorem logical_ignores_set_flags:
  assumes "full c"
  shows "fst (Rule_Match E (LogicalRule rules mode inverted) (withFlags matchSource acceptEmpty c)) =
    fst (Rule_Match E (LogicalRule rules mode inverted) c)"
proof -
  have "withFlags False False (withFlags matchSource acceptEmpty c) = withFlags False False c"
    by (simp add: withFlags_def)
  then show ?thesis
    using assms by (simp add: computesD [OF Match_computes(4)] del: Rule_Match.simps)
qed

theorem logical_ignores_set_flags_witness:
  "fst (Rule_Match exampleEnv address9 (withFlags True False from9)) \<and>
   \<not> fst (Rule_Match exampleEnv (LogicalRule [address9] ''and'' False) (withFlags True False from9))"
proof -
  have "\<not> rule_sem exampleEnv (LogicalRule [address9] ''and'' False) from9"
    by (simp add: address9_sem)
  then show ?thesis
    using logical_ignores_set_flags [of from9 exampleEnv "[address9]" "''and''" False True False] address9_sem
    by (simp add: computesD [OF Match_computes(4)] del: Rule_Match.simps rule_sem.simps)
qed

section \<open>Building\<close>

text \<open>A configured rule: TCP to one of two ports, routed to an outbound.\<close>

definition routeOptionsZero :: RawRouteOptionsActionOptions where
  "routeOptionsZero = \<lparr>oOverrideAddress = [], oOverridePort = 0, oNetworkStrategy = None,
     oFallbackDelay = 0, oUDPDisableDomainUnmapping = False, oUDPConnect = False, oUDPTimeout = 0,
     oTLSFragment = False, oTLSFragmentFallbackDelay = 0, oTLSRecordFragment = False,
     oTLSSpoof = [], oTLSSpoofMethod = []\<rparr>"

definition webOptions :: ruleOptions where
  "webOptions = ruleOptionsZero\<lparr>opt_Network := [''tcp''], opt_Port := [80, 443]\<rparr>"

definition webRule :: RuleOptions where
  "webRule = DefaultOptions webOptions (RouteOptions ''direct'' routeOptionsZero)"

lemma webOptions_valid: "conditionsSet webOptions"
  by (simp add: conditionsSet_def webOptions_def ruleOptionsZero_def)

lemma web_steps:
  "\<exists>r. runSteps (NewDefaultRule_steps E st webOptions) (emptyFields st) = Inr r"
  by (simp add: NewDefaultRule_steps_def NewDefaultRule_addressSteps_def processSteps_def networkSteps_def
      interfaceSteps_def webOptions_def ruleOptionsZero_def add_def addE_def failIf_def ipVersionStep_def)

lemma web_action: "\<exists>a. newAction exampleEnv (RouteOptions ''direct'' routeOptionsZero) = Inr a"
  by (simp add: newAction_def NewRuleAction_def newRuleActionRouteOptions_def routeOptionsZero_def ParseOptions_def)

lemma web_built: "\<exists>b. NewRule exampleEnv None webRule True = Inr b"
proof -
  have "opt_RuleSet webOptions = []" by (simp add: webOptions_def ruleOptionsZero_def)
  moreover obtain a where "newAction exampleEnv (RouteOptions ''direct'' routeOptionsZero) = Inr a"
    using web_action by blast
  moreover obtain r where "runSteps (NewDefaultRule_steps exampleEnv
      (ruleStrategy None (opt_DomainMatchStrategy webOptions)) webOptions)
      (emptyFields (ruleStrategy None (opt_DomainMatchStrategy webOptions))) = Inr r"
    using web_steps by blast
  ultimately show ?thesis
    using webOptions_valid by (simp add: webRule_def NewDefaultRule_def withRuleSet_def Let_def)
qed

lemma newSubRules_no_actions:
  "newSubRules E rd i rules = Inr bs \<Longrightarrow> list_all no_actions rules"
proof (induction rules arbitrary: i bs)
  case (Cons r rest)
  then show ?case
    using validate_no_actions(1) [of r True] by (auto split: option.splits sum.splits)
qed simp



text \<open>
  C28. The rules that \<^verbatim>\<open>NewRule\<close> builds are well formed: \<open>allItems\<close> lists exactly
  the items of the other lists and the rule-set item, every item stands in the
  list of its kind, and logical modes are \<^verbatim>\<open>and\<close> or \<^verbatim>\<open>or\<close>, at every level.
\<close>

theorem NewRule_well_formed:
  assumes "NewRule E rd options chk = Inr b"
  shows "wf_rule (builtHeadless b)"
  using wf_NewRule(1) [OF assms] .

theorem NewRule_well_formed_witness:
  "\<exists>b. NewRule exampleEnv None webRule True = Inr b \<and> wf_rule (builtHeadless b)"
  using web_built NewRule_well_formed by blast

text \<open>
  C29. No rule nested in a logical rule carries an action: configuration that
  sets one, at any depth, is refused.
\<close>

theorem nested_actions_refused:
  assumes "NewRule E rd (LogicalOptions mode rules inverted action) chk = Inr b"
  shows "list_all no_actions rules"
  using assms by (auto split: if_splits sum.splits dest: newSubRules_no_actions)

theorem nested_actions_refused_witness:
  "\<nexists>b. NewRule exampleEnv None
     (LogicalOptions ''and'' [DefaultOptions webOptions HijackDNSOptions] False HijackDNSOptions) True = Inr b"
  using nested_actions_refused [of exampleEnv None "''and''" "[DefaultOptions webOptions HijackDNSOptions]"
      False HijackDNSOptions True]
  by auto

end
