(* ===== verification/SRS.thy ===== *)
theory SRS
  imports RuleBuild
begin

text \<open>
  \<^verbatim>\<open>common/srs\<close>: the binary format of rule sets. A file has a magic number, a
  version and a compressed list of rules; a rule is a list of items, each with
  its type, or a logical combination of rules. This theory holds the writer and
  the reader; \<^verbatim>\<open>SRSProps\<close> shows what they do together. The memory-mapped variant
  of the format is left out: its reader and writer are absent here, as they are
  when a rule set is compiled or loaded from a plain file.
\<close>

section \<open>Libraries\<close>

text \<open>
  The packages the format relies on: \<^verbatim>\<open>varbin\<close> for numbers and slices, the two
  domain matchers with their own formats, the prefixes of a \<^verbatim>\<open>netipx\<close> set made
  of ranges, and the compression of the stream. \<open>libDecompress\<close> gives the bytes
  the decompressing reader delivers, and none where it rejects the header.
\<close>

record ('m, 'a) srsLib =
  libUvarint :: "nat \<Rightarrow> bytes"
  libReadSlice8 :: "bytes \<Rightarrow> (bytes \<times> bytes) option"
  libReadSlice16 :: "bytes \<Rightarrow> (u16 list \<times> bytes) option"
  libNewMatcher :: "string list \<Rightarrow> string list \<Rightarrow> bool \<Rightarrow> 'm"
  libMatch :: "'m \<Rightarrow> string \<Rightarrow> bool"
  libWriteMatcher :: "'m \<Rightarrow> bytes"
  libReadMatcher :: "bytes \<Rightarrow> ('m \<times> bytes) option"
  libDump :: "'m \<Rightarrow> string list \<times> string list"
  libNewAdGuard :: "string list \<Rightarrow> 'a"
  libMatchAdGuard :: "'a \<Rightarrow> string \<Rightarrow> bool"
  libWriteAdGuard :: "'a \<Rightarrow> bytes"
  libReadAdGuard :: "bytes \<Rightarrow> ('a \<times> bytes) option"
  libDumpAdGuard :: "'a \<Rightarrow> string list"
  libPrefixes :: "(Addr \<times> Addr) list \<Rightarrow> Prefix list"
  libCompress :: "bytes \<Rightarrow> bytes"
  libDecompress :: "bytes \<Rightarrow> bytes option"

datatype srs_error =
    ReadFailed | SRSInvalid | InvalidRuleSetFile | UnsupportedVersion u8 | NestedTooDeep
  | UnknownRuleTypeByte u8 | UnknownItemType u8 u8 | UnknownModeByte u8
  | SetRangeError ipset_error
  | ReadRuleAt nat srs_error
  | EmptyItemNotAllowed string | VersionTooLow string | IPSetBuildError string
  | UnknownRuleTypeName string | UnknownModeName string

section \<open>Constants\<close>

abbreviation ruleItemQueryType :: u8 where "ruleItemQueryType \<equiv> 0"
abbreviation ruleItemNetwork :: u8 where "ruleItemNetwork \<equiv> 1"
abbreviation ruleItemDomain :: u8 where "ruleItemDomain \<equiv> 2"
abbreviation ruleItemDomainKeyword :: u8 where "ruleItemDomainKeyword \<equiv> 3"
abbreviation ruleItemDomainRegex :: u8 where "ruleItemDomainRegex \<equiv> 4"
abbreviation ruleItemSourceIPCIDR :: u8 where "ruleItemSourceIPCIDR \<equiv> 5"
abbreviation ruleItemIPCIDR :: u8 where "ruleItemIPCIDR \<equiv> 6"
abbreviation ruleItemSourcePort :: u8 where "ruleItemSourcePort \<equiv> 7"
abbreviation ruleItemSourcePortRange :: u8 where "ruleItemSourcePortRange \<equiv> 8"
abbreviation ruleItemPort :: u8 where "ruleItemPort \<equiv> 9"
abbreviation ruleItemPortRange :: u8 where "ruleItemPortRange \<equiv> 10"
abbreviation ruleItemProcessName :: u8 where "ruleItemProcessName \<equiv> 11"
abbreviation ruleItemProcessPath :: u8 where "ruleItemProcessPath \<equiv> 12"
abbreviation ruleItemPackageName :: u8 where "ruleItemPackageName \<equiv> 13"
abbreviation ruleItemWIFISSID :: u8 where "ruleItemWIFISSID \<equiv> 14"
abbreviation ruleItemWIFIBSSID :: u8 where "ruleItemWIFIBSSID \<equiv> 15"
abbreviation ruleItemAdGuardDomain :: u8 where "ruleItemAdGuardDomain \<equiv> 16"
abbreviation ruleItemProcessPathRegex :: u8 where "ruleItemProcessPathRegex \<equiv> 17"
abbreviation ruleItemNetworkType :: u8 where "ruleItemNetworkType \<equiv> 18"
abbreviation ruleItemNetworkIsExpensive :: u8 where "ruleItemNetworkIsExpensive \<equiv> 19"
abbreviation ruleItemNetworkIsConstrained :: u8 where "ruleItemNetworkIsConstrained \<equiv> 20"
abbreviation ruleItemNetworkInterfaceAddress :: u8 where "ruleItemNetworkInterfaceAddress \<equiv> 21"
abbreviation ruleItemDefaultInterfaceAddress :: u8 where "ruleItemDefaultInterfaceAddress \<equiv> 22"
abbreviation ruleItemPackageNameRegex :: u8 where "ruleItemPackageNameRegex \<equiv> 23"
abbreviation ruleItemFinal :: u8 where "ruleItemFinal \<equiv> 255"

abbreviation MagicBytes :: bytes where
  "MagicBytes \<equiv> [0x53, 0x52, 0x53]"

abbreviation RuleSetVersionCurrent :: u8 where "RuleSetVersionCurrent \<equiv> 5"

abbreviation maxLogicalRuleDepth :: nat where
  "maxLogicalRuleDepth \<equiv> 100"

section \<open>Reading numbers and bytes\<close>

definition thenRead ::
  "srs_error + 'a \<times> bytes \<Rightarrow> ('a \<Rightarrow> bytes \<Rightarrow> srs_error + 'b) \<Rightarrow> srs_error + 'b" where
  "thenRead p f = (case p of Inl e \<Rightarrow> Inl e | Inr (x, rest) \<Rightarrow> f x rest)"

definition delivered :: "('a \<times> bytes) option \<Rightarrow> srs_error + 'a \<times> bytes" where
  "delivered p = (case p of None \<Rightarrow> Inl ReadFailed | Some r \<Rightarrow> Inr r)"

definition readByte :: "bytes \<Rightarrow> srs_error + u8 \<times> bytes" where
  "readByte bs = (case bs of [] \<Rightarrow> Inl ReadFailed | b # rest \<Rightarrow> Inr (b, rest))"

abbreviation readUvarint :: "bytes \<Rightarrow> srs_error + nat \<times> bytes" where
  "readUvarint bs \<equiv> delivered (read_uvarint bs)"

abbreviation readFull :: "nat \<Rightarrow> bytes \<Rightarrow> srs_error + bytes \<times> bytes" where
  "readFull n bs \<equiv> delivered (split_at n bs)"

text \<open>The loops that read a number of elements.\<close>

primrec readTimes ::
  "nat \<Rightarrow> (bytes \<Rightarrow> srs_error + 'a \<times> bytes) \<Rightarrow> bytes \<Rightarrow> srs_error + 'a list \<times> bytes" where
  "readTimes 0 f bs = Inr ([], bs)"
| "readTimes (Suc n) f bs =
     thenRead (f bs) (\<lambda>x r. thenRead (readTimes n f r) (\<lambda>xs r'. Inr (x # xs, r')))"

section \<open>Prefixes\<close>

definition ReadPrefix :: "env \<Rightarrow> bytes \<Rightarrow> srs_error + Prefix \<times> bytes" where
  "ReadPrefix E reader =
     thenRead (readUvarint reader) (\<lambda>addrLen r.
       if addrLen \<noteq> 4 \<and> addrLen \<noteq> 16 then Inl SRSInvalid
       else thenRead (readFull addrLen r) (\<lambda>addrBytes r.
         thenRead (readByte r) (\<lambda>prefixBits r.
           Inr (PrefixFrom (AddrFromIP E addrBytes) (uint prefixBits), r))))"

definition WritePrefix :: "(nat \<Rightarrow> bytes) \<Rightarrow> Prefix \<Rightarrow> bytes" where
  "WritePrefix W prefix =
     (let addrSlice = AsSlice (PrefixAddr prefix) in
      W (length addrSlice) @ addrSlice @ [word_of_int (PrefixBits prefix)])"

definition readPrefixes :: "env \<Rightarrow> bytes \<Rightarrow> srs_error + Prefix list \<times> bytes" where
  "readPrefixes E reader =
     thenRead (readUvarint reader) (\<lambda>prefixCount r. readTimes prefixCount (ReadPrefix E) r)"

definition writePrefixes :: "(nat \<Rightarrow> bytes) \<Rightarrow> Prefix list \<Rightarrow> bytes" where
  "writePrefixes W prefixes = W (length prefixes) @ concat (map (WritePrefix W) prefixes)"

definition WriteRouteAddressSet :: "(nat \<Rightarrow> bytes) \<Rightarrow> Prefix list \<Rightarrow> Prefix list \<Rightarrow> bytes" where
  "WriteRouteAddressSet W include exclude = concat (map (writePrefixes W) [include, exclude])"

definition ReadRouteAddressSet :: "env \<Rightarrow> bytes \<Rightarrow> srs_error + Prefix list \<times> Prefix list" where
  "ReadRouteAddressSet E reader =
     thenRead (readPrefixes E reader) (\<lambda>include r.
       thenRead (readPrefixes E r) (\<lambda>exclude r. Inr (include, exclude)))"

section \<open>Address sets\<close>

definition readIPSetAddr :: "bytes \<Rightarrow> srs_error + bytes \<times> bytes" where
  "readIPSetAddr reader =
     thenRead (readUvarint reader) (\<lambda>addrLen r.
       if addrLen \<noteq> 4 \<and> addrLen \<noteq> 16 then Inl SRSInvalid else readFull addrLen r)"

text \<open>A range of either family, as the loop reads it; the caller files it under its family.\<close>

definition readIPRange :: "bytes \<Rightarrow> srs_error + (Range4 + Range6) \<times> bytes" where
  "readIPRange reader =
     thenRead (readIPSetAddr reader) (\<lambda>from r.
       thenRead (readIPSetAddr r) (\<lambda>to r.
         if length from \<noteq> length to then Inl SRSInvalid
         else if length from = 4 then
           Inr (Inl \<lparr>From4 = word_of_nat (be_uint from), To4 = word_of_nat (be_uint to)\<rparr>, r)
         else Inr (Inr \<lparr>From6 = from, To6 = to\<rparr>, r)))"

fun lefts :: "('a + 'b) list \<Rightarrow> 'a list" where
  "lefts [] = []"
| "lefts (Inl x # xs) = x # lefts xs"
| "lefts (Inr y # xs) = lefts xs"

fun rights :: "('a + 'b) list \<Rightarrow> 'b list" where
  "rights [] = []"
| "rights (Inl x # xs) = rights xs"
| "rights (Inr y # xs) = y # rights xs"

text \<open>
  The sort is by the lower bound, numerically: comparing the sixteen bytes of
  an address in order compares the number they stand for. Ranges with equal
  lower bounds are refused afterwards, in whichever order they were left.
\<close>

definition readIPSet :: "bytes \<Rightarrow> srs_error + IPSetT \<times> bytes" where
  "readIPSet reader =
     thenRead (readByte reader) (\<lambda>version r.
       if version \<noteq> 1 then Inl SRSInvalid
       else thenRead (readFull 8 r) (\<lambda>len r.
         thenRead (readTimes (be_uint len) readIPRange r) (\<lambda>rs r.
           (case FromRanges (sort_key From4 (lefts rs)) (sort_key (\<lambda>x. be_uint (From6 x)) (rights rs)) of
              Inl e \<Rightarrow> Inl (SetRangeError e)
            | Inr ipSet \<Rightarrow> Inr (ipSet, r)))))"

definition writeIPSetAddr :: "(nat \<Rightarrow> bytes) \<Rightarrow> bytes \<Rightarrow> bytes" where
  "writeIPSetAddr W addr = W (length addr) @ addr"

definition writeIPSet :: "(nat \<Rightarrow> bytes) \<Rightarrow> IPSetT \<Rightarrow> bytes" where
  "writeIPSet W s =
     [1] @ be_bytes 8 (length (ranges4 s) + length (ranges6 s))
     @ concat (map (\<lambda>r. writeIPSetAddr W (be_bytes 4 (unat (From4 r)))
                      @ writeIPSetAddr W (be_bytes 4 (unat (To4 r)))) (ranges4 s))
     @ concat (map (\<lambda>r. writeIPSetAddr W (From6 r) @ writeIPSetAddr W (To6 r)) (ranges6 s))"

text \<open>The ranges \<^verbatim>\<open>Set.IPSet\<close> gives to the builder, whose prefixes \<^verbatim>\<open>Set.Prefixes\<close> takes.\<close>

definition Set_IPSet :: "IPSetT \<Rightarrow> (Addr \<times> Addr) list" where
  "Set_IPSet s =
     map (\<lambda>r. (AddrFrom4 (be_bytes 4 (unat (From4 r))), AddrFrom4 (be_bytes 4 (unat (To4 r))))) (ranges4 s)
     @ map (\<lambda>r. (AddrFrom16 (From6 r), AddrFrom16 (To6 r))) (ranges6 s)"

definition Set_Prefixes :: "('m, 'a) srsLib \<Rightarrow> IPSetT \<Rightarrow> Prefix list" where
  "Set_Prefixes P s = libPrefixes P (Set_IPSet s)"

section \<open>Reading rules\<close>

definition readRuleItemString :: "('m, 'a) srsLib \<Rightarrow> bytes \<Rightarrow> srs_error + string list \<times> bytes" where
  "readRuleItemString P reader =
     thenRead (readUvarint reader) (\<lambda>len r.
       readTimes len (\<lambda>r. thenRead (delivered (libReadSlice8 P r)) (\<lambda>v r. Inr (bytes_str v, r))) r)"

text \<open>
  The body of the loop of \<^verbatim>\<open>readDefaultRule\<close>, for every type but the final one:
  what it reads and the field it sets. The matchers are kept by what they match.
\<close>

definition readInterfaceEntry :: "env \<Rightarrow> bytes \<Rightarrow> srs_error + (InterfaceType \<times> Prefix list) \<times> bytes" where
  "readInterfaceEntry E reader =
     thenRead (readByte reader) (\<lambda>key r.
       thenRead (readPrefixes E r) (\<lambda>prefixes r. Inr ((key, prefixes), r)))"

definition setField ::
  "srs_error + 'x \<times> bytes \<Rightarrow> ('x \<Rightarrow> ruleOptions) \<Rightarrow> srs_error + ruleOptions \<times> bytes" where
  "setField p f = thenRead p (\<lambda>v r. Inr (f v, r))"

definition readRuleItem ::
  "('m, 'a) srsLib \<Rightarrow> env \<Rightarrow> bool \<Rightarrow> u8 \<Rightarrow> u8 \<Rightarrow> ruleOptions \<Rightarrow> bytes
     \<Rightarrow> srs_error + ruleOptions \<times> bytes" where
  "readRuleItem P E recover lastItemType itemType rule reader =
     (let strings = readRuleItemString P reader; slice16 = delivered (libReadSlice16 P reader) in
      if itemType = ruleItemQueryType then setField slice16 (\<lambda>v. rule\<lparr>opt_QueryType := v\<rparr>)
      else if itemType = ruleItemNetwork then setField strings (\<lambda>v. rule\<lparr>opt_Network := v\<rparr>)
      else if itemType = ruleItemDomain then
        setField (delivered (libReadMatcher P reader)) (\<lambda>matcher.
          let rule' = rule\<lparr>opt_DomainMatcher := Some (libMatch P matcher)\<rparr> in
          if recover then rule'\<lparr>opt_Domain := fst (libDump P matcher),
                                opt_DomainSuffix := snd (libDump P matcher)\<rparr> else rule')
      else if itemType = ruleItemDomainKeyword then
        setField strings (\<lambda>v. rule\<lparr>opt_DomainKeyword := v\<rparr>)
      else if itemType = ruleItemDomainRegex then setField strings (\<lambda>v. rule\<lparr>opt_DomainRegex := v\<rparr>)
      else if itemType = ruleItemSourceIPCIDR then
        setField (readIPSet reader) (\<lambda>ipSet.
          let rule' = rule\<lparr>opt_SourceIPSet := Some ipSet\<rparr> in
          if recover then rule'\<lparr>opt_SourceIPCIDR := Set_Prefixes P ipSet\<rparr> else rule')
      else if itemType = ruleItemIPCIDR then
        setField (readIPSet reader) (\<lambda>ipSet.
          let rule' = rule\<lparr>opt_IPSet := Some ipSet\<rparr> in
          if recover then rule'\<lparr>opt_IPCIDR := Set_Prefixes P ipSet\<rparr> else rule')
      else if itemType = ruleItemSourcePort then setField slice16 (\<lambda>v. rule\<lparr>opt_SourcePort := v\<rparr>)
      else if itemType = ruleItemSourcePortRange then
        setField strings (\<lambda>v. rule\<lparr>opt_SourcePortRange := v\<rparr>)
      else if itemType = ruleItemPort then setField slice16 (\<lambda>v. rule\<lparr>opt_Port := v\<rparr>)
      else if itemType = ruleItemPortRange then setField strings (\<lambda>v. rule\<lparr>opt_PortRange := v\<rparr>)
      else if itemType = ruleItemProcessName then setField strings (\<lambda>v. rule\<lparr>opt_ProcessName := v\<rparr>)
      else if itemType = ruleItemProcessPath then setField strings (\<lambda>v. rule\<lparr>opt_ProcessPath := v\<rparr>)
      else if itemType = ruleItemProcessPathRegex then
        setField strings (\<lambda>v. rule\<lparr>opt_ProcessPathRegex := v\<rparr>)
      else if itemType = ruleItemPackageName then setField strings (\<lambda>v. rule\<lparr>opt_PackageName := v\<rparr>)
      else if itemType = ruleItemPackageNameRegex then
        setField strings (\<lambda>v. rule\<lparr>opt_PackageNameRegex := v\<rparr>)
      else if itemType = ruleItemWIFISSID then setField strings (\<lambda>v. rule\<lparr>opt_WIFISSID := v\<rparr>)
      else if itemType = ruleItemWIFIBSSID then setField strings (\<lambda>v. rule\<lparr>opt_WIFIBSSID := v\<rparr>)
      else if itemType = ruleItemAdGuardDomain then
        setField (delivered (libReadAdGuard P reader)) (\<lambda>matcher.
          let rule' = rule\<lparr>opt_AdGuardDomainMatcher := Some (libMatchAdGuard P matcher)\<rparr> in
          if recover then rule'\<lparr>opt_AdGuardDomain := libDumpAdGuard P matcher\<rparr> else rule')
      else if itemType = ruleItemNetworkType then
        setField (delivered (libReadSlice8 P reader)) (\<lambda>v. rule\<lparr>opt_NetworkType := v\<rparr>)
      else if itemType = ruleItemNetworkIsExpensive then
        Inr (rule\<lparr>opt_NetworkIsExpensive := True\<rparr>, reader)
      else if itemType = ruleItemNetworkIsConstrained then
        Inr (rule\<lparr>opt_NetworkIsConstrained := True\<rparr>, reader)
      else if itemType = ruleItemNetworkInterfaceAddress then
        setField (thenRead (readUvarint reader) (\<lambda>sz r. readTimes sz (readInterfaceEntry E) r))
          (\<lambda>entries. rule\<lparr>opt_NetworkInterfaceAddress :=
             fold (\<lambda>(key, v). AList.update key v) entries []\<rparr>)
      else if itemType = ruleItemDefaultInterfaceAddress then
        setField (readPrefixes E reader) (\<lambda>v. rule\<lparr>opt_DefaultInterfaceAddress := v\<rparr>)
      else Inl (UnknownItemType itemType lastItemType))"

text \<open>The loop, which nothing bounds but the input: no result means that it does not end.\<close>

partial_function (option) readDefaultRule ::
  "('m, 'a) srsLib \<Rightarrow> env \<Rightarrow> bool \<Rightarrow> u8 \<Rightarrow> ruleOptions \<Rightarrow> bytes
     \<Rightarrow> (srs_error + ruleOptions \<times> bytes) option" where
  "readDefaultRule P E recover lastItemType rule reader =
     (case readByte reader of
        Inl e \<Rightarrow> Some (Inl e)
      | Inr (itemType, r) \<Rightarrow>
          if itemType = ruleItemFinal then
            Some (setField (readByte r) (\<lambda>b. rule\<lparr>opt_Invert := b \<noteq> 0\<rparr>))
          else (case readRuleItem P E recover lastItemType itemType rule r of
             Inl e \<Rightarrow> Some (Inl e)
           | Inr (rule', r') \<Rightarrow> readDefaultRule P E recover itemType rule' r'))"

text \<open>The loops over the rules of a set or of a logical rule, which report the index of a bad one.\<close>

primrec readRules ::
  "nat \<Rightarrow> nat \<Rightarrow> (bytes \<Rightarrow> (srs_error + 'x \<times> bytes) option) \<Rightarrow> bytes
     \<Rightarrow> (srs_error + 'x list \<times> bytes) option" where
  "readRules i 0 f reader = Some (Inr ([], reader))"
| "readRules i (Suc n) f reader =
     (case f reader of
        None \<Rightarrow> None
      | Some (Inl e) \<Rightarrow> Some (Inl (ReadRuleAt i e))
      | Some (Inr (x, r)) \<Rightarrow>
          (case readRules (Suc i) n f r of
             None \<Rightarrow> None
           | Some (Inl e) \<Rightarrow> Some (Inl e)
           | Some (Inr (xs, r')) \<Rightarrow> Some (Inr (x # xs, r'))))"

definition readLogicalRule ::
  "(bytes \<Rightarrow> (srs_error + HeadlessRuleOptions \<times> bytes) option) \<Rightarrow> bytes
     \<Rightarrow> (srs_error + HeadlessRuleOptions \<times> bytes) option" where
  "readLogicalRule readSubRule reader =
     (case readByte reader of
        Inl e \<Rightarrow> Some (Inl e)
      | Inr (m, r) \<Rightarrow>
          if m \<noteq> 0 \<and> m \<noteq> 1 then Some (Inl (UnknownModeByte m))
          else (case readUvarint r of
             Inl e \<Rightarrow> Some (Inl e)
           | Inr (len, r) \<Rightarrow>
               (case readRules 0 len readSubRule r of
                  None \<Rightarrow> None
                | Some (Inl e) \<Rightarrow> Some (Inl e)
                | Some (Inr (rules, r)) \<Rightarrow>
                    Some (thenRead (readByte r) (\<lambda>b r.
                      Inr (HeadlessLogicalOptions (if m = 0 then ''and'' else ''or'') rules (b \<noteq> 0), r))))))"

text \<open>
  \<^verbatim>\<open>readRule\<close> by the number of levels left: at depth \<open>d\<close> it is called with
  \<open>maxLogicalRuleDepth + 1 - d\<close>, and a rule below the last level is refused.
\<close>

primrec readRule ::
  "nat \<Rightarrow> ('m, 'a) srsLib \<Rightarrow> env \<Rightarrow> bool \<Rightarrow> bytes
     \<Rightarrow> (srs_error + HeadlessRuleOptions \<times> bytes) option" where
  "readRule 0 P E recover reader = Some (Inl NestedTooDeep)"
| "readRule (Suc levels) P E recover reader =
     (case readByte reader of
        Inl e \<Rightarrow> Some (Inl e)
      | Inr (ruleType, r) \<Rightarrow>
          if ruleType = 0 then
            map_option (\<lambda>p. thenRead p (\<lambda>rule r. Inr (HeadlessDefaultOptions rule, r)))
              (readDefaultRule P E recover 0 ruleOptionsZero r)
          else if ruleType = 1 then readLogicalRule (readRule levels P E recover) r
          else Some (Inl (UnknownRuleTypeByte ruleType)))"

definition SRS_Read ::
  "('m, 'a) srsLib \<Rightarrow> env \<Rightarrow> bool \<Rightarrow> bytes
     \<Rightarrow> (srs_error + u8 \<times> HeadlessRuleOptions list) option" where
  "SRS_Read P E recover reader =
     (case readFull 3 reader of
        Inl e \<Rightarrow> Some (Inl e)
      | Inr (magicBytes, r) \<Rightarrow>
          if magicBytes \<noteq> MagicBytes then Some (Inl InvalidRuleSetFile)
          else (case readByte r of
             Inl e \<Rightarrow> Some (Inl e)
           | Inr (version, r) \<Rightarrow>
               if version > RuleSetVersionCurrent then Some (Inl (UnsupportedVersion version))
               else (case libDecompress P r of
                  None \<Rightarrow> Some (Inl ReadFailed)
                | Some bReader \<Rightarrow>
                    (case readUvarint bReader of
                       Inl e \<Rightarrow> Some (Inl e)
                     | Inr (len, r) \<Rightarrow>
                         map_option (\<lambda>p. thenRead p (\<lambda>rules r. Inr (version, rules)))
                           (readRules 0 len (readRule (Suc maxLogicalRuleDepth) P E recover) r)))))"

section \<open>Writing rules\<close>

definition writeRuleItemString :: "(nat \<Rightarrow> bytes) \<Rightarrow> u8 \<Rightarrow> string list \<Rightarrow> bytes" where
  "writeRuleItemString W itemType v =
     itemType # W (length v) @ concat (map (\<lambda>s. W (length s) @ str_bytes s) v)"

definition writeRuleItemUint8 :: "(nat \<Rightarrow> bytes) \<Rightarrow> u8 \<Rightarrow> u8 list \<Rightarrow> bytes" where
  "writeRuleItemUint8 W itemType v = itemType # W (length v) @ v"

definition writeRuleItemUint16 :: "(nat \<Rightarrow> bytes) \<Rightarrow> u8 \<Rightarrow> u16 list \<Rightarrow> bytes" where
  "writeRuleItemUint16 W itemType v =
     itemType # W (length v) @ concat (map (\<lambda>x. be_bytes 2 (unat x)) v)"

text \<open>Without a memory map the set is always made from the prefixes.\<close>

definition writeRuleItemCIDR ::
  "(nat \<Rightarrow> bytes) \<Rightarrow> env \<Rightarrow> string \<Rightarrow> u8 \<Rightarrow> Prefix list \<Rightarrow> srs_error + bytes" where
  "writeRuleItemCIDR W E cause itemType v =
     (case BuildIPSet E v of
        None \<Rightarrow> Inl (IPSetBuildError cause)
      | Some ranges \<Rightarrow> Inr (itemType # writeIPSet W (FromIPSet ranges)))"

text \<open>Steps of the writer: each writes its bytes under a condition, the first error ends it.\<close>

definition emit :: "bool \<Rightarrow> srs_error + bytes \<Rightarrow> srs_error + bytes" where
  "emit cond result = (if cond then result else Inr [])"

definition since :: "u8 \<Rightarrow> u8 \<Rightarrow> string \<Rightarrow> bytes \<Rightarrow> srs_error + bytes" where
  "since minVersion version field bs = (if version < minVersion then Inl (VersionTooLow field) else Inr bs)"

fun writeSteps :: "(srs_error + bytes) list \<Rightarrow> srs_error + bytes" where
  "writeSteps [] = Inr []"
| "writeSteps (Inl e # steps) = Inl e"
| "writeSteps (Inr bs # steps) = map_sum id ((@) bs) (writeSteps steps)"

definition writeDefaultRule_steps ::
  "('m, 'a) srsLib \<Rightarrow> env \<Rightarrow> u8 \<Rightarrow> ruleOptions \<Rightarrow> (srs_error + bytes) list" where
  "writeDefaultRule_steps P E generateVersion rule =
     (let W = libUvarint P; strings = (\<lambda>t v. emit (v \<noteq> []) (Inr (writeRuleItemString W t v))) in
      [emit (opt_QueryType rule \<noteq> []) (Inr (writeRuleItemUint16 W ruleItemQueryType (opt_QueryType rule))),
       strings ruleItemNetwork (opt_Network rule),
       emit (opt_Domain rule \<noteq> [] \<or> opt_DomainSuffix rule \<noteq> [])
         (if [] \<in> set (opt_Domain rule) then Inl (EmptyItemNotAllowed ''domain'')
          else if [] \<in> set (opt_DomainSuffix rule) then Inl (EmptyItemNotAllowed ''domain_suffix'')
          else Inr (ruleItemDomain # libWriteMatcher P
            (libNewMatcher P (opt_Domain rule) (opt_DomainSuffix rule) (generateVersion = 1)))),
       strings ruleItemDomainKeyword (opt_DomainKeyword rule),
       strings ruleItemDomainRegex (opt_DomainRegex rule),
       emit (opt_SourceIPCIDR rule \<noteq> [])
         (writeRuleItemCIDR W E ''source_ip_cidr'' ruleItemSourceIPCIDR (opt_SourceIPCIDR rule)),
       emit (opt_IPCIDR rule \<noteq> [])
         (writeRuleItemCIDR W E ''ipcidr'' ruleItemIPCIDR (opt_IPCIDR rule)),
       emit (opt_SourcePort rule \<noteq> []) (Inr (writeRuleItemUint16 W ruleItemSourcePort (opt_SourcePort rule))),
       strings ruleItemSourcePortRange (opt_SourcePortRange rule),
       emit (opt_Port rule \<noteq> []) (Inr (writeRuleItemUint16 W ruleItemPort (opt_Port rule))),
       strings ruleItemPortRange (opt_PortRange rule),
       strings ruleItemProcessName (opt_ProcessName rule),
       strings ruleItemProcessPath (opt_ProcessPath rule),
       strings ruleItemProcessPathRegex (opt_ProcessPathRegex rule),
       strings ruleItemPackageName (opt_PackageName rule),
       emit (opt_PackageNameRegex rule \<noteq> [])
         (since 5 generateVersion ''package_name_regex''
           (writeRuleItemString W ruleItemPackageNameRegex (opt_PackageNameRegex rule))),
       emit (opt_NetworkType rule \<noteq> [])
         (since 3 generateVersion ''network_type''
           (writeRuleItemUint8 W ruleItemNetworkType (opt_NetworkType rule))),
       emit (opt_NetworkIsExpensive rule)
         (since 3 generateVersion ''network_is_expensive'' [ruleItemNetworkIsExpensive]),
       emit (opt_NetworkIsConstrained rule)
         (since 3 generateVersion ''network_is_constrained'' [ruleItemNetworkIsConstrained]),
       emit (opt_NetworkInterfaceAddress rule \<noteq> [])
         (since 4 generateVersion ''network_interface_address''
           (ruleItemNetworkInterfaceAddress # W (length (opt_NetworkInterfaceAddress rule))
            @ concat (map (\<lambda>(key, prefixes). key # writePrefixes W prefixes)
                (opt_NetworkInterfaceAddress rule)))),
       emit (opt_DefaultInterfaceAddress rule \<noteq> [])
         (since 4 generateVersion ''default_interface_address''
           (ruleItemDefaultInterfaceAddress # writePrefixes W (opt_DefaultInterfaceAddress rule))),
       strings ruleItemWIFISSID (opt_WIFISSID rule),
       strings ruleItemWIFIBSSID (opt_WIFIBSSID rule),
       emit (opt_AdGuardDomain rule \<noteq> [])
         (since 2 generateVersion ''AdGuard''
           (ruleItemAdGuardDomain # libWriteAdGuard P (libNewAdGuard P (opt_AdGuardDomain rule))))])"

definition boolByte :: "bool \<Rightarrow> u8" where
  "boolByte b = (if b then 1 else 0)"

definition writeDefaultRule ::
  "('m, 'a) srsLib \<Rightarrow> env \<Rightarrow> u8 \<Rightarrow> ruleOptions \<Rightarrow> srs_error + bytes" where
  "writeDefaultRule P E generateVersion rule =
     map_sum id (\<lambda>bs. [0] @ bs @ [ruleItemFinal, boolByte (opt_Invert rule)])
       (writeSteps (writeDefaultRule_steps P E generateVersion rule))"

fun writeRule ::
  "('m, 'a) srsLib \<Rightarrow> env \<Rightarrow> u8 \<Rightarrow> HeadlessRuleOptions \<Rightarrow> srs_error + bytes"
  and writeRules ::
  "('m, 'a) srsLib \<Rightarrow> env \<Rightarrow> u8 \<Rightarrow> HeadlessRuleOptions list \<Rightarrow> srs_error + bytes" where
  "writeRule P E generateVersion (HeadlessDefaultOptions rule) =
     writeDefaultRule P E generateVersion rule"
| "writeRule P E generateVersion (HeadlessLogicalOptions mode rules inverted) =
     (if mode \<noteq> ''and'' \<and> mode \<noteq> ''or'' then Inl (UnknownModeName mode)
      else map_sum id (\<lambda>bs. [1, if mode = ''and'' then 0 else 1] @ libUvarint P (length rules) @ bs
                            @ [boolByte inverted])
        (writeRules P E generateVersion rules))"
| "writeRule P E generateVersion (HeadlessUnknownTypeOptions t) = Inl (UnknownRuleTypeName t)"
| "writeRules P E generateVersion [] = Inr []"
| "writeRules P E generateVersion (rule # rules) =
     (case writeRule P E generateVersion rule of
        Inl e \<Rightarrow> Inl e
      | Inr bs \<Rightarrow> map_sum id ((@) bs) (writeRules P E generateVersion rules))"

definition SRS_Write ::
  "('m, 'a) srsLib \<Rightarrow> env \<Rightarrow> HeadlessRuleOptions list \<Rightarrow> u8 \<Rightarrow> srs_error + bytes" where
  "SRS_Write P E rules generateVersion =
     map_sum id (\<lambda>bs. MagicBytes @ [generateVersion]
                      @ libCompress P (libUvarint P (length rules) @ bs))
       (writeRules P E generateVersion rules)"

end
