(* ===== verification/SRSProps.thy ===== *)
theory SRSProps
  imports SRS
begin

text \<open>
  Properties of the binary rule-set format: a rule set that was written is read
  back as the same rules with their matchers and sets prepared, the reader
  returns on every input, and the rules it gives match as the source does.
\<close>

section \<open>What the libraries promise\<close>

definition plainPrefix :: "Prefix \<Rightarrow> bool" where
  "plainPrefix p \<longleftrightarrow> AddrIsValid (PrefixAddr p) \<and> \<not> hasZone (PrefixAddr p) \<and> \<not> Is4In6 (PrefixAddr p)
     \<and> 0 \<le> PrefixBits p \<and> PrefixBits p \<le> BitLen (PrefixAddr p)"

definition slice_laws :: "('m, 'a) srsLib \<Rightarrow> bool" where
  "slice_laws P \<longleftrightarrow> varint_laws (libUvarint P) \<and>
     (\<forall>bs rest. length bs < 2 ^ 64 \<longrightarrow>
        libReadSlice8 P (libUvarint P (length bs) @ bs @ rest) = Some (bs, rest)) \<and>
     (\<forall>xs rest. length xs < 2 ^ 64 \<longrightarrow>
        libReadSlice16 P (libUvarint P (length xs) @ concat (map (\<lambda>x. be_bytes 2 (unat x)) xs) @ rest)
          = Some (xs, rest))"

definition matcher_laws :: "('m, 'a) srsLib \<Rightarrow> env \<Rightarrow> bool" where
  "matcher_laws P E \<longleftrightarrow>
     (\<forall>m rest. libReadMatcher P (libWriteMatcher P m @ rest) = Some (m, rest)) \<and>
     (\<forall>d s l. libMatch P (libNewMatcher P d s l) = NewMatcher E d s l) \<and>
     (\<forall>m rest. libReadAdGuard P (libWriteAdGuard P m @ rest) = Some (m, rest)) \<and>
     (\<forall>ls. libMatchAdGuard P (libNewAdGuard P ls) = NewAdGuardMatcher E ls)"

definition address_laws :: "env \<Rightarrow> bool" where
  "address_laws E \<longleftrightarrow>
     (\<forall>a. AddrIsValid a \<and> \<not> hasZone a \<and> \<not> Is4In6 a \<longrightarrow> AddrFromIP E (AsSlice a) = a) \<and>
     (\<forall>ps rs. BuildIPSet E ps = Some rs \<longrightarrow> netipx_ranges rs)"

definition srs_laws :: "('m, 'a) srsLib \<Rightarrow> env \<Rightarrow> bool" where
  "srs_laws P E \<longleftrightarrow> slice_laws P \<and> matcher_laws P E \<and> address_laws E \<and>
     (\<forall>bs. libDecompress P (libCompress P bs) = Some bs)"

lemma srs_laws_varint: "srs_laws P E \<Longrightarrow> varint_laws (libUvarint P)"
  by (simp add: srs_laws_def slice_laws_def)

section \<open>Elements\<close>

lemma thenRead_simps [simp, codec_simps]:
  "thenRead (Inl e) f = Inl e" "thenRead (Inr (x, r)) f = f x r"
  by (simp_all add: thenRead_def)

lemma delivered_simps [simp, codec_simps]:
  "delivered None = Inl ReadFailed" "delivered (Some r) = Inr r"
  by (simp_all add: delivered_def)

lemma readByte_simps [simp, codec_simps]:
  "readByte (b # rest) = Inr (b, rest)" "readByte [] = Inl ReadFailed"
  by (simp_all add: readByte_def)

lemma setField_Inr [simp, codec_simps]: "setField (Inr (x, r)) f = Inr (f x, r)"
  by (simp add: setField_def)

lemma readTimes_append:
  assumes "\<And>x rest. x \<in> set xs \<Longrightarrow> f (g x @ rest) = Inr (h x, rest)"
  shows "readTimes (length xs) f (concat (map g xs) @ rest) = Inr (map h xs, rest)"
  using assms by (induction xs) simp_all

definition sizes64 :: "string list \<Rightarrow> bool" where
  "sizes64 v \<longleftrightarrow> length v < 2 ^ 64 \<and> (\<forall>s \<in> set v. length s < 2 ^ 64)"

lemma slice8:
  "srs_laws P E \<Longrightarrow> length bs < 2 ^ 64 \<Longrightarrow>
   libReadSlice8 P (libUvarint P (length bs) @ bs @ rest) = Some (bs, rest)"
  by (simp add: srs_laws_def slice_laws_def)

lemma slice16:
  "srs_laws P E \<Longrightarrow> length xs < 2 ^ 64 \<Longrightarrow>
   libReadSlice16 P (libUvarint P (length xs) @ concat (map (\<lambda>x. be_bytes 2 (unat x)) xs) @ rest)
     = Some (xs, rest)"
  by (simp add: srs_laws_def slice_laws_def)

lemma strings_read:
  assumes "srs_laws P E" "sizes64 v"
  shows "readRuleItemString P (libUvarint P (length v)
       @ concat (map (\<lambda>s. libUvarint P (length s) @ str_bytes s) v) @ rest) = Inr (v, rest)"
proof -
  have "libReadSlice8 P (libUvarint P (length s) @ str_bytes s @ r) = Some (str_bytes s, r)"
    if "s \<in> set v" for s r
    using slice8 [OF assms(1), of "str_bytes s"] assms(2) that by (simp add: sizes64_def)
  then have "readTimes (length v)
      (\<lambda>r. thenRead (delivered (libReadSlice8 P r)) (\<lambda>v r. Inr (bytes_str v, r)))
      (concat (map (\<lambda>s. libUvarint P (length s) @ str_bytes s) v) @ rest) = Inr (map id v, rest)"
    by (intro readTimes_append) simp
  then show ?thesis
    using assms(2) varint_read [OF srs_laws_varint [OF assms(1)]]
    by (simp add: readRuleItemString_def sizes64_def)
qed

lemma prefix_read:
  assumes "srs_laws P E" "plainPrefix p"
  shows "ReadPrefix E (WritePrefix (libUvarint P) p @ rest) = Inr (p, rest)"
proof -
  obtain a b where p: "p = Prefix a b" by (cases p)
  have a: "AddrFromIP E (AsSlice a) = a"
    using assms p by (simp add: srs_laws_def address_laws_def plainPrefix_def)
  have len: "length (AsSlice a) = 4 \<or> length (AsSlice a) = 16" and zone: "WithZone a [] = a"
    and bits: "0 \<le> b" "b \<le> BitLen a" "BitLen a \<le> 128"
    using assms(2) p by (cases a; simp add: plainPrefix_def)+
  have "uint (word_of_int b :: u8) = b"
    using bits by (simp add: uint_word_of_int take_bit_int_eq_self_iff)
  moreover have "read_uvarint (libUvarint P (length (AsSlice a)) @ r) = Some (length (AsSlice a), r)" for r
    using len by (intro varint_read [OF srs_laws_varint [OF assms(1)]]) auto
  ultimately show ?thesis
    using a len zone bits assms(2) p
    by (auto simp: ReadPrefix_def WritePrefix_def Let_def PrefixFrom_def plainPrefix_def)
qed

lemma prefixes_read:
  assumes "srs_laws P E" "\<forall>p \<in> set ps. plainPrefix p" "length ps < 2 ^ 64"
  shows "readPrefixes E (writePrefixes (libUvarint P) ps @ rest) = Inr (ps, rest)"
proof -
  have "readTimes (length ps) (ReadPrefix E) (concat (map (WritePrefix (libUvarint P)) ps) @ rest)
      = Inr (map id ps, rest)"
    by (intro readTimes_append) (use assms(2) prefix_read [OF assms(1)] in auto)
  then show ?thesis
    using assms(3) varint_read [OF srs_laws_varint [OF assms(1)]]
    by (simp add: readPrefixes_def writePrefixes_def)
qed

section \<open>Address sets\<close>

lemma addr_read:
  "varint_laws W \<Longrightarrow> length a = 4 \<or> length a = 16 \<Longrightarrow>
   readIPSetAddr (writeIPSetAddr W a @ rest) = Inr (a, rest)"
  by (auto simp: readIPSetAddr_def writeIPSetAddr_def varint_read)

lemma lefts_rights [simp]:
  "lefts (map Inl xs @ map Inr ys) = xs" "rights (map Inl xs @ map Inr ys) = ys"
proof -
  have "lefts (map Inr ys :: ('a + 'b) list) = []" "rights (map Inr ys :: ('a + 'b) list) = ys"
    by (induction ys) simp_all
  then show "lefts (map Inl xs @ map Inr ys) = xs" "rights (map Inl xs @ map Inr ys) = ys"
    by (induction xs) simp_all
qed

lemma ordered_sorted:
  "ordered4 rs \<Longrightarrow> sorted (map From4 rs)"
  "ordered6 qs \<Longrightarrow> sorted (map (\<lambda>x. be_uint (From6 x)) qs)"
proof -
  show "sorted (map From4 rs)" if "ordered4 rs"
    using that unfolding ordered4_def sorted_map
    by (auto simp: list_all_iff elim!: sorted_wrt_mono_rel [rotated] intro: order.trans less_imp_le)
  show "sorted (map (\<lambda>x. be_uint (From6 x)) qs)" if "ordered6 qs"
    using that unfolding ordered6_def sorted_map
    by (auto simp: list_all_iff elim!: sorted_wrt_mono_rel [rotated] intro: order.trans less_imp_le)
qed

lemma FromRanges_self:
  assumes "ordered4 (ranges4 s)" "arrays6 (ranges6 s)" "ordered6 (ranges6 s)"
  shows "FromRanges (ranges4 s) (ranges6 s) = Inr s"
proof -
  have "checkRanges4 0 None (ranges4 s) = None" "checkRanges6 0 None (ranges6 s) = None"
    using assms by (simp_all add: checkRanges4_None checkRanges6_None)
  then show ?thesis by (simp add: FromRanges_def)
qed

lemma ipset_read:
  assumes W: "varint_laws W" and ok: "ordered4 (ranges4 s)" "arrays6 (ranges6 s)" "ordered6 (ranges6 s)"
    and small: "length (ranges4 s) + length (ranges6 s) < 2 ^ 64"
  shows "readIPSet (writeIPSet W s @ rest) = Inr (s, rest)"
proof -
  let ?g = "case_sum (\<lambda>r. writeIPSetAddr W (be_bytes 4 (unat (From4 r))) @ writeIPSetAddr W (be_bytes 4 (unat (To4 r))))
      (\<lambda>r. writeIPSetAddr W (From6 r) @ writeIPSetAddr W (To6 r))"
  let ?rs = "map Inl (ranges4 s) @ map Inr (ranges6 s)"
  have range: "readIPRange (?g x @ r) = Inr (id x, r)" if "x \<in> set ?rs" for x r
    using that ok(2) by (auto simp: readIPRange_def addr_read [OF W] arrays6_def list_all_iff)
  have "readTimes (length ?rs) readIPRange (concat (map ?g ?rs) @ rest) = Inr (map id ?rs, rest)"
    by (rule readTimes_append) (rule range)
  then have "readTimes (length (ranges4 s) + length (ranges6 s)) readIPRange
      (concat (map (\<lambda>r. writeIPSetAddr W (be_bytes 4 (unat (From4 r)))
                      @ writeIPSetAddr W (be_bytes 4 (unat (To4 r)))) (ranges4 s))
        @ concat (map (\<lambda>r. writeIPSetAddr W (From6 r) @ writeIPSetAddr W (To6 r)) (ranges6 s)) @ rest)
      = Inr (?rs, rest)"
    by (simp add: comp_def)
  moreover have "be_uint (be_bytes 8 (length (ranges4 s) + length (ranges6 s))) = length (ranges4 s) + length (ranges6 s)"
    using small by (simp add: be_uint_be_bytes)
  moreover have "sort_key From4 (ranges4 s) = ranges4 s"
    "sort_key (\<lambda>x. be_uint (From6 x)) (ranges6 s) = ranges6 s"
    using ordered_sorted(1) [OF ok(1)] ordered_sorted(2) [OF ok(3)] by (simp_all add: sorted_sort_id sort_key_id_if_sorted)
  ultimately show ?thesis
    using FromRanges_self [OF ok] by (simp add: readIPSet_def writeIPSet_def)
qed

section \<open>Rules\<close>

text \<open>What a step of the writer does to the rule being read.\<close>

definition applies ::
  "('m, 'a) srsLib \<Rightarrow> env \<Rightarrow> bool \<Rightarrow> srs_error + bytes \<Rightarrow> (ruleOptions \<Rightarrow> ruleOptions) \<Rightarrow> bool" where
  "applies P E rc step upd \<longleftrightarrow>
     (\<forall>bs item rule rest. step = Inr bs \<longrightarrow>
        (\<exists>item'. readDefaultRule P E rc item rule (bs @ rest) = readDefaultRule P E rc item' (upd rule) rest))"

lemma appliesI:
  assumes "\<not> c \<Longrightarrow> (\<And>r. upd r = r)" "t \<noteq> ruleItemFinal"
    and "\<And>bs. c \<Longrightarrow> s = Inr bs \<Longrightarrow> \<exists>b. bs = t # b \<and>
      (\<forall>item rule rest. readRuleItem P E rc item t rule (b @ rest) = Inr (upd rule, rest))"
  shows "applies P E rc (emit c s) upd"
proof (cases c)
  case True
  have "\<exists>item'. readDefaultRule P E rc item rule (bs @ rest) = readDefaultRule P E rc item' (upd rule) rest"
    if found: "s = Inr bs" for bs item rule rest
  proof -
    obtain b where "bs = t # b" "\<And>item rule rest. readRuleItem P E rc item t rule (b @ rest) = Inr (upd rule, rest)"
      using assms(3) [OF True found] by blast
    then have "readDefaultRule P E rc item rule (bs @ rest) = readDefaultRule P E rc t (upd rule) rest"
      using assms(2) by (subst readDefaultRule.simps) simp
    then show ?thesis by blast
  qed
  then show ?thesis using True by (auto simp: applies_def emit_def)
qed (use assms(1) in \<open>auto simp: applies_def emit_def\<close>)

lemma applies_all:
  "list_all2 (applies P E rc) steps upds \<Longrightarrow> writeSteps steps = Inr bs \<Longrightarrow>
   \<exists>item'. readDefaultRule P E rc item rule (bs @ rest) =
     readDefaultRule P E rc item' (fold (\<lambda>upd. upd) upds rule) rest"
proof (induction steps arbitrary: upds bs item rule)
  case (Cons step steps)
  then obtain upd upds' where u: "upds = upd # upds'" "applies P E rc step upd"
    "list_all2 (applies P E rc) steps upds'" by (auto simp: list_all2_Cons1)
  from Cons.prems(2) obtain b bs' where b: "step = Inr b" "writeSteps steps = Inr bs'" "bs = b @ bs'"
    by (cases step) auto
  obtain item1 where "readDefaultRule P E rc item rule (bs @ rest) = readDefaultRule P E rc item1 (upd rule) (bs' @ rest)"
    using u(2) b(1) unfolding b(3) append_assoc applies_def by blast
  then show ?case using Cons.IH [OF u(3) b(2), of item1 "upd rule"] u(1) by auto
qed auto

lemma applies_strings:
  assumes "srs_laws P E" "sizes64 v" "t \<noteq> ruleItemFinal" "v = [] \<Longrightarrow> (\<And>r. upd r = r)"
    and "\<And>item rule reader rest. v \<noteq> [] \<Longrightarrow> readRuleItemString P reader = Inr (v, rest) \<Longrightarrow>
      readRuleItem P E rc item t rule reader = Inr (upd rule, rest)"
  shows "applies P E rc (emit (v \<noteq> []) (Inr (writeRuleItemString (libUvarint P) t v))) upd"
    "applies P E rc (emit (v \<noteq> []) (since m ver n (writeRuleItemString (libUvarint P) t v))) upd"
proof -
  have "readRuleItem P E rc item t rule
      ((libUvarint P (length v) @ concat (map (\<lambda>s. libUvarint P (length s) @ str_bytes s) v)) @ rest) = Inr (upd rule, rest)"
    if "v \<noteq> []" for item rule rest
    using assms(5) [OF that] strings_read [OF assms(1,2)] by simp
  then show "applies P E rc (emit (v \<noteq> []) (Inr (writeRuleItemString (libUvarint P) t v))) upd"
    "applies P E rc (emit (v \<noteq> []) (since m ver n (writeRuleItemString (libUvarint P) t v))) upd"
    using assms(3,4) by (auto intro!: appliesI simp: writeRuleItemString_def since_def split: if_splits)
qed

lemma applies_uint16:
  assumes "srs_laws P E" "length v < 2 ^ 64" "t \<noteq> ruleItemFinal" "v = [] \<Longrightarrow> (\<And>r. upd r = r)"
    and "\<And>item rule reader rest. v \<noteq> [] \<Longrightarrow> libReadSlice16 P reader = Some (v, rest) \<Longrightarrow>
      readRuleItem P E rc item t rule reader = Inr (upd rule, rest)"
  shows "applies P E rc (emit (v \<noteq> []) (Inr (writeRuleItemUint16 (libUvarint P) t v))) upd"
proof -
  have "readRuleItem P E rc item t rule
      ((libUvarint P (length v) @ concat (map (\<lambda>x. be_bytes 2 (unat x)) v)) @ rest) = Inr (upd rule, rest)"
    if "v \<noteq> []" for item rule rest
    using assms(5) [OF that] slice16 [OF assms(1,2)] by simp
  then show ?thesis
    using assms(3,4) by (auto intro!: appliesI simp: writeRuleItemUint16_def)
qed

text \<open>Sets that were written by the builder are read back.\<close>

lemma built_set:
  assumes "srs_laws P E" "BuildIPSet E ps = Some rs" "length rs < 2 ^ 64"
  shows "readIPSet (writeIPSet (libUvarint P) (FromIPSet rs) @ rest) = Inr (FromIPSet rs, rest)"
proof (rule ipset_read [OF srs_laws_varint [OF assms(1)]])
  have "netipx_ranges rs" using assms(1,2) by (simp add: srs_laws_def address_laws_def)
  note * = FromIPSet_ordered [OF this]
  show "ordered4 (ranges4 (FromIPSet rs))" "arrays6 (ranges6 (FromIPSet rs))" "ordered6 (ranges6 (FromIPSet rs))"
    using * by simp_all
  have "length (ranges4 (FromIPSet rs)) + length (ranges6 (FromIPSet rs)) = length rs"
    by (induction rs rule: FromIPSet.induct) (auto simp: Let_def)
  then show "length (ranges4 (FromIPSet rs)) + length (ranges6 (FromIPSet rs)) < 2 ^ 64"
    using assms(3) by simp
qed

definition set_small :: "env \<Rightarrow> Prefix list \<Rightarrow> bool" where
  "set_small E ps \<longleftrightarrow> (\<forall>rs. BuildIPSet E ps = Some rs \<longrightarrow> length rs < 2 ^ 64)"

definition builtSet :: "env \<Rightarrow> Prefix list \<Rightarrow> IPSetT" where
  "builtSet E ps = (case BuildIPSet E ps of Some rs \<Rightarrow> FromIPSet rs | None \<Rightarrow> FromIPSet [])"

lemma applies_cidr:
  assumes "srs_laws P E" "set_small E v" "t \<noteq> ruleItemFinal" "v = [] \<Longrightarrow> (\<And>r. upd r = r)"
    and "\<And>item rule reader rest. v \<noteq> [] \<Longrightarrow> readIPSet reader = Inr (builtSet E v, rest) \<Longrightarrow>
      readRuleItem P E rc item t rule reader = Inr (upd rule, rest)"
  shows "applies P E rc (emit (v \<noteq> []) (writeRuleItemCIDR (libUvarint P) E n t v)) upd"
proof (rule appliesI)
  fix bs assume v: "v \<noteq> []" and "writeRuleItemCIDR (libUvarint P) E n t v = Inr bs"
  then obtain rs where rs: "BuildIPSet E v = Some rs" "bs = t # writeIPSet (libUvarint P) (FromIPSet rs)"
    by (auto simp: writeRuleItemCIDR_def split: option.splits)
  moreover have "length rs < 2 ^ 64" using assms(2) rs(1) by (simp add: set_small_def)
  ultimately show "\<exists>b. bs = t # b \<and> (\<forall>item rule rest. readRuleItem P E rc item t rule (b @ rest) = Inr (upd rule, rest))"
    using assms(5) [OF v] built_set [OF assms(1) rs(1)] by (simp add: builtSet_def)
qed (use assms(3,4) in auto)

definition hasDomains :: "ruleOptions \<Rightarrow> bool" where
  "hasDomains src \<longleftrightarrow> opt_Domain src \<noteq> [] \<or> opt_DomainSuffix src \<noteq> []"

definition domainMatcher :: "('m, 'a) srsLib \<Rightarrow> u8 \<Rightarrow> ruleOptions \<Rightarrow> 'm" where
  "domainMatcher P ver src = libNewMatcher P (opt_Domain src) (opt_DomainSuffix src) (ver = 1)"

text \<open>
  The options a written rule is read back as: the lists are kept, the domains
  and the prefixes become a matcher and sets, listed again only when they are
  recovered, and what the format has no place for, such as the strategy to
  match domains by, is lost.
\<close>

definition compiledOptions ::
  "('m, 'a) srsLib \<Rightarrow> env \<Rightarrow> bool \<Rightarrow> u8 \<Rightarrow> ruleOptions \<Rightarrow> ruleOptions" where
  "compiledOptions P E rc ver src = ruleOptionsZero\<lparr>
     opt_QueryType := opt_QueryType src,
     opt_Network := opt_Network src,
     opt_DomainKeyword := opt_DomainKeyword src,
     opt_DomainRegex := opt_DomainRegex src,
     opt_SourcePort := opt_SourcePort src,
     opt_SourcePortRange := opt_SourcePortRange src,
     opt_Port := opt_Port src,
     opt_PortRange := opt_PortRange src,
     opt_ProcessName := opt_ProcessName src,
     opt_ProcessPath := opt_ProcessPath src,
     opt_ProcessPathRegex := opt_ProcessPathRegex src,
     opt_PackageName := opt_PackageName src,
     opt_PackageNameRegex := opt_PackageNameRegex src,
     opt_NetworkType := opt_NetworkType src,
     opt_NetworkIsExpensive := opt_NetworkIsExpensive src,
     opt_NetworkIsConstrained := opt_NetworkIsConstrained src,
     opt_NetworkInterfaceAddress := opt_NetworkInterfaceAddress src,
     opt_DefaultInterfaceAddress := opt_DefaultInterfaceAddress src,
     opt_WIFISSID := opt_WIFISSID src,
     opt_WIFIBSSID := opt_WIFIBSSID src,
     opt_DomainMatcher := if hasDomains src then Some (NewMatcher E (opt_Domain src) (opt_DomainSuffix src) (ver = 1)) else None,
     opt_Domain := if rc \<and> hasDomains src then fst (libDump P (domainMatcher P ver src)) else [],
     opt_DomainSuffix := if rc \<and> hasDomains src then snd (libDump P (domainMatcher P ver src)) else [],
     opt_SourceIPSet := if opt_SourceIPCIDR src \<noteq> [] then Some (builtSet E (opt_SourceIPCIDR src)) else None,
     opt_SourceIPCIDR := if rc \<and> opt_SourceIPCIDR src \<noteq> [] then Set_Prefixes P (builtSet E (opt_SourceIPCIDR src)) else [],
     opt_IPSet := if opt_IPCIDR src \<noteq> [] then Some (builtSet E (opt_IPCIDR src)) else None,
     opt_IPCIDR := if rc \<and> opt_IPCIDR src \<noteq> [] then Set_Prefixes P (builtSet E (opt_IPCIDR src)) else [],
     opt_AdGuardDomainMatcher := if opt_AdGuardDomain src \<noteq> [] then Some (NewAdGuardMatcher E (opt_AdGuardDomain src)) else None,
     opt_AdGuardDomain := if rc \<and> opt_AdGuardDomain src \<noteq> [] then libDumpAdGuard P (libNewAdGuard P (opt_AdGuardDomain src)) else [],
     opt_Invert := opt_Invert src\<rparr>"

definition prefixes_ok :: "Prefix list \<Rightarrow> bool" where
  "prefixes_ok ps \<longleftrightarrow> length ps < 2 ^ 64 \<and> (\<forall>p \<in> set ps. plainPrefix p)"

definition writable :: "env \<Rightarrow> ruleOptions \<Rightarrow> bool" where
  "writable E src \<longleftrightarrow>
     list_all sizes64 [opt_Network src, opt_DomainKeyword src, opt_DomainRegex src, opt_SourcePortRange src, opt_PortRange src, opt_ProcessName src, opt_ProcessPath src, opt_ProcessPathRegex src, opt_PackageName src, opt_PackageNameRegex src, opt_WIFISSID src, opt_WIFIBSSID src] \<and>
     list_all (\<lambda>v. length v < 2 ^ 64) [opt_QueryType src, opt_SourcePort src, opt_Port src] \<and>
     length (opt_NetworkType src) < 2 ^ 64 \<and>
     set_small E (opt_SourceIPCIDR src) \<and> set_small E (opt_IPCIDR src) \<and>
     length (opt_NetworkInterfaceAddress src) < 2 ^ 64 \<and>
     distinct (map fst (opt_NetworkInterfaceAddress src)) \<and>
     (\<forall>e \<in> set (opt_NetworkInterfaceAddress src). prefixes_ok (snd e)) \<and>
     prefixes_ok (opt_DefaultInterfaceAddress src)"

definition given :: "'x list \<Rightarrow> 'x list \<Rightarrow> 'x list" where
  "given new old = (if new \<noteq> [] then new else old)"

lemma given_simps [simp]: "given [] old = old" "given new [] = new" "new \<noteq> [] \<Longrightarrow> given new old = new"
  by (simp_all add: given_def)

lemma update_entries:
  "distinct (map fst es) \<Longrightarrow> fst ` set es \<inter> fst ` set acc = {} \<Longrightarrow>
   fold (\<lambda>(key, v). AList.update key v) es acc = acc @ es"
proof (induction es arbitrary: acc)
  case (Cons e es)
  have "AList.update (fst e) (snd e) acc = acc @ [e]"
    using Cons.prems by (induction acc) auto
  then show ?case using Cons by (cases e) auto
qed simp

lemma entries_read:
  assumes "srs_laws P E" "length es < 2 ^ 64" "\<forall>e \<in> set es. prefixes_ok (snd e)"
  shows "thenRead (readUvarint (libUvarint P (length es)
       @ concat (map (\<lambda>(key, prefixes). key # writePrefixes (libUvarint P) prefixes) es) @ rest))
     (\<lambda>sz r. readTimes sz (readInterfaceEntry E) r) = Inr (es, rest)"
proof -
  have "readTimes (length es) (readInterfaceEntry E)
      (concat (map (\<lambda>(key, prefixes). key # writePrefixes (libUvarint P) prefixes) es) @ rest) = Inr (map id es, rest)"
    by (rule readTimes_append)
      (use assms(3) prefixes_read [OF assms(1)] in \<open>force simp: readInterfaceEntry_def prefixes_ok_def\<close>)
  then show ?thesis using assms(2) varint_read [OF srs_laws_varint [OF assms(1)]] by simp
qed

lemma matchers_read:
  assumes "srs_laws P E"
  shows "libReadMatcher P (libWriteMatcher P m @ rest) = Some (m, rest)"
    "libMatch P (libNewMatcher P ds ss l) = NewMatcher E ds ss l"
    "libReadAdGuard P (libWriteAdGuard P am @ rest) = Some (am, rest)"
    "libMatchAdGuard P (libNewAdGuard P ls) = NewAdGuardMatcher E ls"
  using assms by (simp_all add: srs_laws_def matcher_laws_def)

text \<open>What each step of the writer makes the reader do, in the order of the steps.\<close>

definition readUpdates ::
  "('m, 'a) srsLib \<Rightarrow> env \<Rightarrow> bool \<Rightarrow> u8 \<Rightarrow> ruleOptions \<Rightarrow> (ruleOptions \<Rightarrow> ruleOptions) list" where
  "readUpdates P E rc ver src =
     [\<lambda>r. r\<lparr>opt_QueryType := given (opt_QueryType src) (opt_QueryType r)\<rparr>,
      \<lambda>r. r\<lparr>opt_Network := given (opt_Network src) (opt_Network r)\<rparr>,
      \<lambda>r. r\<lparr>opt_DomainMatcher := if hasDomains src then Some (NewMatcher E (opt_Domain src) (opt_DomainSuffix src) (ver = 1)) else opt_DomainMatcher r,
         opt_Domain := if rc \<and> hasDomains src then fst (libDump P (domainMatcher P ver src)) else opt_Domain r,
         opt_DomainSuffix := if rc \<and> hasDomains src then snd (libDump P (domainMatcher P ver src)) else opt_DomainSuffix r\<rparr>,
      \<lambda>r. r\<lparr>opt_DomainKeyword := given (opt_DomainKeyword src) (opt_DomainKeyword r)\<rparr>,
      \<lambda>r. r\<lparr>opt_DomainRegex := given (opt_DomainRegex src) (opt_DomainRegex r)\<rparr>,
      \<lambda>r. r\<lparr>opt_SourceIPSet := if opt_SourceIPCIDR src \<noteq> [] then Some (builtSet E (opt_SourceIPCIDR src)) else opt_SourceIPSet r,
         opt_SourceIPCIDR := if rc \<and> opt_SourceIPCIDR src \<noteq> [] then Set_Prefixes P (builtSet E (opt_SourceIPCIDR src)) else opt_SourceIPCIDR r\<rparr>,
      \<lambda>r. r\<lparr>opt_IPSet := if opt_IPCIDR src \<noteq> [] then Some (builtSet E (opt_IPCIDR src)) else opt_IPSet r,
         opt_IPCIDR := if rc \<and> opt_IPCIDR src \<noteq> [] then Set_Prefixes P (builtSet E (opt_IPCIDR src)) else opt_IPCIDR r\<rparr>,
      \<lambda>r. r\<lparr>opt_SourcePort := given (opt_SourcePort src) (opt_SourcePort r)\<rparr>,
      \<lambda>r. r\<lparr>opt_SourcePortRange := given (opt_SourcePortRange src) (opt_SourcePortRange r)\<rparr>,
      \<lambda>r. r\<lparr>opt_Port := given (opt_Port src) (opt_Port r)\<rparr>,
      \<lambda>r. r\<lparr>opt_PortRange := given (opt_PortRange src) (opt_PortRange r)\<rparr>,
      \<lambda>r. r\<lparr>opt_ProcessName := given (opt_ProcessName src) (opt_ProcessName r)\<rparr>,
      \<lambda>r. r\<lparr>opt_ProcessPath := given (opt_ProcessPath src) (opt_ProcessPath r)\<rparr>,
      \<lambda>r. r\<lparr>opt_ProcessPathRegex := given (opt_ProcessPathRegex src) (opt_ProcessPathRegex r)\<rparr>,
      \<lambda>r. r\<lparr>opt_PackageName := given (opt_PackageName src) (opt_PackageName r)\<rparr>,
      \<lambda>r. r\<lparr>opt_PackageNameRegex := given (opt_PackageNameRegex src) (opt_PackageNameRegex r)\<rparr>,
      \<lambda>r. r\<lparr>opt_NetworkType := given (opt_NetworkType src) (opt_NetworkType r)\<rparr>,
      \<lambda>r. r\<lparr>opt_NetworkIsExpensive := opt_NetworkIsExpensive src \<or> opt_NetworkIsExpensive r\<rparr>,
      \<lambda>r. r\<lparr>opt_NetworkIsConstrained := opt_NetworkIsConstrained src \<or> opt_NetworkIsConstrained r\<rparr>,
      \<lambda>r. r\<lparr>opt_NetworkInterfaceAddress := given (opt_NetworkInterfaceAddress src) (opt_NetworkInterfaceAddress r)\<rparr>,
      \<lambda>r. r\<lparr>opt_DefaultInterfaceAddress := given (opt_DefaultInterfaceAddress src) (opt_DefaultInterfaceAddress r)\<rparr>,
      \<lambda>r. r\<lparr>opt_WIFISSID := given (opt_WIFISSID src) (opt_WIFISSID r)\<rparr>,
      \<lambda>r. r\<lparr>opt_WIFIBSSID := given (opt_WIFIBSSID src) (opt_WIFIBSSID r)\<rparr>,
      \<lambda>r. r\<lparr>opt_AdGuardDomainMatcher := if opt_AdGuardDomain src \<noteq> [] then Some (NewAdGuardMatcher E (opt_AdGuardDomain src)) else opt_AdGuardDomainMatcher r,
         opt_AdGuardDomain := if rc \<and> opt_AdGuardDomain src \<noteq> [] then libDumpAdGuard P (libNewAdGuard P (opt_AdGuardDomain src)) else opt_AdGuardDomain r\<rparr>]"

lemma steps_apply:
  assumes laws: "srs_laws P E" and ok: "writable E src"
  shows "list_all2 (applies P E rc) (writeDefaultRule_steps P E ver src) (readUpdates P E rc ver src)"
proof -
  have domain: "applies P E rc
     (emit (opt_Domain src \<noteq> [] \<or> opt_DomainSuffix src \<noteq> [])
         (if [] \<in> set (opt_Domain src) then Inl (EmptyItemNotAllowed ''domain'')
          else if [] \<in> set (opt_DomainSuffix src) then Inl (EmptyItemNotAllowed ''domain_suffix'')
          else Inr (ruleItemDomain # libWriteMatcher P
            (libNewMatcher P (opt_Domain src) (opt_DomainSuffix src) (ver = 1)))))
     (\<lambda>r. r\<lparr>opt_DomainMatcher := if hasDomains src then Some (NewMatcher E (opt_Domain src) (opt_DomainSuffix src) (ver = 1)) else opt_DomainMatcher r,
         opt_Domain := if rc \<and> hasDomains src then fst (libDump P (domainMatcher P ver src)) else opt_Domain r,
         opt_DomainSuffix := if rc \<and> hasDomains src then snd (libDump P (domainMatcher P ver src)) else opt_DomainSuffix r\<rparr>)"
    by (rule appliesI [where t = ruleItemDomain])
      (auto simp: hasDomains_def domainMatcher_def readRuleItem_def matchers_read [OF laws] split: if_splits)
  have types: "applies P E rc (emit (opt_NetworkType src \<noteq> []) (since 3 ver n
       (writeRuleItemUint8 (libUvarint P) ruleItemNetworkType (opt_NetworkType src))))
     (\<lambda>r. r\<lparr>opt_NetworkType := given (opt_NetworkType src) (opt_NetworkType r)\<rparr>)" for n
    by (rule appliesI [where t = ruleItemNetworkType])
      (use ok in \<open>auto simp: writable_def writeRuleItemUint8_def since_def readRuleItem_def slice8 [OF laws] split: if_splits\<close>)
  have expensive: "applies P E rc (emit (opt_NetworkIsExpensive src) (since 3 ver n [ruleItemNetworkIsExpensive]))
      (\<lambda>r. r\<lparr>opt_NetworkIsExpensive := opt_NetworkIsExpensive src \<or> opt_NetworkIsExpensive r\<rparr>)" for n
    by (rule appliesI [where t = ruleItemNetworkIsExpensive])
      (auto simp: since_def readRuleItem_def split: if_splits)
  have constrained: "applies P E rc (emit (opt_NetworkIsConstrained src) (since 3 ver n [ruleItemNetworkIsConstrained]))
      (\<lambda>r. r\<lparr>opt_NetworkIsConstrained := opt_NetworkIsConstrained src \<or> opt_NetworkIsConstrained r\<rparr>)" for n
    by (rule appliesI [where t = ruleItemNetworkIsConstrained])
      (auto simp: since_def readRuleItem_def split: if_splits)
  have interface: "applies P E rc (emit (opt_NetworkInterfaceAddress src \<noteq> []) (since 4 ver n
        (ruleItemNetworkInterfaceAddress # libUvarint P (length (opt_NetworkInterfaceAddress src))
            @ concat (map (\<lambda>(key, prefixes). key # writePrefixes (libUvarint P) prefixes) (opt_NetworkInterfaceAddress src)))))
      (\<lambda>r. r\<lparr>opt_NetworkInterfaceAddress := given (opt_NetworkInterfaceAddress src) (opt_NetworkInterfaceAddress r)\<rparr>)" for n
    by (rule appliesI [where t = ruleItemNetworkInterfaceAddress])
      (use ok in \<open>auto simp: writable_def since_def readRuleItem_def entries_read [OF laws] update_entries split: if_splits\<close>)
  have default: "applies P E rc (emit (opt_DefaultInterfaceAddress src \<noteq> []) (since 4 ver n
        (ruleItemDefaultInterfaceAddress # writePrefixes (libUvarint P) (opt_DefaultInterfaceAddress src))))
      (\<lambda>r. r\<lparr>opt_DefaultInterfaceAddress := given (opt_DefaultInterfaceAddress src) (opt_DefaultInterfaceAddress r)\<rparr>)" for n
    by (rule appliesI [where t = ruleItemDefaultInterfaceAddress])
      (use ok in \<open>auto simp: writable_def prefixes_ok_def since_def readRuleItem_def prefixes_read [OF laws] split: if_splits\<close>)
  have adguard: "applies P E rc (emit (opt_AdGuardDomain src \<noteq> []) (since 2 ver n
        (ruleItemAdGuardDomain # libWriteAdGuard P (libNewAdGuard P (opt_AdGuardDomain src)))))
      (\<lambda>r. r\<lparr>opt_AdGuardDomainMatcher := if opt_AdGuardDomain src \<noteq> [] then Some (NewAdGuardMatcher E (opt_AdGuardDomain src)) else opt_AdGuardDomainMatcher r,
         opt_AdGuardDomain := if rc \<and> opt_AdGuardDomain src \<noteq> [] then libDumpAdGuard P (libNewAdGuard P (opt_AdGuardDomain src)) else opt_AdGuardDomain r\<rparr>)" for n
    by (rule appliesI [where t = ruleItemAdGuardDomain])
      (auto simp: since_def readRuleItem_def matchers_read [OF laws] split: if_splits)
  show ?thesis
    unfolding writeDefaultRule_steps_def readUpdates_def Let_def
    by (intro list.rel_intros domain types expensive constrained interface default adguard
        applies_strings [OF laws] applies_uint16 [OF laws] applies_cidr [OF laws])
      (use ok in \<open>simp_all add: writable_def readRuleItem_def\<close>)
qed

lemma updates_zero:
  "(fold (\<lambda>upd. upd) (readUpdates P E rc ver src) ruleOptionsZero)\<lparr>opt_Invert := opt_Invert src\<rparr> =
     compiledOptions P E rc ver src"
  by (simp add: readUpdates_def compiledOptions_def ruleOptionsZero_def)

lemma default_rule_read:
  assumes "srs_laws P E" "writable E src" "writeDefaultRule P E ver src = Inr bs"
  shows "\<exists>b. bs = 0 # b \<and> (\<forall>item rest. readDefaultRule P E rc item ruleOptionsZero (b @ rest) =
    Some (Inr (compiledOptions P E rc ver src, rest)))"
proof -
  from assms(3) obtain b where b: "writeSteps (writeDefaultRule_steps P E ver src) = Inr b"
    "bs = 0 # b @ [ruleItemFinal, boolByte (opt_Invert src)]"
    by (auto simp: writeDefaultRule_def)
  have "readDefaultRule P E rc item ruleOptionsZero ((b @ [ruleItemFinal, boolByte (opt_Invert src)]) @ rest) =
      Some (Inr (compiledOptions P E rc ver src, rest))" for item rest
  proof -
    have final: "readDefaultRule P E rc item' rule (ruleItemFinal # boolByte (opt_Invert src) # rest) =
        Some (Inr (rule\<lparr>opt_Invert := opt_Invert src\<rparr>, rest))" for item' rule
      by (subst readDefaultRule.simps) (simp add: boolByte_def)
    obtain item' where "readDefaultRule P E rc item ruleOptionsZero (b @ ruleItemFinal # boolByte (opt_Invert src) # rest) =
        readDefaultRule P E rc item' (fold (\<lambda>upd. upd) (readUpdates P E rc ver src) ruleOptionsZero)
          (ruleItemFinal # boolByte (opt_Invert src) # rest)"
      using applies_all [OF steps_apply [OF assms(1,2)] b(1)] by blast
    then show ?thesis by (simp add: final updates_zero)
  qed
  then show ?thesis using b(2) by blast
qed

fun compiledRule ::
  "('m, 'a) srsLib \<Rightarrow> env \<Rightarrow> bool \<Rightarrow> u8 \<Rightarrow> HeadlessRuleOptions \<Rightarrow> HeadlessRuleOptions" where
  "compiledRule P E rc ver (HeadlessDefaultOptions src) =
     HeadlessDefaultOptions (compiledOptions P E rc ver src)"
| "compiledRule P E rc ver (HeadlessLogicalOptions mode rules inverted) =
     HeadlessLogicalOptions mode (map (compiledRule P E rc ver) rules) inverted"
| "compiledRule P E rc ver (HeadlessUnknownTypeOptions t) = HeadlessUnknownTypeOptions t"

text \<open>Rules within the limits of the format, nested in no more levels than the reader takes.\<close>

fun writableRule :: "env \<Rightarrow> nat \<Rightarrow> HeadlessRuleOptions \<Rightarrow> bool" where
  "writableRule E 0 rule = False"
| "writableRule E (Suc levels) (HeadlessDefaultOptions src) = writable E src"
| "writableRule E (Suc levels) (HeadlessLogicalOptions mode rules inverted) =
     (length rules < 2 ^ 64 \<and> list_all (writableRule E levels) rules)"
| "writableRule E (Suc levels) (HeadlessUnknownTypeOptions t) = True"

lemma rules_read:
  assumes "writeRules P E ver rules = Inr bs"
    and "\<And>rule b rest. rule \<in> set rules \<Longrightarrow> writeRule P E ver rule = Inr b \<Longrightarrow>
      f (b @ rest) = Some (Inr (g rule, rest))"
  shows "readRules i (length rules) f (bs @ rest) = Some (Inr (map g rules, rest))"
  using assms
proof (induction rules arbitrary: bs i)
  case (Cons rule rules)
  then obtain b bs' where b: "writeRule P E ver rule = Inr b" "writeRules P E ver rules = Inr bs'" "bs = b @ bs'"
    by (auto split: sum.splits)
  then have "f (b @ bs' @ rest) = Some (Inr (g rule, bs' @ rest))" using Cons.prems(2) by simp
  moreover have "readRules (Suc i) (length rules) f (bs' @ rest) = Some (Inr (map g rules, rest))"
    using Cons.IH [OF b(2)] Cons.prems(2) by simp
  ultimately show ?case using b(3) by simp
qed simp

lemma rule_read:
  assumes "srs_laws P E"
  shows "writableRule E levels rule \<Longrightarrow> writeRule P E ver rule = Inr bs \<Longrightarrow>
   readRule levels P E rc (bs @ rest) = Some (Inr (compiledRule P E rc ver rule, rest))"
proof (induction levels arbitrary: rule bs rest)
  case (Suc levels)
  show ?case
  proof (cases rule)
    case (HeadlessDefaultOptions src)
    then show ?thesis using Suc.prems default_rule_read [OF assms, of src ver bs rc] by auto
  next
    case (HeadlessLogicalOptions mode rules inverted)
    then obtain b where b: "writeRules P E ver rules = Inr b" "mode = ''and'' \<or> mode = ''or''"
      "bs = [1, if mode = ''and'' then 0 else 1] @ libUvarint P (length rules) @ b @ [boolByte inverted]"
      using Suc.prems(2) by (auto split: if_splits)
    have "readRules 0 (length rules) (readRule levels P E rc) (b @ boolByte inverted # rest) =
        Some (Inr (map (compiledRule P E rc ver) rules, boolByte inverted # rest))"
      by (rule rules_read [OF b(1)]) (use Suc HeadlessLogicalOptions in \<open>auto simp: list_all_iff\<close>)
    then show ?thesis
      using Suc.prems(1) HeadlessLogicalOptions b(2,3) varint_read [OF srs_laws_varint [OF assms]]
      by (auto simp: readLogicalRule_def boolByte_def)
  qed (use Suc.prems in auto)
qed simp

lemma written_read:
  assumes "srs_laws P E" "SRS_Write P E rules ver = Inr bs" "ver \<le> RuleSetVersionCurrent"
    and "length rules < 2 ^ 64" "list_all (writableRule E (Suc maxLogicalRuleDepth)) rules"
  shows "SRS_Read P E rc bs = Some (Inr (ver, map (compiledRule P E rc ver) rules))"
proof -
  from assms(2) obtain b where b: "writeRules P E ver rules = Inr b"
    "bs = MagicBytes @ ver # libCompress P (libUvarint P (length rules) @ b)"
    by (auto simp: SRS_Write_def)
  have "libDecompress P (libCompress P x) = Some x" for x
    using assms(1) by (simp add: srs_laws_def)
  moreover have "readRules 0 (length rules) (readRule (Suc maxLogicalRuleDepth) P E rc) (b @ []) =
      Some (Inr (map (compiledRule P E rc ver) rules, []))"
    by (rule rules_read [OF b(1)]) (use assms(5) rule_read [OF assms(1)] in \<open>auto simp: list_all_iff simp del: readRule.simps\<close>)
  ultimately show ?thesis
    using assms(3,4) varint_read [OF srs_laws_varint [OF assms(1)], of "length rules" b]
    by (simp add: SRS_Read_def b(2) split_at_def not_less del: readRule.simps)
qed

text \<open>
  C7. A rule set that was written is read back as it was: the version and every
  rule in order, with the domains and prefixes as prepared matchers and sets
  (listed again if asked for). It holds for every version the reader knows and
  rules nested no deeper than the reader allows.
\<close>

theorem srs_roundtrip:
  assumes "srs_laws P E" "SRS_Write P E rules ver = Inr bs" "ver \<le> RuleSetVersionCurrent"
    and "length rules < 2 ^ 64" "list_all (writableRule E (Suc maxLogicalRuleDepth)) rules"
  shows "SRS_Read P E rc bs = Some (Inr (ver, map (compiledRule P E rc ver) rules))"
  by (rule written_read [OF assms])

section \<open>The reader returns\<close>

text \<open>The libraries' readers give back no more input than they were given.\<close>

definition lib_consumes :: "('m, 'a) srsLib \<Rightarrow> bool" where
  "lib_consumes P \<longleftrightarrow>
     (\<forall>bs x r. libReadSlice8 P bs = Some (x, r) \<longrightarrow> length r \<le> length bs) \<and>
     (\<forall>bs x r. libReadSlice16 P bs = Some (x, r) \<longrightarrow> length r \<le> length bs) \<and>
     (\<forall>bs x r. libReadMatcher P bs = Some (x, r) \<longrightarrow> length r \<le> length bs) \<and>
     (\<forall>bs x r. libReadAdGuard P bs = Some (x, r) \<longrightarrow> length r \<le> length bs)"

definition shrinks :: "(bytes \<Rightarrow> srs_error + 'x \<times> bytes) \<Rightarrow> bool" where
  "shrinks f \<longleftrightarrow> (\<forall>bs x r. f bs = Inr (x, r) \<longrightarrow> length r \<le> length bs)"

lemma shrinks_thenRead [intro]:
  "shrinks f \<Longrightarrow> (\<And>x. shrinks (g x)) \<Longrightarrow> shrinks (\<lambda>bs. thenRead (f bs) g)"
  unfolding shrinks_def thenRead_def by (force split: sum.splits intro: le_trans)

lemma shrinks_basic [intro, simp]:
  "shrinks readByte" "shrinks (\<lambda>bs. delivered (read_uvarint bs))" "shrinks (\<lambda>bs. delivered (split_at n bs))"
  "shrinks (\<lambda>bs. Inl e)" "shrinks (\<lambda>bs. Inr (x, bs))"
  by (auto simp: shrinks_def readByte_def delivered_def split: list.splits option.splits
      dest: read_uvarint_shorter split_at_Some)

lemma shrinks_if [intro]: "(c \<Longrightarrow> shrinks f) \<Longrightarrow> (\<not> c \<Longrightarrow> shrinks g) \<Longrightarrow> shrinks (\<lambda>bs. if c then f bs else g bs)"
  by (simp add: shrinks_def)

lemma shrinks_readTimes [intro]: "shrinks f \<Longrightarrow> shrinks (readTimes n f)"
proof (induction n)
  case 0
  have "readTimes 0 f = (\<lambda>bs. Inr ([], bs))" by (rule ext) simp
  then show ?case by simp
next
  case (Suc n)
  have "readTimes (Suc n) f =
      (\<lambda>bs. thenRead (f bs) (\<lambda>x r. thenRead (readTimes n f r) (\<lambda>xs r'. Inr (x # xs, r'))))" by (rule ext) simp
  then show ?case using Suc by (auto intro!: shrinks_thenRead)
qed

lemma shrinks_lib:
  assumes "lib_consumes P"
  shows "shrinks (\<lambda>bs. delivered (libReadSlice8 P bs))" "shrinks (\<lambda>bs. delivered (libReadSlice16 P bs))"
    "shrinks (\<lambda>bs. delivered (libReadMatcher P bs))" "shrinks (\<lambda>bs. delivered (libReadAdGuard P bs))"
  using assms by (auto simp: shrinks_def lib_consumes_def delivered_def split: option.splits)

lemma shrinks_parts:
  assumes "lib_consumes P"
  shows "shrinks (readRuleItemString P)" "shrinks (readPrefixes E)" "shrinks (readInterfaceEntry E)" "shrinks readIPSet"
proof -
  show "shrinks (readRuleItemString P)"
    unfolding readRuleItemString_def using shrinks_lib(1) [OF assms] by (intro shrinks_thenRead shrinks_readTimes shrinks_basic)
  show prefixes: "shrinks (readPrefixes E)"
    unfolding readPrefixes_def ReadPrefix_def by (intro shrinks_thenRead shrinks_readTimes shrinks_if shrinks_basic)
  then show "shrinks (readInterfaceEntry E)"
    unfolding readInterfaceEntry_def by (intro shrinks_thenRead shrinks_basic)
  have addr: "shrinks readIPSetAddr" unfolding readIPSetAddr_def by (intro shrinks_thenRead shrinks_if shrinks_basic)
  have range: "shrinks readIPRange"
    unfolding readIPRange_def by (intro shrinks_thenRead shrinks_if shrinks_basic addr)
  have "shrinks (\<lambda>r. case s of Inl e \<Rightarrow> Inl (SetRangeError e) | Inr ipSet \<Rightarrow> Inr (ipSet, r))" for s
    by (cases s) simp_all
  then show "shrinks readIPSet"
    unfolding readIPSet_def by (intro shrinks_thenRead shrinks_if shrinks_basic shrinks_readTimes range)
qed

lemma shrinks_readRuleItem:
  assumes "lib_consumes P"
  shows "shrinks (readRuleItem P E rc item t rule)"
  unfolding readRuleItem_def Let_def setField_def
  by (intro shrinks_if shrinks_thenRead shrinks_basic shrinks_lib [OF assms] shrinks_parts [OF assms] shrinks_readTimes)

lemma readDefaultRule_returns:
  assumes "lib_consumes P"
  shows "\<exists>y. readDefaultRule P E rc item rule reader = Some y"
proof (induction reader arbitrary: item rule rule: length_induct)
  case (1 reader)
  show ?case
  proof (cases reader)
    case (Cons t r)
    have step: "\<exists>y. readDefaultRule P E rc t rule' r' = Some y"
      if "readRuleItem P E rc item t rule r = Inr (rule', r')" for rule' r'
    proof -
      have "length r' \<le> length r" using shrinks_readRuleItem [OF assms] that by (auto simp: shrinks_def)
      then show ?thesis using 1 Cons by simp
    qed
    then show ?thesis
      unfolding Cons by (subst readDefaultRule.simps) (auto split: sum.splits prod.splits)
  qed (simp add: readDefaultRule.simps)
qed

lemma readRules_returns: "(\<And>bs. f bs \<noteq> None) \<Longrightarrow> readRules i n f bs \<noteq> None"
  by (induction n arbitrary: i bs) (auto split: sum.splits prod.splits option.splits simp del: not_None_eq)

lemma readRule_returns:
  assumes "lib_consumes P"
  shows "readRule levels P E rc bs \<noteq> None"
proof (induction levels arbitrary: bs)
  case (Suc levels)
  have "readRules i n (readRule levels P E rc) r \<noteq> None" for i n r by (rule readRules_returns [OF Suc])
  then have "readLogicalRule (readRule levels P E rc) r \<noteq> None" for r
    by (auto simp: readLogicalRule_def split: sum.splits prod.splits option.splits simp del: not_None_eq)
  moreover have "readDefaultRule P E rc item rule r \<noteq> None" for item rule r
    using readDefaultRule_returns [OF assms] by blast
  ultimately show ?case by (auto split: sum.splits prod.splits simp del: not_None_eq)
qed simp

text \<open>
  C8. Reading a rule set returns on every input, well-formed or not: with a
  result or an error, and however deep the rules claim to be nested.
\<close>

theorem srs_read_returns:
  assumes "lib_consumes P"
  shows "\<exists>y. SRS_Read P E rc bs = Some y"
proof -
  have "readRules 0 n (readRule (Suc maxLogicalRuleDepth) P E rc) r \<noteq> None" for n r
    by (rule readRules_returns, rule readRule_returns [OF assms])
  then have "SRS_Read P E rc bs \<noteq> None"
    by (auto simp: SRS_Read_def split: sum.splits prod.splits option.splits simp del: readRule.simps not_None_eq)
  then show ?thesis by blast
qed

section \<open>Concrete libraries\<close>

text \<open>
  Libraries to evaluate the format with: matchers of one name, sets of one
  address, and no compression.
\<close>

definition exampleLib :: "(bool, bool) srsLib" where
  "exampleLib = \<lparr>libUvarint = uvarint,
     libReadSlice8 = (\<lambda>bs. Option.bind (read_uvarint bs) (\<lambda>(n, r). split_at n r)),
     libReadSlice16 = (\<lambda>bs. Option.bind (read_uvarint bs) (\<lambda>(n, r).
        Option.bind (split_at (2 * n) r) (\<lambda>(x, r). Some (map (\<lambda>i. word_of_nat (be_uint (take 2 (drop (2 * i) x)))) [0..<n], r)))),
     libNewMatcher = (\<lambda>ds ss l. ''a.org'' \<in> set ds), libMatch = (\<lambda>m s. m \<and> s = ''a.org''),
     libWriteMatcher = (\<lambda>m. [boolByte m]),
     libReadMatcher = (\<lambda>bs. case bs of [] \<Rightarrow> None | b # r \<Rightarrow> Some (b \<noteq> 0, r)),
     libDump = (\<lambda>m. (if m then [''a.org''] else [], [])),
     libNewAdGuard = (\<lambda>ls. ''||a.org^'' \<in> set ls), libMatchAdGuard = (\<lambda>m s. m \<and> s = ''a.org''),
     libWriteAdGuard = (\<lambda>m. [boolByte m]),
     libReadAdGuard = (\<lambda>bs. case bs of [] \<Rightarrow> None | b # r \<Rightarrow> Some (b \<noteq> 0, r)),
     libDumpAdGuard = (\<lambda>m. if m then [''||a.org^''] else []),
     libPrefixes = map (\<lambda>(from, to). PrefixFrom from (BitLen from)),
     libCompress = (\<lambda>bs. bs), libDecompress = Some\<rparr>"

definition srsEnv :: env where
  "srsEnv = exampleEnv\<lparr>NewMatcher := (\<lambda>ds ss l s. ''a.org'' \<in> set ds \<and> s = ''a.org''),
     NewAdGuardMatcher := (\<lambda>ls s. ''||a.org^'' \<in> set ls \<and> s = ''a.org''),
     BuildIPSet := (\<lambda>ps. case ps of
        [Prefix (Addr4 u) b] \<Rightarrow> Some [(Addr4 u, Addr4 u)] | _ \<Rightarrow> None)\<rparr>"

lemma slices16_pick:
  "i < length xs \<Longrightarrow> take 2 (drop (2 * i) (concat (map (\<lambda>x. be_bytes 2 (unat (x :: u16))) xs))) = be_bytes 2 (unat (xs ! i))"
proof (induction xs arbitrary: i)
  case (Cons x xs)
  then show ?case by (cases i) simp_all
qed simp

lemma exampleLib_laws: "srs_laws exampleLib srsEnv"
proof -
  have "map (\<lambda>i. word_of_nat (be_uint (take 2 (drop (2 * i) (concat (map (\<lambda>x. be_bytes 2 (unat x)) xs)))))) [0..<length xs] = xs"
    for xs :: "u16 list"
  proof (rule nth_equalityI)
    fix i assume "i < length (map (\<lambda>i. word_of_nat (be_uint (take 2 (drop (2 * i) (concat (map (\<lambda>x. be_bytes 2 (unat x)) xs)))))) [0..<length xs] :: u16 list)"
    then have i: "i < length xs" by simp
    have "unat (xs ! i) < 65536" using unsigned_less [of "xs ! i"] by simp
    then show "map (\<lambda>i. word_of_nat (be_uint (take 2 (drop (2 * i) (concat (map (\<lambda>x. be_bytes 2 (unat x)) xs)))))) [0..<length xs] ! i = xs ! i"
      using i by (simp add: slices16_pick be_uint_be_bytes)
  qed simp
  moreover have "length (concat (map (\<lambda>x. be_bytes 2 (unat x)) xs)) = 2 * length xs" for xs :: "u16 list"
    by (induction xs) simp_all
  ultimately have "slice_laws exampleLib"
    by (simp add: slice_laws_def exampleLib_def uvarint_laws read_uvarint_uvarint)
  moreover have "matcher_laws exampleLib srsEnv"
    by (auto simp: matcher_laws_def exampleLib_def srsEnv_def boolByte_def)
  moreover have "AddrFromIP exampleEnv (AsSlice a) = a" if "AddrIsValid a" "\<not> hasZone a" for a
    using that AddrFrom4_AsSlice AddrFrom16_As16 by (cases a) (auto simp: exampleEnv_def As16_def)
  then have "address_laws srsEnv"
    by (auto simp: address_laws_def srsEnv_def netipx_ranges_def split: list.splits Prefix.splits Addr.splits)
  ultimately show ?thesis by (simp add: srs_laws_def) (simp add: exampleLib_def)
qed

lemma exampleLib_consumes: "lib_consumes exampleLib"
  by (auto simp: lib_consumes_def exampleLib_def bind_eq_Some_conv split: list.splits
      dest!: read_uvarint_shorter split_at_Some)

definition exampleRules :: "HeadlessRuleOptions list" where
  "exampleRules = [HeadlessLogicalOptions ''or''
     [HeadlessDefaultOptions (ruleOptionsZero\<lparr>opt_Domain := [''a.org''], opt_IPCIDR := [Prefix (Addr4 16909060) 32]\<rparr>),
      HeadlessDefaultOptions (ruleOptionsZero\<lparr>opt_Network := [''tcp''], opt_Port := [443], opt_Invert := True\<rparr>)] False]"

lemma exampleRules_written: "\<exists>bs. SRS_Write exampleLib srsEnv exampleRules 2 = Inr bs"
  by (simp add: SRS_Write_def exampleRules_def writeDefaultRule_def writeDefaultRule_steps_def Let_def emit_def
      ruleOptionsZero_def writeRuleItemCIDR_def srsEnv_def)

lemma exampleRules_writable: "list_all (writableRule srsEnv (Suc maxLogicalRuleDepth)) exampleRules"
proof -
  have "list_all (writableRule srsEnv (Suc (Suc n))) exampleRules" for n
    by (simp add: exampleRules_def writable_def ruleOptionsZero_def sizes64_def set_small_def prefixes_ok_def srsEnv_def)
  moreover have "maxLogicalRuleDepth = Suc 99" by simp
  ultimately show ?thesis by metis
qed

theorem srs_roundtrip_witness:
  "\<exists>bs. SRS_Write exampleLib srsEnv exampleRules 2 = Inr bs \<and>
     SRS_Read exampleLib srsEnv True bs = Some (Inr (2, map (compiledRule exampleLib srsEnv True 2) exampleRules))"
proof -
  obtain bs where bs: "SRS_Write exampleLib srsEnv exampleRules 2 = Inr bs" using exampleRules_written by blast
  have "(2 :: u8) \<le> RuleSetVersionCurrent" "length exampleRules < 2 ^ 64"
    by (simp_all add: exampleRules_def)
  from srs_roundtrip [OF exampleLib_laws bs this exampleRules_writable] show ?thesis using bs by blast
qed

theorem srs_read_returns_witness: "\<exists>y. SRS_Read exampleLib srsEnv False [0x53, 0x52, 0x53, 1, 1, 1, 7] = Some y"
  by (rule srs_read_returns [OF exampleLib_consumes])

end
