(* ===== verification/SavedBinary.thy ===== *)
theory SavedBinary
  imports GoStd
begin

text \<open>
  \<^verbatim>\<open>adapter/experimental.go\<close> and \<^verbatim>\<open>common/hash\<close>: downloaded content with its hash, time,
  entity tag and the hash of its URL, and the binary form the cache file keeps.
\<close>

section \<open>Hashes\<close>

text \<open>The array of sixteen bytes is a list; \<open>hash_ok\<close> is its length.\<close>

record HashType =
  md5 :: bytes

definition hash_ok :: "HashType \<Rightarrow> bool" where
  "hash_ok h \<longleftrightarrow> length (md5 h) = 16"

definition HashType_Equal :: "HashType \<Rightarrow> HashType \<Rightarrow> bool" where
  "HashType_Equal h other \<longleftrightarrow> md5 h = md5 other"

definition HashType_Bytes :: "HashType \<Rightarrow> bytes" where
  "HashType_Bytes h = md5 h"

definition HashType_String :: "HashType \<Rightarrow> string" where
  "HashType_String h = concat (map hex_byte (HashType_Bytes h))"

definition HashType_MarshalText :: "HashType \<Rightarrow> string" where
  "HashType_MarshalText h = HashType_String h"

definition HashType_UnmarshalText :: "string \<Rightarrow> HashType option" where
  "HashType_UnmarshalText data =
     (if length data div 2 \<noteq> 16 then None else map_option (\<lambda>b. \<lparr>md5 = b\<rparr>) (HexDecodeString data))"

definition HashType_MarshalBinary :: "HashType \<Rightarrow> bytes" where
  "HashType_MarshalBinary h = md5 h"

definition HashType_UnmarshalBinary :: "bytes \<Rightarrow> HashType option" where
  "HashType_UnmarshalBinary data = (if length data \<noteq> 16 then None else Some \<lparr>md5 = data\<rparr>)"

definition HashType_Len :: "HashType \<Rightarrow> nat" where
  "HashType_Len h = length (md5 h)"

definition HashType_IsValid :: "HashType \<Rightarrow> bool" where
  "HashType_IsValid h \<longleftrightarrow> h \<noteq> \<lparr>md5 = replicate 16 0\<rparr>"

section \<open>Saved content\<close>

record SavedBinary =
  Hash :: HashType
  Content :: bytes
  LastUpdated :: int
  LastEtag :: string
  URLHash :: bytes

definition SavedBinary_MarshalBinary :: "(nat \<Rightarrow> bytes) \<Rightarrow> SavedBinary \<Rightarrow> bytes" where
  "SavedBinary_MarshalBinary W s =
     (let hash = HashType_MarshalBinary (Hash s) in
      [2] @ W (length hash) @ hash
      @ W (length (Content s)) @ Content s
      @ be_int64 (timeUnix (LastUpdated s))
      @ W (length (LastEtag s)) @ str_bytes (LastEtag s)
      @ W (length (URLHash s)) @ URLHash s)"

text \<open>
  Reading fails with an error, or panics where the hash length, which is not
  compared with what is left, is above \<open>maxAlloc\<close>, the largest slice the
  runtime makes.
\<close>

datatype saved_error = SavedPanic | SavedError

definition readChecked :: "bytes \<Rightarrow> (bytes \<times> bytes) option" where
  "readChecked reader =
     (case read_uvarint reader of
        None \<Rightarrow> None
      | Some (n, rest) \<Rightarrow> if n > length rest then None else split_at n rest)"

definition readHash :: "nat \<Rightarrow> bytes \<Rightarrow> saved_error + (HashType \<times> bytes)" where
  "readHash maxAlloc reader =
     (case read_uvarint reader of
        None \<Rightarrow> Inl SavedError
      | Some (hashLength, rest) \<Rightarrow>
          if hashLength > maxAlloc then Inl SavedPanic
          else (case split_at hashLength rest of
                  None \<Rightarrow> Inl SavedError
                | Some (hash, rest1) \<Rightarrow>
                    (case HashType_UnmarshalBinary hash of
                       None \<Rightarrow> Inl SavedError
                     | Some h \<Rightarrow> Inr (h, rest1))))"

definition readTail :: "byte \<Rightarrow> HashType \<Rightarrow> bytes \<Rightarrow> SavedBinary option" where
  "readTail version hash reader =
     (case readChecked reader of
        None \<Rightarrow> None
      | Some (content, rest1) \<Rightarrow>
     (case split_at 8 rest1 of
        None \<Rightarrow> None
      | Some (lastUpdated, rest2) \<Rightarrow>
     (case readChecked rest2 of
        None \<Rightarrow> None
      | Some (etagBytes, rest3) \<Rightarrow>
          (let s = \<lparr>Hash = hash, Content = content, LastUpdated = int64_be lastUpdated * second,
                    LastEtag = bytes_str etagBytes, URLHash = []\<rparr> in
           if version < 2 then Some s
           else map_option (\<lambda>(urlHash, _). s\<lparr>URLHash := urlHash\<rparr>) (readChecked rest3)))))"

definition SavedBinary_UnmarshalBinary :: "nat \<Rightarrow> bytes \<Rightarrow> saved_error + SavedBinary" where
  "SavedBinary_UnmarshalBinary maxAlloc data =
     (case data of
        [] \<Rightarrow> Inl SavedError
      | version # reader \<Rightarrow>
          (case readHash maxAlloc reader of
             Inl e \<Rightarrow> Inl e
           | Inr (hash, rest) \<Rightarrow>
               (case readTail version hash rest of None \<Rightarrow> Inl SavedError | Some s \<Rightarrow> Inr s)))"

section \<open>Round trips\<close>

lemma readChecked_append: "varint_laws W \<Longrightarrow> length bs < 2 ^ 64 \<Longrightarrow> readChecked (W (length bs) @ bs @ rest) = Some (bs, rest)"
  by (simp add: readChecked_def varint_read)

lemma readHash_append:
  "varint_laws W \<Longrightarrow> hash_ok h \<Longrightarrow> 16 \<le> maxAlloc \<Longrightarrow>
   readHash maxAlloc (W (length (HashType_MarshalBinary h)) @ HashType_MarshalBinary h @ rest) = Inr (h, rest)"
  by (cases h) (simp add: readHash_def hash_ok_def HashType_MarshalBinary_def HashType_UnmarshalBinary_def varint_read)

lemma HexDecodeString_bytes: "HexDecodeString (concat (map hex_byte bs)) = Some bs"
proof (induction bs)
  case (Cons b bs)
  obtain x y where "hex_byte b = [x, y]" by (simp add: hex_byte_def)
  then show ?case using hex_pair_byte [of b] Cons by simp
qed simp

lemma SavedBinary_unmarshal_append:
  assumes "varint_laws W" "hash_ok (Hash s)" "16 \<le> maxAlloc" "length (Content s) < 2 ^ 64" "length (LastEtag s) < 2 ^ 64"
    and "length (URLHash s) < 2 ^ 64" "- (2 ^ 63) \<le> timeUnix (LastUpdated s)" "timeUnix (LastUpdated s) < 2 ^ 63"
  shows "SavedBinary_UnmarshalBinary maxAlloc (SavedBinary_MarshalBinary W s @ rest) =
    Inr (s\<lparr>LastUpdated := timeUnix (LastUpdated s) * second\<rparr>)"
proof -
  have split8: "split_at 8 (be_int64 t @ r) = Some (be_int64 t, r)" for t r by (simp add: be_int64_def)
  have etag: "readChecked (W (length (LastEtag s)) @ str_bytes (LastEtag s) @ r) = Some (str_bytes (LastEtag s), r)" for r
    using readChecked_append [OF assms(1), of "str_bytes (LastEtag s)" r] assms(5) by simp
  show ?thesis
    using assms(1-4,6-) by (simp add: SavedBinary_UnmarshalBinary_def SavedBinary_MarshalBinary_def Let_def readHash_append
        readTail_def readChecked_append split8 etag int64_be_int64)
qed

lemmas SavedBinary_roundtrip_nothing = SavedBinary_unmarshal_append [where rest = "[]", unfolded append_Nil2]

lemma HashType_text_roundtrip: "hash_ok h \<Longrightarrow> HashType_UnmarshalText (HashType_MarshalText h) = Some h"
proof -
  assume "hash_ok h"
  moreover have "length (concat (map hex_byte bs)) = 2 * length bs" for bs by (induction bs) simp_all
  ultimately show ?thesis
    by (cases h) (simp add: HashType_UnmarshalText_def HashType_MarshalText_def HashType_String_def HashType_Bytes_def
        HexDecodeString_bytes hash_ok_def)
qed

end
