(* ===== verification/RuleSets.thy ===== *)
theory RuleSets
  imports SRS SavedBinary
begin

text \<open>
  \<^verbatim>\<open>route/rule/rule_set*.go\<close>: rule sets as the router holds them. A set is
  loaded from bytes in either format, published to the rules that match it,
  counted by the rules that refer to it and dropped when none does; a remote
  set is fetched, kept in the cache file or in a file of its own, and restored
  from there.
\<close>

section \<open>State\<close>

text \<open>
  The state the sets share. The rules are read through the snapshot; the
  locks make each operation one step. A callback is whatever the caller
  registered, kept with the list element that removes it.
\<close>

record 'c abstractRuleSet =
  rsTag :: string
  rsType :: string
  rsPath :: string
  rsFormat :: string
  rsRules :: "HeadlessRule list"
  rsSnapshot :: "HeadlessRule list option"
  rsRuleCount :: u64
  rsMetadata :: RuleSetMetadata
  rsLastUpdated :: int
  rsCallbacks :: "(nat \<times> 'c) list"
  rsNextElement :: nat
  rsRefs :: u32

text \<open>
  What loading depends on besides the bytes: the libraries of the formats, with
  the decoder of the JSON source format, the environment of rule construction
  and the validator of the DNS router.
\<close>

record ('m, 'a) loader =
  ldLib :: "('m, 'a) srsLib"
  ldEnv :: env
  ldNetworkManager :: bool
  ldStrategy :: "DomainMatchStrategy option"
  ldUnmarshalJSON :: "bytes \<Rightarrow> (u8 \<times> HeadlessRuleOptions list) option"
  ldValidator :: "(string \<Rightarrow> RuleSetMetadata \<Rightarrow> bool) option"

datatype load_error =
    JSONError | BinaryError srs_error | UnknownFormat string | UnknownRuleSetVersion u8
  | ParseRule nat rule_error | ValidationFailed
  | EmptyInline | UnknownRuleSetType string | PathError | FileError | ExclusivePaths
  | AlreadyUpdating | RequestFailed | UnexpectedStatus nat | CacheFileValidation
  | TransportFailed | InitialPathNeedsCache | InitialFetch load_error | SaveFailed

section \<open>What a set contains\<close>

fun HasHeadlessRule :: "(ruleOptions \<Rightarrow> bool) \<Rightarrow> HeadlessRuleOptions list \<Rightarrow> bool" where
  "HasHeadlessRule cond [] = False"
| "HasHeadlessRule cond (rule # rules) =
     ((case rule of
         HeadlessDefaultOptions options \<Rightarrow> cond options
       | HeadlessLogicalOptions _ subRules _ \<Rightarrow> HasHeadlessRule cond subRules
       | HeadlessUnknownTypeOptions _ \<Rightarrow> False)
      \<or> HasHeadlessRule cond rules)"

definition isProcessHeadlessRule :: "ruleOptions \<Rightarrow> bool" where
  "isProcessHeadlessRule rule \<longleftrightarrow> opt_ProcessName rule \<noteq> [] \<or> opt_ProcessPath rule \<noteq> []
     \<or> opt_ProcessPathRegex rule \<noteq> [] \<or> opt_PackageName rule \<noteq> [] \<or> opt_PackageNameRegex rule \<noteq> []"

definition isProcessPathHeadlessRule :: "ruleOptions \<Rightarrow> bool" where
  "isProcessPathHeadlessRule rule \<longleftrightarrow> opt_ProcessName rule \<noteq> [] \<or> opt_ProcessPath rule \<noteq> []
     \<or> opt_ProcessPathRegex rule \<noteq> []"

definition isWIFIHeadlessRule :: "ruleOptions \<Rightarrow> bool" where
  "isWIFIHeadlessRule rule \<longleftrightarrow> opt_WIFISSID rule \<noteq> [] \<or> opt_WIFIBSSID rule \<noteq> []"

definition isIPCIDRHeadlessRule :: "ruleOptions \<Rightarrow> bool" where
  "isIPCIDRHeadlessRule rule \<longleftrightarrow> opt_IPCIDR rule \<noteq> [] \<or> opt_IPSet rule \<noteq> None"

definition isDNSQueryTypeHeadlessRule :: "ruleOptions \<Rightarrow> bool" where
  "isDNSQueryTypeHeadlessRule rule \<longleftrightarrow> opt_QueryType rule \<noteq> []"

definition isNonIPCIDRHeadlessRule :: "ruleOptions \<Rightarrow> bool" where
  "isNonIPCIDRHeadlessRule rule \<longleftrightarrow>
     rule \<noteq> ruleOptionsZero\<lparr>opt_IPCIDR := opt_IPCIDR rule, opt_IPSet := opt_IPSet rule,
       opt_Invert := opt_Invert rule\<rparr>"

definition buildRuleSetMetadata :: "HeadlessRuleOptions list \<Rightarrow> RuleSetMetadata" where
  "buildRuleSetMetadata rules =
     \<lparr>ContainsProcessRule = HasHeadlessRule isProcessHeadlessRule rules,
      ContainsProcessPathRule = HasHeadlessRule isProcessPathHeadlessRule rules,
      ContainsWIFIRule = HasHeadlessRule isWIFIHeadlessRule rules,
      ContainsIPCIDRRule = HasHeadlessRule isIPCIDRHeadlessRule rules,
      ContainsDNSQueryTypeRule = HasHeadlessRule isDNSQueryTypeHeadlessRule rules,
      ContainsNonIPCIDRRule = HasHeadlessRule isNonIPCIDRHeadlessRule rules\<rparr>"

definition validateRuleSetMetadataUpdate :: "('m, 'a) loader \<Rightarrow> string \<Rightarrow> RuleSetMetadata \<Rightarrow> bool" where
  "validateRuleSetMetadataUpdate L tag metadata =
     (case ldValidator L of None \<Rightarrow> True | Some validator \<Rightarrow> validator tag metadata)"

text \<open>The sets of a rule's destination prefixes; only default and logical headless rules occur in a set.\<close>

fun ipSetsOf :: "simple_item \<Rightarrow> (Addr \<times> Addr) list list" where
  "ipSetsOf (IPCIDRItem ipSet _ _) = [Set_IPSet ipSet]"
| "ipSetsOf _ = []"

primrec extractIPSetFromRule :: "HeadlessRule \<Rightarrow> (Addr \<times> Addr) list list option" where
  "extractIPSetFromRule (DefaultHeadlessRule rule) =
     Some (concat (map ipSetsOf (destinationIPCIDRItems (defaultFields rule))))"
| "extractIPSetFromRule (LogicalRule rules _ _) =
     (if None \<in> set (map extractIPSetFromRule rules) then None
      else Some (concat (map the (map extractIPSetFromRule rules))))"
| "extractIPSetFromRule (DefaultRule _) = None"
| "extractIPSetFromRule (DefaultDNSRule _ _ _) = None"

section \<open>Operations every set has\<close>

definition loadRules :: "('c, 'z) abstractRuleSet_scheme \<Rightarrow> HeadlessRule list" where
  "loadRules s = (case rsSnapshot s of Some rules \<Rightarrow> rules | None \<Rightarrow> rsRules s)"

text \<open>The set as rules see it, by the rules it holds now.\<close>

definition currentSet :: "('c, 'z) abstractRuleSet_scheme \<Rightarrow> RuleSet" where
  "currentSet s = RuleSet (rsTag s) (loadRules s) (rsMetadata s)"

definition setUpdatedTime :: "int \<Rightarrow> ('c, 'z) abstractRuleSet_scheme \<Rightarrow> ('c, 'z) abstractRuleSet_scheme" where
  "setUpdatedTime updatedAt s = s\<lparr>rsLastUpdated := updatedAt\<rparr>"

definition ExtractIPSet :: "('c, 'z) abstractRuleSet_scheme \<Rightarrow> (Addr \<times> Addr) list list option" where
  "ExtractIPSet s =
     (let sets = map extractIPSetFromRule (loadRules s) in
      if None \<in> set sets then None else Some (concat (map the sets)))"

definition IncRef :: "('c, 'z) abstractRuleSet_scheme \<Rightarrow> ('c, 'z) abstractRuleSet_scheme" where
  "IncRef s = s\<lparr>rsRefs := rsRefs s + 1\<rparr>"

text \<open>A counter below zero panics: no result.\<close>

definition DecRef :: "('c, 'z) abstractRuleSet_scheme \<Rightarrow> ('c, 'z) abstractRuleSet_scheme option" where
  "DecRef s = (if sint (rsRefs s - 1) < 0 then None else Some (s\<lparr>rsRefs := rsRefs s - 1\<rparr>))"

definition clearRules :: "('c, 'z) abstractRuleSet_scheme \<Rightarrow> ('c, 'z) abstractRuleSet_scheme" where
  "clearRules s = s\<lparr>rsRules := [], rsSnapshot := None\<rparr>"

definition Cleanup :: "('c, 'z) abstractRuleSet_scheme \<Rightarrow> ('c, 'z) abstractRuleSet_scheme" where
  "Cleanup s = (if rsRefs s = 0 then clearRules s else s)"

definition RegisterCallback ::
  "'c \<Rightarrow> ('c, 'z) abstractRuleSet_scheme \<Rightarrow> nat \<times> ('c, 'z) abstractRuleSet_scheme" where
  "RegisterCallback callback s =
     (rsNextElement s, s\<lparr>rsCallbacks := rsCallbacks s @ [(rsNextElement s, callback)],
                         rsNextElement := Suc (rsNextElement s)\<rparr>)"

definition UnregisterCallback :: "nat \<Rightarrow> ('c, 'z) abstractRuleSet_scheme \<Rightarrow> ('c, 'z) abstractRuleSet_scheme" where
  "UnregisterCallback element s = s\<lparr>rsCallbacks := filter (\<lambda>e. fst e \<noteq> element) (rsCallbacks s)\<rparr>"

section \<open>Loading\<close>

primrec HeadlessRule_RuleCount :: "HeadlessRule \<Rightarrow> u64" where
  "HeadlessRule_RuleCount (DefaultHeadlessRule rule) = ruleCount (defaultFields rule)"
| "HeadlessRule_RuleCount (DefaultRule rule) = ruleCount (defaultFields rule)"
| "HeadlessRule_RuleCount (DefaultDNSRule rule _ _) = ruleCount (defaultFields rule)"
| "HeadlessRule_RuleCount (LogicalRule _ _ _) = 1"

fun buildRules ::
  "('m, 'a) loader \<Rightarrow> nat \<Rightarrow> HeadlessRuleOptions list \<Rightarrow> load_error + HeadlessRule list" where
  "buildRules L i [] = Inr []"
| "buildRules L i (options # rest) =
     (case NewHeadlessRule (ldEnv L) (ldNetworkManager L) (ldStrategy L) options of
        Inl e \<Rightarrow> Inl (ParseRule i e)
      | Inr rule \<Rightarrow> map_sum id ((#) rule) (buildRules L (Suc i) rest))"

text \<open>\<^verbatim>\<open>reloadRules\<close>: an error or the callbacks to run, and the set afterwards.\<close>

definition reloadRules ::
  "('m, 'a) loader \<Rightarrow> HeadlessRuleOptions list \<Rightarrow> ('c, 'z) abstractRuleSet_scheme
     \<Rightarrow> (load_error + 'c list) \<times> ('c, 'z) abstractRuleSet_scheme" where
  "reloadRules L headlessRules s =
     (case buildRules L 0 headlessRules of
        Inl e \<Rightarrow> (Inl e, s)
      | Inr rules \<Rightarrow>
          (let metadata = buildRuleSetMetadata headlessRules in
           if \<not> validateRuleSetMetadataUpdate L (rsTag s) metadata then (Inl ValidationFailed, s)
           else (Inr (map snd (rsCallbacks s)),
                 s\<lparr>rsRules := rules, rsRuleCount := sum_list (map HeadlessRule_RuleCount rules),
                   rsMetadata := metadata, rsSnapshot := Some rules\<rparr>)))"

definition Upgrade :: "u8 \<times> HeadlessRuleOptions list \<Rightarrow> load_error + HeadlessRuleOptions list" where
  "Upgrade r = (if 1 \<le> fst r \<and> fst r \<le> RuleSetVersionCurrent then Inr (snd r)
                else Inl (UnknownRuleSetVersion (fst r)))"

text \<open>The decoded content of a file in the format of the set; no result means that decoding does not end.\<close>

definition decodeRuleSet ::
  "('m, 'a) loader \<Rightarrow> string \<Rightarrow> bytes \<Rightarrow> (load_error + HeadlessRuleOptions list) option" where
  "decodeRuleSet L format content =
     (if format = ''source'' then
        Some (case ldUnmarshalJSON L content of None \<Rightarrow> Inl JSONError | Some r \<Rightarrow> Upgrade r)
      else if format = ''binary'' then
        map_option (\<lambda>r. case r of Inl e \<Rightarrow> Inl (BinaryError e) | Inr v \<Rightarrow> Upgrade v)
          (SRS_Read (ldLib L) (ldEnv L) False content)
      else Some (Inl (UnknownFormat format)))"

definition loadBytes ::
  "('m, 'a) loader \<Rightarrow> bytes \<Rightarrow> ('c, 'z) abstractRuleSet_scheme
     \<Rightarrow> ((load_error + 'c list) \<times> ('c, 'z) abstractRuleSet_scheme) option" where
  "loadBytes L content s =
     map_option (\<lambda>r. case r of Inl e \<Rightarrow> (Inl e, s) | Inr rules \<Rightarrow> reloadRules L rules s)
       (decodeRuleSet L (rsFormat s) content)"

section \<open>The outside\<close>

text \<open>
  What a set uses of the process around it, over its state \<open>'w\<close>: the cache file
  if there is one, and files by their path. Reading a file is opening it,
  reading all of it and its modification time; writing one makes its directory.
\<close>

datatype statResult = StatFile | StatDirectory | StatMissing | StatFailed

record 'w outside =
  hasCacheFile :: bool
  oLoadRuleSet :: "'w \<Rightarrow> string \<Rightarrow> SavedBinary option \<times> 'w"
  oSaveRuleSet :: "'w \<Rightarrow> string \<Rightarrow> SavedBinary \<Rightarrow> bool \<times> 'w"
  oStat :: "'w \<Rightarrow> string \<Rightarrow> statResult"
  oReadFile :: "'w \<Rightarrow> string \<Rightarrow> (bytes \<times> int) option"
  oWriteFile :: "'w \<Rightarrow> string \<Rightarrow> bytes \<Rightarrow> bool \<times> 'w"
  oMakeHash :: "bytes \<Rightarrow> HashType"

section \<open>Local sets\<close>

record RuleSetOptions =
  rsoType :: string
  rsoFormat :: string
  rsoPath :: string
  rsoInline :: "HeadlessRuleOptions list"
  rsoURL :: string
  rsoInitialPath :: string
  rsoUpdateInterval :: int

definition newAbstractRuleSet :: "string \<Rightarrow> RuleSetOptions \<Rightarrow> string \<Rightarrow> 'c abstractRuleSet" where
  "newAbstractRuleSet tag options path =
     \<lparr>rsTag = tag, rsType = rsoType options, rsPath = path, rsFormat = rsoFormat options,
      rsRules = [], rsSnapshot = None, rsRuleCount = 0, rsMetadata = buildRuleSetMetadata [],
      rsLastUpdated = 0, rsCallbacks = [], rsNextElement = 0, rsRefs = 0\<rparr>"

text \<open>\<open>absPath\<close> stands for the file manager's base path made absolute.\<close>

definition getPath ::
  "'w outside \<Rightarrow> 'w \<Rightarrow> (string \<Rightarrow> string) \<Rightarrow> string \<Rightarrow> string \<Rightarrow> string \<Rightarrow> load_error + string" where
  "getPath X w absPath tag format path =
     (let path' = (if path = [] then
            (if format = ''source'' \<or> format = [] then tag @ ''.json''
             else if format = ''binary'' then tag @ ''.srs'' else tag)
           else path);
          path'' = absPath path' in
      case oStat X w path'' of
        StatDirectory \<Rightarrow> Inl PathError
      | StatFailed \<Rightarrow> Inl PathError
      | _ \<Rightarrow> Inr path'')"

definition reloadFile ::
  "('m, 'a) loader \<Rightarrow> 'w outside \<Rightarrow> 'w \<Rightarrow> string \<Rightarrow> ('c, 'z) abstractRuleSet_scheme
     \<Rightarrow> ((load_error + 'c list) \<times> ('c, 'z) abstractRuleSet_scheme) option" where
  "reloadFile L X w path s =
     (case oReadFile X w path of
        None \<Rightarrow> Some (Inl FileError, s)
      | Some (content, modTime) \<Rightarrow>
          map_option (\<lambda>(r, s'). case r of
              Inl e \<Rightarrow> (Inl e, s')
            | Inr callbacks \<Rightarrow> (Inr callbacks, setUpdatedTime modTime s'))
            (loadBytes L content s))"

text \<open>\<^verbatim>\<open>strings.ReplaceAll\<close> of the placeholder.\<close>

fun replaceTag :: "string \<Rightarrow> string \<Rightarrow> string" where
  "replaceTag tag [] = []"
| "replaceTag tag (c # s) =
     (if HasPrefix (c # s) ''{tag}'' then tag @ replaceTag tag (drop 4 s)
      else c # replaceTag tag s)"

definition NewLocalRuleSet ::
  "('m, 'a) loader \<Rightarrow> 'w outside \<Rightarrow> 'w \<Rightarrow> (string \<Rightarrow> string) \<Rightarrow> string \<Rightarrow> RuleSetOptions
     \<Rightarrow> (load_error + 'c abstractRuleSet) option" where
  "NewLocalRuleSet L X w absPath tag options =
     (let s = newAbstractRuleSet tag options [] in
      if rsoType options = ''inline'' then
        (if rsoInline options = [] then Some (Inl EmptyInline)
         else Some (case reloadRules L (rsoInline options) s of
                (Inl e, _) \<Rightarrow> Inl e | (Inr _, s') \<Rightarrow> Inr s'))
      else (case getPath X w absPath tag (rsoFormat options) (replaceTag tag (rsoPath options)) of
         Inl e \<Rightarrow> Some (Inl e)
       | Inr path \<Rightarrow>
           map_option (\<lambda>(r, s'). case r of Inl e \<Rightarrow> Inl e | Inr _ \<Rightarrow> Inr s')
             (reloadFile L X w path (s\<lparr>rsPath := path\<rparr>))))"

section \<open>Remote sets\<close>

record 'c RemoteRuleSet = "'c abstractRuleSet" +
  rrURL :: string
  rrURLHash :: bytes
  rrInitialPath :: string
  rrUpdateInterval :: int
  rrHash :: HashType
  rrLastEtag :: string
  rrUpdating :: bool

definition NewRemoteRuleSet ::
  "(bytes \<Rightarrow> bytes) \<Rightarrow> (string \<Rightarrow> string) \<Rightarrow> string \<Rightarrow> RuleSetOptions \<Rightarrow> load_error + 'c RemoteRuleSet" where
  "NewRemoteRuleSet sha256 absPath tag options =
     (if rsoPath options \<noteq> [] \<and> rsoInitialPath options \<noteq> [] then Inl ExclusivePaths
      else
        (let path = (if rsoPath options \<noteq> [] then absPath (replaceTag tag (rsoPath options)) else []);
             initialPath = (if rsoInitialPath options \<noteq> []
               then absPath (replaceTag tag (rsoInitialPath options)) else []);
             url = replaceTag tag (rsoURL options) in
         Inr (abstractRuleSet.extend (newAbstractRuleSet tag options path)
           (RemoteRuleSet.fields url (sha256 (str_bytes url)) initialPath
             (if rsoUpdateInterval options > 0 then rsoUpdateInterval options else 24 * 3600 * second)
             \<lparr>md5 = replicate 16 0\<rparr> [] False))))"

text \<open>
  The answer of the server: none, or a status with the entity tag and, unless
  reading it fails, the body.
\<close>

record httpResponse =
  statusCode :: nat
  etagHeader :: string
  responseBody :: "bytes option"

definition saveCacheFile :: "'w outside \<Rightarrow> bytes \<Rightarrow> 'c RemoteRuleSet \<Rightarrow> 'w \<Rightarrow> bool \<times> 'c RemoteRuleSet \<times> 'w" where
  "saveCacheFile X content s w =
     (case oWriteFile X w (rsPath s) content of
        (False, w') \<Rightarrow> (False, s, w')
      | (True, w') \<Rightarrow> (True, s\<lparr>rrHash := oMakeHash X content\<rparr>, w'))"

text \<open>The two tails of \<^verbatim>\<open>fetch\<close>: a set that was not modified, and content that was loaded.\<close>

definition fetchNotModified :: "'w outside \<Rightarrow> int \<Rightarrow> 'c RemoteRuleSet \<Rightarrow> 'w \<Rightarrow> 'c RemoteRuleSet \<times> 'w" where
  "fetchNotModified X now s w =
     (setUpdatedTime now s,
      if hasCacheFile X then
        (case oLoadRuleSet X w (rsTag s) of
           (None, w') \<Rightarrow> w'
         | (Some saved, w') \<Rightarrow>
             snd (oSaveRuleSet X w' (rsTag s) (saved\<lparr>LastUpdated := now, URLHash := rrURLHash s\<rparr>)))
      else w)"

definition saveFetched ::
  "'w outside \<Rightarrow> int \<Rightarrow> bytes \<Rightarrow> 'c RemoteRuleSet \<Rightarrow> 'w \<Rightarrow> bool \<times> 'c RemoteRuleSet \<times> 'w" where
  "saveFetched X now content s w =
     (case (if rsPath s \<noteq> [] then saveCacheFile X content s w else (True, s, w)) of
        (False, s', w') \<Rightarrow> (False, s', w')
      | (True, s', w') \<Rightarrow>
          (True, s',
           if hasCacheFile X then
             snd (oSaveRuleSet X w' (rsTag s')
               \<lparr>Hash = (if rsPath s' \<noteq> [] then rrHash s' else \<lparr>md5 = replicate 16 0\<rparr>),
                Content = (if rsPath s' \<noteq> [] then [] else content),
                LastUpdated = now, LastEtag = rrLastEtag s', URLHash = rrURLHash s'\<rparr>)
           else w'))"

text \<open>
  \<^verbatim>\<open>fetch\<close> while no other fetch of the set runs, with the server's answer and
  the time after it: an error or the callbacks that were run, the set and the
  outside. \<open>fetchGuarded\<close> is the entry, which refuses a second fetch.
\<close>

definition fetch ::
  "('m, 'a) loader \<Rightarrow> 'w outside \<Rightarrow> httpResponse option \<Rightarrow> int \<Rightarrow> 'c RemoteRuleSet \<Rightarrow> 'w
     \<Rightarrow> ((load_error + 'c list) \<times> 'c RemoteRuleSet \<times> 'w) option" where
  "fetch L X response now s w =
     (case response of
        None \<Rightarrow> Some (Inl RequestFailed, s, w)
      | Some r \<Rightarrow>
          if statusCode r = 304 then
            (let (s', w') = fetchNotModified X now s w in Some (Inr [], s', w'))
          else if statusCode r \<noteq> 200 then Some (Inl (UnexpectedStatus (statusCode r)), s, w)
          else (case responseBody r of
             None \<Rightarrow> Some (Inl RequestFailed, s, w)
           | Some content \<Rightarrow>
               map_option (\<lambda>(result, s1). case result of
                   Inl e \<Rightarrow> (Inl e, s1, w)
                 | Inr callbacks \<Rightarrow>
                     (let s2 = (if etagHeader r \<noteq> [] then s1\<lparr>rrLastEtag := etagHeader r\<rparr> else s1);
                          (ok, s3, w') = saveFetched X now content (setUpdatedTime now s2) w in
                      (if ok then Inr callbacks else Inl SaveFailed, s3, w')))
                 (loadBytes L content s)))"

definition fetchGuarded ::
  "('m, 'a) loader \<Rightarrow> 'w outside \<Rightarrow> httpResponse option \<Rightarrow> int \<Rightarrow> 'c RemoteRuleSet \<Rightarrow> 'w
     \<Rightarrow> ((load_error + 'c list) \<times> 'c RemoteRuleSet \<times> 'w) option" where
  "fetchGuarded L X response now s w =
     (if rrUpdating s then Some (Inl AlreadyUpdating, s, w)
      else map_option (\<lambda>(r, s', w'). (r, s'\<lparr>rrUpdating := False\<rparr>, w'))
        (fetch L X response now (s\<lparr>rrUpdating := True\<rparr>) w))"

definition RemoteRuleSet_Update ::
  "('m, 'a) loader \<Rightarrow> 'w outside \<Rightarrow> httpResponse option \<Rightarrow> int \<Rightarrow> 'c RemoteRuleSet \<Rightarrow> 'w
     \<Rightarrow> ((load_error + 'c list) \<times> 'c RemoteRuleSet \<times> 'w) option" where
  "RemoteRuleSet_Update L X response now s w =
     map_option (\<lambda>(r, s', w'). case r of
         Inl e \<Rightarrow> (Inl e, s', w')
       | Inr callbacks \<Rightarrow> (Inr callbacks, if rsRefs s' = 0 then clearRules s' else s', w'))
       (fetchGuarded L X response now s w)"

definition pathExists :: "'w outside \<Rightarrow> 'w \<Rightarrow> string \<Rightarrow> load_error + bool" where
  "pathExists X w path =
     (case oStat X w path of
        StatFile \<Rightarrow> Inr True
      | StatDirectory \<Rightarrow> Inl PathError
      | StatMissing \<Rightarrow> Inr False
      | StatFailed \<Rightarrow> Inl PathError)"

text \<open>
  The content \<^verbatim>\<open>loadCacheFile\<close> restores, with its time and entity tag, where
  the saved set is not one of another URL: from the set's own file, checked
  against the saved hash, or from the cache file. No content: not cached.
\<close>

definition cachedContent ::
  "'w outside \<Rightarrow> 'w \<Rightarrow> SavedBinary option \<Rightarrow> 'c RemoteRuleSet \<Rightarrow> load_error + (bytes \<times> int \<times> string) option" where
  "cachedContent X w savedSet s =
     (if rsPath s \<noteq> [] then
        (case pathExists X w (rsPath s) of
           Inl e \<Rightarrow> Inl e
         | Inr False \<Rightarrow> Inr None
         | Inr True \<Rightarrow>
             (case oReadFile X w (rsPath s) of
                None \<Rightarrow> Inl FileError
              | Some (content, modTime) \<Rightarrow>
                  (case savedSet of
                     None \<Rightarrow> Inr (Some (content, modTime, []))
                   | Some saved \<Rightarrow>
                       if \<not> HashType_Equal (rrHash s) (oMakeHash X content) then Inl CacheFileValidation
                       else Inr (Some (content, LastUpdated saved, LastEtag saved)))))
      else (case savedSet of
         None \<Rightarrow> Inr None
       | Some saved \<Rightarrow>
           if Content saved = [] then Inr None
           else Inr (Some (Content saved, LastUpdated saved, LastEtag saved))))"

definition loadCacheFile ::
  "('m, 'a) loader \<Rightarrow> 'w outside \<Rightarrow> 'c RemoteRuleSet \<Rightarrow> 'w
     \<Rightarrow> ((load_error + bool) \<times> 'c list \<times> 'c RemoteRuleSet \<times> 'w) option" where
  "loadCacheFile L X s w =
     (let (savedSet, w') = (if hasCacheFile X then oLoadRuleSet X w (rsTag s) else (None, w)) in
      if (case savedSet of None \<Rightarrow> False | Some saved \<Rightarrow> URLHash saved \<noteq> [] \<and> URLHash saved \<noteq> rrURLHash s)
        then Some (Inr False, [], s, w')
      else
        (let s1 = (case savedSet of None \<Rightarrow> s | Some saved \<Rightarrow> s\<lparr>rrHash := Hash saved\<rparr>) in
         case cachedContent X w' savedSet s1 of
           Inl e \<Rightarrow> Some (Inl e, [], s1, w')
         | Inr None \<Rightarrow> Some (Inr False, [], s1, w')
         | Inr (Some (content, lastUpdated, lastEtag)) \<Rightarrow>
             map_option (\<lambda>(r, s2). case r of
                 Inl e \<Rightarrow> (Inl e, [], s2, w')
               | Inr callbacks \<Rightarrow> (Inr True, callbacks, (setUpdatedTime lastUpdated s2)\<lparr>rrLastEtag := lastEtag\<rparr>, w'))
               (loadBytes L content s1)))"

text \<open>
  \<^verbatim>\<open>StartContext\<close>: from the cache, else from the initial file, else from the
  server. The flag tells whether the HTTP transport could be made.
\<close>

definition loadInitial ::
  "('m, 'a) loader \<Rightarrow> 'w outside \<Rightarrow> 'c RemoteRuleSet \<Rightarrow> 'w \<Rightarrow> (bool \<times> 'c RemoteRuleSet) option" where
  "loadInitial L X s w =
     (if rrInitialPath s = [] then Some (False, s)
      else (case oReadFile X w (rrInitialPath s) of
         None \<Rightarrow> Some (False, s)
       | Some (content, _) \<Rightarrow>
           map_option (\<lambda>(r, s'). case r of Inl _ \<Rightarrow> (False, s') | Inr _ \<Rightarrow> (True, s')) (loadBytes L content s)))"

definition RemoteRuleSet_StartContext ::
  "('m, 'a) loader \<Rightarrow> 'w outside \<Rightarrow> bool \<Rightarrow> httpResponse option \<Rightarrow> int \<Rightarrow> 'c RemoteRuleSet \<Rightarrow> 'w
     \<Rightarrow> (load_error option \<times> 'c RemoteRuleSet \<times> 'w) option" where
  "RemoteRuleSet_StartContext L X transportOk response now s w =
     (if \<not> transportOk then Some (Some TransportFailed, s, w)
      else if rrInitialPath s \<noteq> [] \<and> \<not> hasCacheFile X then Some (Some InitialPathNeedsCache, s, w)
      else (case loadCacheFile L X s w of
         None \<Rightarrow> None
       | Some (Inr True, _, s1, w1) \<Rightarrow> Some (None, s1, w1)
       | Some (_, _, s1, w1) \<Rightarrow>
           (case loadInitial L X s1 w1 of
              None \<Rightarrow> None
            | Some (True, s2) \<Rightarrow> Some (None, s2, w1)
            | Some (False, s2) \<Rightarrow>
                map_option (\<lambda>(r, s3, w3). case r of
                    Inl e \<Rightarrow> (Some (InitialFetch e), s3, w3)
                  | Inr _ \<Rightarrow> (None, s3, w3))
                  (fetchGuarded L X response now s2 w1))))"

definition RemoteRuleSet_Close :: "'c RemoteRuleSet \<Rightarrow> 'c RemoteRuleSet" where
  "RemoteRuleSet_Close s = clearRules s"

section \<open>The updater\<close>

text \<open>
  One round of \<^verbatim>\<open>loopUpdate\<close>: the sets that are due are updated and get their
  next time, and the round says how long to wait. \<open>update\<close> stands for the
  update of a set, given its index.
\<close>

fun updateDue :: "(nat \<Rightarrow> 's \<Rightarrow> 's) \<Rightarrow> int \<Rightarrow> nat \<Rightarrow> (int \<times> int) list \<Rightarrow> 's \<Rightarrow> int list \<times> 's" where
  "updateDue update now i [] s = ([], s)"
| "updateDue update now i ((nextUpdate, interval) # rest) s =
     (if now < nextUpdate then
        (let (ns, s') = updateDue update now (Suc i) rest s in (nextUpdate # ns, s'))
      else
        (let (ns, s') = updateDue update now (Suc i) rest (update i s) in ((now + interval) # ns, s')))"

definition waitUntilNext :: "int \<Rightarrow> int list \<Rightarrow> int" where
  "waitUntilNext now nextUpdates =
     max 0 (fold (\<lambda>t next. if t < next then t else next) (tl nextUpdates) (hd nextUpdates) - now)"

end
