(* ===== verification/SRSMatch.thy ===== *)
theory SRSMatch
  imports SRSProps RuleSets
begin

text \<open>
  A rule set compiled to the binary format does what its source does: it loads
  with the same outcome, describes itself by the same metadata, and every rule
  that names it matches the same connections.
\<close>

section \<open>Rules that match alike\<close>

text \<open>Items that differ at most in how they print.\<close>

definition sameItem :: "env \<Rightarrow> simple_item \<Rightarrow> simple_item \<Rightarrow> bool" where
  "sameItem E i j \<longleftrightarrow> simple_Match E i = simple_Match E j"

abbreviation sameItems :: "env \<Rightarrow> simple_item list \<Rightarrow> simple_item list \<Rightarrow> bool" where
  "sameItems E \<equiv> list_all2 (sameItem E)"

definition sameFields :: "env \<Rightarrow> ruleFields \<Rightarrow> ruleFields \<Rightarrow> bool" where
  "sameFields E r s \<longleftrightarrow> sameItems E (items r) (items s) \<and>
     sameItems E (sourceAddressItems r) (sourceAddressItems s) \<and>
     sameItems E (sourcePortItems r) (sourcePortItems s) \<and>
     sameItems E (destinationAddressItems r) (destinationAddressItems s) \<and>
     sameItems E (destinationIPCIDRItems r) (destinationIPCIDRItems s) \<and>
     sameItems E (destinationPortItems r) (destinationPortItems s) \<and>
     length (allItems r) = length (allItems s)"

lemma sameItem_refl [simp]: "sameItem E i i"
  by (simp add: sameItem_def)

lemma matchAny_same: "sameItems E xs ys \<Longrightarrow> matchAnyItem E xs metadata = matchAnyItem E ys metadata"
  by (induction xs ys arbitrary: metadata rule: list_all2_induct) (auto simp: sameItem_def split: prod.splits bool.splits)

lemma matchAll_same: "sameItems E xs ys \<Longrightarrow> matchAllItems E xs metadata = matchAllItems E ys metadata"
  by (induction xs ys arbitrary: metadata rule: list_all2_induct) (auto simp: sameItem_def split: prod.splits bool.splits)

lemma evaluateGroup_same:
  "sameItems E xs ys \<Longrightarrow> evaluateGroup E c t xs = evaluateGroup E c t ys"
proof -
  assume "sameItems E xs ys"
  then have eq: "matchAnyItem E xs = matchAnyItem E ys" by (intro ext matchAny_same)
  show ?thesis unfolding evaluateGroup_def eq by (rule refl)
qed

lemma same_empty: "sameItems E xs ys \<Longrightarrow> xs = [] \<longleftrightarrow> ys = []"
  by auto

lemma evaluateGroups_same:
  assumes "sameFields E r s"
  shows "evaluateGroups E r metadata = evaluateGroups E s metadata"
proof -
  have same: "sameItems E (sourceAddressItems r) (sourceAddressItems s)"
    "sameItems E (sourcePortItems r) (sourcePortItems s)"
    "sameItems E (destinationAddressItems r) (destinationAddressItems s)"
    "sameItems E (destinationIPCIDRItems r) (destinationIPCIDRItems s)"
    "sameItems E (destinationPortItems r) (destinationPortItems s)"
    using assms by (simp_all add: sameFields_def)
  note none = same [THEN same_empty]
  have "deferIPCIDR r = deferIPCIDR s" "destinationIPCIDRMatchesSource r = destinationIPCIDRMatchesSource s"
    "destinationIPCIDRMatchesDestination r = destinationIPCIDRMatchesDestination s"
    by (rule ext, simp add: deferIPCIDR_def destinationIPCIDRMatchesSource_def destinationIPCIDRMatchesDestination_def none)+
  then show ?thesis by (simp add: evaluateGroups_def none same [THEN evaluateGroup_same])
qed

lemma merge_same: "sameFields E r s \<Longrightarrow> evaluateForMerge E r = evaluateForMerge E s"
proof (rule ext)
  fix metadata
  assume same: "sameFields E r s"
  then have groups: "evaluateGroups E r = evaluateGroups E s" by (intro ext evaluateGroups_same)
  have all: "matchAllItems E (items r) = matchAllItems E (items s)"
    using same by (intro ext matchAll_same) (simp add: sameFields_def)
  show "evaluateForMerge E r metadata = evaluateForMerge E s metadata"
    unfolding evaluateForMerge_def groups all by (rule refl)
qed

lemma defaultRuleMatch_same:
  assumes "sameFields E r s"
  shows "defaultRuleMatch E r setItem inverted = defaultRuleMatch E s setItem inverted"
proof -
  have none: "allItems r = [] \<longleftrightarrow> allItems s = []" using assms by (auto simp: sameFields_def)
  have groups: "evaluateGroups E r = evaluateGroups E s" using assms by (intro ext evaluateGroups_same)
  have all: "matchAllItems E (items r) = matchAllItems E (items s)"
    using assms by (intro ext matchAll_same) (simp add: sameFields_def)
  show ?thesis
    by (rule ext) (unfold defaultRuleMatch_def matchInner_def none groups all, rule refl)
qed

definition sameMerge :: "env \<Rightarrow> ruleFields option \<Rightarrow> ruleFields option \<Rightarrow> bool" where
  "sameMerge E = rel_option (\<lambda>r s. evaluateForMerge E r = evaluateForMerge E s)"

definition sameRule :: "env \<Rightarrow> HeadlessRule \<Rightarrow> HeadlessRule \<Rightarrow> bool" where
  "sameRule E x y \<longleftrightarrow> Rule_Match E x = Rule_Match E y \<and>
     sameMerge E (mergeableRuleIn [x]) (mergeableRuleIn [y]) \<and>
     HeadlessRule_RuleCount x = HeadlessRule_RuleCount y"

lemma mergeable_same:
  assumes "list_all2 (sameRule E) xs ys"
  shows "sameMerge E (mergeableRuleIn xs) (mergeableRuleIn ys)"
proof (cases "length xs = 1")
  case True
  then obtain x y where "xs = [x]" "ys = [y]" "sameRule E x y"
    using assms by (auto simp: length_Suc_conv list_all2_Cons1)
  then show ?thesis by (simp add: sameRule_def)
next
  case False
  have "mergeableRuleIn zs = None" if "length zs \<noteq> 1" for zs
    using that by (cases zs rule: mergeableRuleIn.cases) simp_all
  then show ?thesis using False list_all2_lengthD [OF assms] by (simp add: sameMerge_def)
qed

lemma outer_same:
  assumes "list_all2 (\<lambda>(m, f) (n, g). m = n \<and> sameMerge E f g) xs ys"
  shows "outerGroupsLoop E ms ae outer xs snap matched deferred metadata =
    outerGroupsLoop E ms ae outer ys snap matched deferred metadata"
  using assms
proof (induction xs ys arbitrary: matched deferred metadata rule: list_all2_induct)
  case (Cons x xs y ys)
  obtain m f n g where xy: "x = (m, f)" "y = (n, g)" "m = n" "sameMerge E f g"
    using Cons(1) by (cases x; cases y) simp
  show ?case
  proof (cases f)
    case None
    then have "g = None" using xy(4) by (simp add: sameMerge_def)
    then show ?thesis using None Cons(3) by (simp add: xy Let_def split: prod.splits bool.splits)
  next
    case (Some r)
    then obtain s where "g = Some s" "evaluateForMerge E r = evaluateForMerge E s"
      using xy(4) by (auto simp: sameMerge_def option_rel_Some1)
    then show ?thesis using Some Cons(3) by (simp add: xy Let_def split: prod.splits option.splits)
  qed
qed simp

text \<open>Sets with rules that match alike are interchangeable in every rule that names them.\<close>

lemma same_sets:
  assumes "list_all2 (sameRule E) xs ys"
  shows "RuleSet_Match E (RuleSet tag xs md) = RuleSet_Match E (RuleSet tag ys md')"
    and "RuleSetItem_matchWithOuterGroups E (RuleSetItem tags (before @ RuleSet tag xs md # after) ms ae) =
      RuleSetItem_matchWithOuterGroups E (RuleSetItem tags (before @ RuleSet tag ys md' # after) ms ae)"
proof -
  have "map (Rule_Match E) xs = map (Rule_Match E) ys"
    using assms by (induction rule: list_all2_induct) (simp_all add: sameRule_def)
  then show match: "RuleSet_Match E (RuleSet tag xs md) = RuleSet_Match E (RuleSet tag ys md')" by simp
  have "list_all2 (\<lambda>(m, f) (n, g). m = n \<and> sameMerge E f g) zs zs" for zs
    by (rule list_all2_refl) (auto simp: sameMerge_def option.rel_refl)
  then show "RuleSetItem_matchWithOuterGroups E (RuleSetItem tags (before @ RuleSet tag xs md # after) ms ae) =
      RuleSetItem_matchWithOuterGroups E (RuleSetItem tags (before @ RuleSet tag ys md' # after) ms ae)"
    using match mergeable_same [OF assms]
    by (auto simp: matchWithOuterGroups_def fun_eq_iff mergeableRule_def simp del: RuleSet_Match.simps
        intro!: outer_same list_all2_appendI)
qed

section \<open>Building rules from compiled options\<close>

fun stepSame :: "env \<Rightarrow> step \<Rightarrow> step \<Rightarrow> bool" where
  "stepSame E (Inr (Some (slot, i))) (Inr (Some (slot', j))) \<longleftrightarrow> slot = slot' \<and> sameItem E i j"
| "stepSame E s t \<longleftrightarrow> s = t"

lemma stepSame_refl [simp]: "stepSame E s s"
  by (cases "(E, s, s)" rule: stepSame.cases) auto

lemma steps_refl [simp]: "list_all2 (stepSame E) ss ss"
  by (simp add: list_all2_refl)

lemma runSteps_same:
  "list_all2 (stepSame E) ss ts \<Longrightarrow> sameFields E r s \<Longrightarrow>
   rel_sum (=) (sameFields E) (runSteps ss r) (runSteps ts s)"
proof (induction ss ts arbitrary: r s rule: list_all2_induct)
  case (Cons a ss b ts)
  show ?case
  proof (cases "(E, a, b)" rule: stepSame.cases)
    case (1 E' slot i slot' j)
    then have "slot = slot'" "sameItem E i j" using Cons(1) by simp_all
    then have "sameFields E (addItem slot i r) (addItem slot' j s)"
      using Cons.prems by (cases slot) (auto simp: sameFields_def intro!: list_all2_appendI)
    then show ?thesis using 1 Cons(3) by simp
  qed (use Cons in \<open>auto split: option.splits\<close>)
qed simp

text \<open>
  The options of a headless rule as a source file gives them: no field of other
  kinds of rules, nothing prepared, and no strategy of its own to match domains by.
\<close>

definition headlessSource :: "ruleOptions \<Rightarrow> bool" where
  "headlessSource src \<longleftrightarrow> src = ruleOptionsZero\<lparr>
     opt_QueryType := opt_QueryType src,
     opt_Network := opt_Network src,
     opt_Domain := opt_Domain src,
     opt_DomainSuffix := opt_DomainSuffix src,
     opt_DomainKeyword := opt_DomainKeyword src,
     opt_DomainRegex := opt_DomainRegex src,
     opt_SourceIPCIDR := opt_SourceIPCIDR src,
     opt_IPCIDR := opt_IPCIDR src,
     opt_SourcePort := opt_SourcePort src,
     opt_SourcePortRange := opt_SourcePortRange src,
     opt_Port := opt_Port src,
     opt_PortRange := opt_PortRange src,
     opt_ProcessName := opt_ProcessName src,
     opt_ProcessPath := opt_ProcessPath src,
     opt_ProcessPathRegex := opt_ProcessPathRegex src,
     opt_PackageName := opt_PackageName src,
     opt_PackageNameRegex := opt_PackageNameRegex src,
     opt_NetworkType := opt_NetworkType src,
     opt_NetworkIsExpensive := opt_NetworkIsExpensive src,
     opt_NetworkIsConstrained := opt_NetworkIsConstrained src,
     opt_WIFISSID := opt_WIFISSID src,
     opt_WIFIBSSID := opt_WIFIBSSID src,
     opt_NetworkInterfaceAddress := opt_NetworkInterfaceAddress src,
     opt_DefaultInterfaceAddress := opt_DefaultInterfaceAddress src,
     opt_Invert := opt_Invert src,
     opt_AdGuardDomain := opt_AdGuardDomain src\<rparr>"

lemma compiled_fields [simp]:
  shows
    "opt_QueryType (compiledOptions P E rc ver src) = opt_QueryType src"
    "opt_Network (compiledOptions P E rc ver src) = opt_Network src"
    "opt_DomainKeyword (compiledOptions P E rc ver src) = opt_DomainKeyword src"
    "opt_DomainRegex (compiledOptions P E rc ver src) = opt_DomainRegex src"
    "opt_SourcePort (compiledOptions P E rc ver src) = opt_SourcePort src"
    "opt_SourcePortRange (compiledOptions P E rc ver src) = opt_SourcePortRange src"
    "opt_Port (compiledOptions P E rc ver src) = opt_Port src"
    "opt_PortRange (compiledOptions P E rc ver src) = opt_PortRange src"
    "opt_ProcessName (compiledOptions P E rc ver src) = opt_ProcessName src"
    "opt_ProcessPath (compiledOptions P E rc ver src) = opt_ProcessPath src"
    "opt_ProcessPathRegex (compiledOptions P E rc ver src) = opt_ProcessPathRegex src"
    "opt_PackageName (compiledOptions P E rc ver src) = opt_PackageName src"
    "opt_PackageNameRegex (compiledOptions P E rc ver src) = opt_PackageNameRegex src"
    "opt_NetworkType (compiledOptions P E rc ver src) = opt_NetworkType src"
    "opt_NetworkIsExpensive (compiledOptions P E rc ver src) = opt_NetworkIsExpensive src"
    "opt_NetworkIsConstrained (compiledOptions P E rc ver src) = opt_NetworkIsConstrained src"
    "opt_WIFISSID (compiledOptions P E rc ver src) = opt_WIFISSID src"
    "opt_WIFIBSSID (compiledOptions P E rc ver src) = opt_WIFIBSSID src"
    "opt_NetworkInterfaceAddress (compiledOptions P E rc ver src) = opt_NetworkInterfaceAddress src"
    "opt_DefaultInterfaceAddress (compiledOptions P E rc ver src) = opt_DefaultInterfaceAddress src"
    "opt_Invert (compiledOptions P E rc ver src) = opt_Invert src"
  by (simp_all add: compiledOptions_def)

lemma written_steps:
  "writeSteps steps = Inr bs \<Longrightarrow> Inl e \<notin> set steps"
proof (induction steps arbitrary: bs)
  case (Cons s steps)
  then show ?case by (cases s) auto
qed simp

lemma writer_checks:
  assumes "writeDefaultRule P E ver src = Inr bs"
  shows "hasDomains src \<Longrightarrow> [] \<notin> set (opt_Domain src) \<and> [] \<notin> set (opt_DomainSuffix src)"
    "opt_SourceIPCIDR src \<noteq> [] \<Longrightarrow> BuildIPSet E (opt_SourceIPCIDR src) \<noteq> None"
    "opt_IPCIDR src \<noteq> [] \<Longrightarrow> BuildIPSet E (opt_IPCIDR src) \<noteq> None"
proof -
  obtain b where "writeSteps (writeDefaultRule_steps P E ver src) = Inr b"
    using assms by (auto simp: writeDefaultRule_def)
  note ok = written_steps [OF this]
  have "length (writeDefaultRule_steps P E ver src) = 24" by (simp add: writeDefaultRule_steps_def Let_def)
  then have at: "writeDefaultRule_steps P E ver src ! i \<noteq> Inl e" if "i < 24" for i e
    using ok [of e] nth_mem [of i "writeDefaultRule_steps P E ver src"] that by metis
  show "hasDomains src \<Longrightarrow> [] \<notin> set (opt_Domain src) \<and> [] \<notin> set (opt_DomainSuffix src)"
    using at [of 2 "EmptyItemNotAllowed ''domain''"] at [of 2 "EmptyItemNotAllowed ''domain_suffix''"]
    by (auto simp: writeDefaultRule_steps_def Let_def hasDomains_def emit_def split: if_splits)
  show "opt_SourceIPCIDR src \<noteq> [] \<Longrightarrow> BuildIPSet E (opt_SourceIPCIDR src) \<noteq> None"
    using at [of 5 "IPSetBuildError ''source_ip_cidr''"]
    by (auto simp: writeDefaultRule_steps_def Let_def emit_def writeRuleItemCIDR_def split: option.splits)
  show "opt_IPCIDR src \<noteq> [] \<Longrightarrow> BuildIPSet E (opt_IPCIDR src) \<noteq> None"
    using at [of 6 "IPSetBuildError ''ipcidr''"]
    by (auto simp: writeDefaultRule_steps_def Let_def emit_def writeRuleItemCIDR_def split: option.splits)
qed

lemma steps_same:
  assumes w: "writeDefaultRule P E ver src = Inr bs" and src: "headlessSource src" and v: "ver \<noteq> 1"
  shows "list_all2 (stepSame E) (NewDefaultHeadlessRule_steps E nm st src)
    (NewDefaultHeadlessRule_steps E nm st (compiledOptions P E False ver src))"
proof -
  let ?c = "compiledOptions P E False ver src"
  have raw: "opt_DomainMatcher src = None" "opt_SourceIPSet src = None" "opt_IPSet src = None" "opt_AdGuardDomainMatcher src = None"
    using arg_cong [OF src [unfolded headlessSource_def], of opt_DomainMatcher]
      arg_cong [OF src [unfolded headlessSource_def], of opt_SourceIPSet]
      arg_cong [OF src [unfolded headlessSource_def], of opt_IPSet]
      arg_cong [OF src [unfolded headlessSource_def], of opt_AdGuardDomainMatcher]
    by (simp_all add: ruleOptionsZero_def)
  have "stepSame E
      (addOrRaw (addE True [] SlotDestinationAddress (NewDomainItem E (opt_Domain src) (opt_DomainSuffix src) st))
        (opt_Domain src \<noteq> [] \<or> opt_DomainSuffix src \<noteq> []) SlotDestinationAddress
        (map_option (\<lambda>m. NewRawDomainItem m st) (opt_DomainMatcher src)))
      (addOrRaw (addE True [] SlotDestinationAddress (NewDomainItem E (opt_Domain ?c) (opt_DomainSuffix ?c) st))
        (opt_Domain ?c \<noteq> [] \<or> opt_DomainSuffix ?c \<noteq> []) SlotDestinationAddress
        (map_option (\<lambda>m. NewRawDomainItem m st) (opt_DomainMatcher ?c)))"
    using writer_checks(1) [OF w] v raw(1)
    by (auto simp: addOrRaw_def addE_def compiledOptions_def hasDomains_def NewDomainItem_def Let_def NewRawDomainItem_def sameItem_def fun_eq_iff)
  moreover have "stepSame E
      (addOrRaw (addE True ''source_ip_cidr'' SlotSourceAddress (NewIPCIDRItem E True (opt_SourceIPCIDR src)))
        (opt_SourceIPCIDR src \<noteq> []) SlotSourceAddress (map_option (NewRawIPCIDRItem True) (opt_SourceIPSet src)))
      (addOrRaw (addE True ''source_ip_cidr'' SlotSourceAddress (NewIPCIDRItem E True (opt_SourceIPCIDR ?c)))
        (opt_SourceIPCIDR ?c \<noteq> []) SlotSourceAddress (map_option (NewRawIPCIDRItem True) (opt_SourceIPSet ?c)))"
    using writer_checks(2) [OF w] raw(2)
    by (auto simp: addOrRaw_def addE_def compiledOptions_def builtSet_def Let_def NewIPCIDRItem_def NewRawIPCIDRItem_def sameItem_def fun_eq_iff)
  moreover have "stepSame E
      (addOrRaw (addE True ''ipcidr'' SlotDestinationIPCIDR (NewIPCIDRItem E False (opt_IPCIDR src)))
        (opt_IPCIDR src \<noteq> []) SlotDestinationIPCIDR (map_option (NewRawIPCIDRItem False) (opt_IPSet src)))
      (addOrRaw (addE True ''ipcidr'' SlotDestinationIPCIDR (NewIPCIDRItem E False (opt_IPCIDR ?c)))
        (opt_IPCIDR ?c \<noteq> []) SlotDestinationIPCIDR (map_option (NewRawIPCIDRItem False) (opt_IPSet ?c)))"
    using writer_checks(3) [OF w] raw(3)
    by (auto simp: addOrRaw_def addE_def compiledOptions_def builtSet_def Let_def NewIPCIDRItem_def NewRawIPCIDRItem_def sameItem_def fun_eq_iff)
  moreover have "stepSame E
      (addOrRaw (add True SlotDestinationAddress (NewAdGuardDomainItem E (opt_AdGuardDomain src) st))
        (opt_AdGuardDomain src \<noteq> []) SlotDestinationAddress (map_option (\<lambda>m. NewRawAdGuardDomainItem m st) (opt_AdGuardDomainMatcher src)))
      (addOrRaw (add True SlotDestinationAddress (NewAdGuardDomainItem E (opt_AdGuardDomain ?c) st))
        (opt_AdGuardDomain ?c \<noteq> []) SlotDestinationAddress (map_option (\<lambda>m. NewRawAdGuardDomainItem m st) (opt_AdGuardDomainMatcher ?c)))"
    using raw(4) by (auto simp: addOrRaw_def add_def compiledOptions_def NewAdGuardDomainItem_def NewRawAdGuardDomainItem_def)
  ultimately show ?thesis
    unfolding NewDefaultHeadlessRule_steps_def NewDefaultHeadlessRule_addressSteps_def
    by (intro list_all2_appendI) (simp_all add: processSteps_def networkSteps_def interfaceSteps_def)
qed

lemma sameFields_count:
  assumes "sameFields E r s"
  shows "headlessRuleCount r = headlessRuleCount s"
proof -
  have same: "sameItems E (sourceAddressItems r) (sourceAddressItems s)"
    "sameItems E (sourcePortItems r) (sourcePortItems s)"
    "sameItems E (destinationAddressItems r) (destinationAddressItems s)"
    "sameItems E (destinationIPCIDRItems r) (destinationIPCIDRItems s)"
    "sameItems E (destinationPortItems r) (destinationPortItems s)" "length (allItems r) = length (allItems s)"
    using assms by (simp_all add: sameFields_def)
  then show ?thesis by (simp add: headlessRuleCount_def same(1-5) [THEN list_all2_lengthD])
qed

lemma source_strategy: "headlessSource src \<Longrightarrow> opt_DomainMatchStrategy src = DomainMatchStrategyAsIS"
  by (cases src) (simp add: headlessSource_def ruleOptionsZero_def)

lemma default_same:
  assumes "writeDefaultRule P E ver src = Inr bs" "headlessSource src" "ver \<noteq> 1"
  shows "rel_sum (=) (sameRule E) (NewDefaultHeadlessRule E nm rd src)
    (NewDefaultHeadlessRule E nm rd (compiledOptions P E False ver src))"
proof -
  let ?st = "ruleStrategy rd DomainMatchStrategyAsIS"
  let ?rule = "\<lambda>r. DefaultHeadlessRule (AbstractDefaultRule (r\<lparr>ruleCount := word_of_nat (headlessRuleCount r)\<rparr>) None (opt_Invert src))"
  have "sameFields E (emptyFields ?st) (emptyFields ?st)" by (simp add: sameFields_def emptyFields_def)
  from runSteps_same [OF steps_same [OF assms] this]
  have steps: "rel_sum (=) (sameFields E) (runSteps (NewDefaultHeadlessRule_steps E nm ?st src) (emptyFields ?st))
      (runSteps (NewDefaultHeadlessRule_steps E nm ?st (compiledOptions P E False ver src)) (emptyFields ?st))" .
  have built: "sameRule E (?rule r) (?rule s)" if "sameFields E r s" for r s
  proof -
    have "sameFields E (r\<lparr>ruleCount := n\<rparr>) (s\<lparr>ruleCount := n\<rparr>)" for n using that by (simp add: sameFields_def)
    then show ?thesis
      by (simp add: sameRule_def sameMerge_def sameFields_count [OF that] defaultRuleMatch_same merge_same)
  qed
  have "opt_DomainMatchStrategy (compiledOptions P E False ver src) = DomainMatchStrategyAsIS"
    by (simp add: compiledOptions_def ruleOptionsZero_def)
  then show ?thesis
    using steps source_strategy [OF assms(2)]
    by (auto simp: NewDefaultHeadlessRule_def Let_def intro!: built elim!: rel_sum.cases)
qed

lemma compiled_conditions:
  assumes "headlessSource src"
  shows "conditionsSet (compiledOptions P E False ver src) = conditionsSet src"
    "isNonIPCIDRHeadlessRule (compiledOptions P E False ver src) = isNonIPCIDRHeadlessRule src"
    "isIPCIDRHeadlessRule (compiledOptions P E False ver src) = isIPCIDRHeadlessRule src"
proof -
  show "conditionsSet (compiledOptions P E False ver src) = conditionsSet src"
    using assms by (cases src) (auto simp: headlessSource_def conditionsSet_def compiledOptions_def ruleOptionsZero_def hasDomains_def)
  show "isNonIPCIDRHeadlessRule (compiledOptions P E False ver src) = isNonIPCIDRHeadlessRule src"
    using assms by (cases src) (auto simp: headlessSource_def isNonIPCIDRHeadlessRule_def compiledOptions_def ruleOptionsZero_def hasDomains_def)
  show "isIPCIDRHeadlessRule (compiledOptions P E False ver src) = isIPCIDRHeadlessRule src"
    using assms by (cases src) (auto simp: headlessSource_def isIPCIDRHeadlessRule_def compiledOptions_def ruleOptionsZero_def)
qed

fun plainSource :: "HeadlessRuleOptions \<Rightarrow> bool" where
  "plainSource (HeadlessDefaultOptions src) = headlessSource src"
| "plainSource (HeadlessLogicalOptions _ rules _) = list_all plainSource rules"
| "plainSource (HeadlessUnknownTypeOptions _) = True"

lemma written_rules:
  "writeRules P E ver rules = Inr bs \<Longrightarrow> rule \<in> set rules \<Longrightarrow> \<exists>b. writeRule P E ver rule = Inr b"
  by (induction rules arbitrary: bs) (auto split: sum.splits)

lemma valid_same:
  "plainSource rule \<Longrightarrow> HeadlessRule_IsValid (compiledRule P E False ver rule) = HeadlessRule_IsValid rule"
  by (induction rule) (auto simp: compiled_conditions list_all_iff)

lemma subRules_same:
  assumes "\<And>rule. rule \<in> set rules \<Longrightarrow> rel_sum (=) (sameRule E) (NewHeadlessRule E nm rd rule) (NewHeadlessRule E nm rd (f rule))"
  shows "rel_sum (=) (list_all2 (sameRule E)) (newHeadlessSubRules E nm rd i rules) (newHeadlessSubRules E nm rd i (map f rules))"
  using assms
proof (induction rules arbitrary: i)
  case (Cons rule rules)
  have "rel_sum (=) (sameRule E) (NewHeadlessRule E nm rd rule) (NewHeadlessRule E nm rd (f rule))"
    "rel_sum (=) (list_all2 (sameRule E)) (newHeadlessSubRules E nm rd (Suc i) rules) (newHeadlessSubRules E nm rd (Suc i) (map f rules))"
    using Cons by simp_all
  then show ?case by (auto elim!: rel_sum.cases)
qed simp

lemma logical_same:
  assumes "list_all2 (sameRule E) xs ys"
  shows "sameRule E (LogicalRule xs m inverted) (LogicalRule ys m inverted)"
proof -
  have "map (Rule_Match E) xs = map (Rule_Match E) ys"
    using assms by (induction rule: list_all2_induct) (simp_all add: sameRule_def)
  then show ?thesis by (simp add: sameRule_def sameMerge_def)
qed

lemma rule_same:
  "writeRule P E ver rule = Inr bs \<Longrightarrow> plainSource rule \<Longrightarrow> ver \<noteq> 1 \<Longrightarrow>
   rel_sum (=) (sameRule E) (NewHeadlessRule E nm rd rule) (NewHeadlessRule E nm rd (compiledRule P E False ver rule))"
proof (induction rule arbitrary: bs)
  case (HeadlessDefaultOptions src)
  then show ?case using default_same [of P E ver src bs nm rd] by (simp add: compiled_conditions)
next
  case (HeadlessLogicalOptions mode rules inverted)
  then obtain b where "writeRules P E ver rules = Inr b" by (auto split: if_splits)
  then have "rel_sum (=) (sameRule E) (NewHeadlessRule E nm rd rule) (NewHeadlessRule E nm rd (compiledRule P E False ver rule))"
    if "rule \<in> set rules" for rule
    using HeadlessLogicalOptions written_rules [OF _ that] that by (fastforce simp: list_all_iff)
  from subRules_same [OF this, where i = 0]
  have subs: "rel_sum (=) (list_all2 (sameRule E)) (newHeadlessSubRules E nm rd 0 rules)
      (newHeadlessSubRules E nm rd 0 (map (compiledRule P E False ver) rules))" by blast
  have "HeadlessRule_IsValid (HeadlessLogicalOptions mode (map (compiledRule P E False ver) rules) inverted) =
      HeadlessRule_IsValid (HeadlessLogicalOptions mode rules inverted)"
    using valid_same [OF HeadlessLogicalOptions.prems(2)] by simp
  then show ?case
    using subs unfolding compiledRule.simps NewHeadlessRule.simps
    by (auto simp del: HeadlessRule_IsValid.simps intro!: logical_same elim!: rel_sum.cases split: sum.splits)
qed simp

lemma buildRules_same:
  assumes "\<And>rule. rule \<in> set rules \<Longrightarrow> rel_sum (=) (sameRule (ldEnv L))
      (NewHeadlessRule (ldEnv L) (ldNetworkManager L) (ldStrategy L) rule)
      (NewHeadlessRule (ldEnv L) (ldNetworkManager L) (ldStrategy L) (f rule))"
  shows "rel_sum (=) (list_all2 (sameRule (ldEnv L))) (buildRules L i rules) (buildRules L i (map f rules))"
  using assms
proof (induction rules arbitrary: i)
  case (Cons rule rules)
  have "rel_sum (=) (sameRule (ldEnv L)) (NewHeadlessRule (ldEnv L) (ldNetworkManager L) (ldStrategy L) rule)
      (NewHeadlessRule (ldEnv L) (ldNetworkManager L) (ldStrategy L) (f rule))"
    "rel_sum (=) (list_all2 (sameRule (ldEnv L))) (buildRules L (Suc i) rules) (buildRules L (Suc i) (map f rules))"
    using Cons by simp_all
  then show ?case by (auto elim!: rel_sum.cases)
qed simp

lemma has_same:
  "(\<And>src. headlessSource src \<Longrightarrow> cond (compiledOptions P E False ver src) = cond src) \<Longrightarrow>
    list_all plainSource rules \<Longrightarrow> HasHeadlessRule cond (map (compiledRule P E False ver) rules) = HasHeadlessRule cond rules"
proof (induction cond rules rule: HasHeadlessRule.induct)
  case (2 cond rule rules)
  then show ?case by (cases rule) auto
qed simp

lemma metadata_same:
  assumes "list_all plainSource rules"
  shows "buildRuleSetMetadata (map (compiledRule P E False ver) rules) = buildRuleSetMetadata rules"
proof -
  note has = has_same [OF _ assms, of _ P E ver]
  show ?thesis
    by (simp add: buildRuleSetMetadata_def has compiled_conditions isProcessHeadlessRule_def
        isProcessPathHeadlessRule_def isWIFIHeadlessRule_def isDNSQueryTypeHeadlessRule_def)
qed

text \<open>Sets in the same state that no rule can tell apart.\<close>

definition sameSet :: "env \<Rightarrow> 'c abstractRuleSet \<Rightarrow> 'c abstractRuleSet \<Rightarrow> bool" where
  "sameSet E t t' \<longleftrightarrow> rsMetadata t = rsMetadata t' \<and> rsRuleCount t = rsRuleCount t' \<and>
     RuleSet_Match E (currentSet t) = RuleSet_Match E (currentSet t') \<and>
     (\<forall>tags before after ms ae.
        RuleSetItem_matchWithOuterGroups E (RuleSetItem tags (before @ currentSet t # after) ms ae) =
        RuleSetItem_matchWithOuterGroups E (RuleSetItem tags (before @ currentSet t' # after) ms ae))"

lemma reload_same:
  assumes "rel_sum (=) (list_all2 (sameRule (ldEnv L))) (buildRules L 0 rules) (buildRules L 0 rules')"
    and "buildRuleSetMetadata rules' = buildRuleSetMetadata rules"
  shows "\<exists>r t t'. reloadRules L rules' (s\<lparr>rsFormat := f\<rparr>) = (r, t) \<and> reloadRules L rules (s\<lparr>rsFormat := g\<rparr>) = (r, t') \<and>
    sameSet (ldEnv L) t t'"
proof -
  have "currentSet (s\<lparr>rsFormat := h\<rparr>) = currentSet s" for h
    by (simp add: currentSet_def loadRules_def split: option.split)
  then have kept: "sameSet (ldEnv L) (s\<lparr>rsFormat := f\<rparr>) (s\<lparr>rsFormat := g\<rparr>)" by (simp add: sameSet_def)
  show ?thesis
  proof (cases "buildRules L 0 rules")
    case (Inl e)
    then have "buildRules L 0 rules' = Inl e" using assms(1) by (auto elim!: rel_sum.cases)
    then show ?thesis using Inl kept by (simp add: reloadRules_def)
  next
    case (Inr xs)
    then obtain ys where ys: "buildRules L 0 rules' = Inr ys" "list_all2 (sameRule (ldEnv L)) xs ys"
      using assms(1) by (auto elim!: rel_sum.cases)
    have "map HeadlessRule_RuleCount xs = map HeadlessRule_RuleCount ys"
      using ys(2) by (induction rule: list_all2_induct) (simp_all add: sameRule_def)
    then have "sameSet (ldEnv L)
        (s\<lparr>rsFormat := f, rsRules := ys, rsRuleCount := sum_list (map HeadlessRule_RuleCount ys), rsMetadata := md, rsSnapshot := Some ys\<rparr>)
        (s\<lparr>rsFormat := g, rsRules := xs, rsRuleCount := sum_list (map HeadlessRule_RuleCount xs), rsMetadata := md, rsSnapshot := Some xs\<rparr>)" for md
      by (simp add: sameSet_def currentSet_def loadRules_def same_sets [OF ys(2), where md = md and md' = md]
          del: RuleSet_Match.simps RuleSetItem_matchWithOuterGroups.simps)
    then show ?thesis
      using Inr ys(1) assms(2) kept by (simp add: reloadRules_def Let_def validateRuleSetMetadataUpdate_def)
  qed
qed


definition exampleLoader :: "(bool, bool) loader" where
  "exampleLoader = \<lparr>ldLib = exampleLib, ldEnv = srsEnv, ldNetworkManager = True, ldStrategy = None,
     ldUnmarshalJSON = (\<lambda>_. Some (2, exampleRules)), ldValidator = None\<rparr>"

definition exampleSet :: "unit abstractRuleSet" where
  "exampleSet = \<lparr>rsTag = ''geo'', rsType = ''local'', rsPath = [], rsFormat = [], rsRules = [], rsSnapshot = None,
     rsRuleCount = 0, rsMetadata = buildRuleSetMetadata [], rsLastUpdated = 0, rsCallbacks = [(0, ())],
     rsNextElement = 1, rsRefs = 0\<rparr>"


end
