(* ===== verification/FakeIPMetadata.thy ===== *)
theory FakeIPMetadata
  imports GoStd Netip
begin

text \<open>
  \<^verbatim>\<open>adapter/fakeip_metadata.go\<close>: the saved state of the FakeIP allocator, and its
  binary form: four values, each with a length of two bytes before it. The
  binary forms of addresses and prefixes are those of \<^verbatim>\<open>net/netip\<close>.
\<close>

section \<open>Binary forms of addresses and prefixes\<close>

fun Addr_MarshalBinary :: "Addr \<Rightarrow> bytes" where
  "Addr_MarshalBinary (AddrInvalid _) = []"
| "Addr_MarshalBinary (Addr4 v) = AsSlice (Addr4 v)"
| "Addr_MarshalBinary (Addr6 v z) = AsSlice (Addr6 v z) @ str_bytes z"

definition Addr_UnmarshalBinary :: "bytes \<Rightarrow> Addr option" where
  "Addr_UnmarshalBinary b =
     (if length b = 0 then Some AddrZero
      else if length b = 4 then Some (AddrFrom4 b)
      else if length b = 16 then Some (AddrFrom16 b)
      else if length b > 16 then Some (WithZone (AddrFrom16 (take 16 b)) (bytes_str (drop 16 b)))
      else None)"

definition Prefix_MarshalBinary :: "Prefix \<Rightarrow> bytes" where
  "Prefix_MarshalBinary p =
     Addr_MarshalBinary (WithZone (PrefixAddr p) []) @ [word_of_int (PrefixBits p)]"

definition Prefix_UnmarshalBinary :: "bytes \<Rightarrow> Prefix option" where
  "Prefix_UnmarshalBinary b =
     (if length b < 1 then None
      else map_option (\<lambda>a. PrefixFrom a (uint (last b))) (Addr_UnmarshalBinary (butlast b)))"

section \<open>Metadata\<close>

record FakeIPMetadata =
  Inet4Range :: Prefix
  Inet6Range :: Prefix
  Inet4Current :: Addr
  Inet6Current :: Addr

text \<open>The four values in their order, each by its own binary form.\<close>

definition marshalElement :: "bytes \<Rightarrow> bytes" where
  "marshalElement data = be_bytes 2 (length data) @ data"

definition FakeIPMetadata_MarshalBinary :: "FakeIPMetadata \<Rightarrow> bytes" where
  "FakeIPMetadata_MarshalBinary m =
     marshalElement (Prefix_MarshalBinary (Inet4Range m))
     @ marshalElement (Prefix_MarshalBinary (Inet6Range m))
     @ marshalElement (Addr_MarshalBinary (Inet4Current m))
     @ marshalElement (Addr_MarshalBinary (Inet6Current m))"

text \<open>
  Decoding may fail with an error, or panic where the two bytes of a length
  are missing (\<^verbatim>\<open>common.Must\<close>).
\<close>

datatype unmarshal_error = UnmarshalPanic | UnexpectedEOF | UnexpectedSliceSize

definition unmarshalElement :: "(bytes \<Rightarrow> 'a option) \<Rightarrow> bytes \<Rightarrow> unmarshal_error + ('a \<times> bytes)" where
  "unmarshalElement decode reader =
     (case split_at 2 reader of
        None \<Rightarrow> Inl UnmarshalPanic
      | Some (len, rest) \<Rightarrow>
          (case split_at (be_uint len) rest of
             None \<Rightarrow> Inl UnexpectedEOF
           | Some (element, rest') \<Rightarrow>
               (case decode element of
                  None \<Rightarrow> Inl UnexpectedSliceSize
                | Some value \<Rightarrow> Inr (value, rest'))))"

definition FakeIPMetadata_UnmarshalBinary :: "bytes \<Rightarrow> unmarshal_error + FakeIPMetadata" where
  "FakeIPMetadata_UnmarshalBinary data =
     (case unmarshalElement Prefix_UnmarshalBinary data of
        Inl e \<Rightarrow> Inl e
      | Inr (r4, rest1) \<Rightarrow>
     (case unmarshalElement Prefix_UnmarshalBinary rest1 of
        Inl e \<Rightarrow> Inl e
      | Inr (r6, rest2) \<Rightarrow>
     (case unmarshalElement Addr_UnmarshalBinary rest2 of
        Inl e \<Rightarrow> Inl e
      | Inr (c4, rest3) \<Rightarrow>
     (case unmarshalElement Addr_UnmarshalBinary rest3 of
        Inl e \<Rightarrow> Inl e
      | Inr (c6, _) \<Rightarrow>
          Inr \<lparr>Inet4Range = r4, Inet6Range = r6, Inet4Current = c4, Inet6Current = c6\<rparr>))))"

section \<open>Round trip\<close>

text \<open>
  The values a Go program can hold: the only invalid address or prefix is the
  zero value, a prefix has no zone and a bit count its address allows.
\<close>

definition proper_addr :: "Addr \<Rightarrow> bool" where
  "proper_addr a \<longleftrightarrow> (AddrIsValid a \<or> a = AddrZero) \<and> length (Addr_MarshalBinary a) < 65536"

definition proper_prefix :: "Prefix \<Rightarrow> bool" where
  "proper_prefix p \<longleftrightarrow> p = PrefixZero \<or>
     PrefixIsValid p \<and> \<not> hasZone (PrefixAddr p) \<and> PrefixBits p \<le> BitLen (PrefixAddr p)"

lemma Addr_roundtrip: "proper_addr a \<Longrightarrow> Addr_UnmarshalBinary (Addr_MarshalBinary a) = Some a"
proof (cases a)
  case (Addr6 v z)
  have "AddrFrom16 (be_bytes 16 (unat v)) = Addr6 v []"
    using AddrFrom16_As16 [of v] by (simp add: As16_def)
  then show ?thesis
    using Addr6 by (cases "z = []") (simp_all add: Addr_UnmarshalBinary_def str_bytes_def [of "[]"])
qed (auto simp: proper_addr_def Addr_UnmarshalBinary_def AddrFrom4_AsSlice [simplified])

lemma Prefix_roundtrip: "proper_prefix p \<Longrightarrow> Prefix_UnmarshalBinary (Prefix_MarshalBinary p) = Some p"
proof -
  assume "proper_prefix p"
  then consider "p = PrefixZero"
    | "PrefixIsValid p" "\<not> hasZone (PrefixAddr p)" "PrefixBits p \<le> BitLen (PrefixAddr p)"
    by (auto simp: proper_prefix_def)
  then show ?thesis
  proof cases
    case 1
    then show ?thesis
      by (simp add: Prefix_UnmarshalBinary_def Prefix_MarshalBinary_def Addr_UnmarshalBinary_def PrefixFrom_def)
  next
    case 2
    obtain a b where p: "p = Prefix a b" by (cases p)
    have zone: "WithZone a [] = a" using 2(2) p by (cases a) auto
    have b: "0 \<le> b" "b \<le> BitLen a" "BitLen a \<le> 128" "AddrIsValid a" using 2 p by (cases a; simp)+
    then have byte: "uint (word_of_int b :: byte) = b" by (simp add: uint_word_of_int)
    have "proper_addr a" using 2 p zone by (cases a) (auto simp: proper_addr_def)
    then show ?thesis
      using p b zone byte
      by (simp add: Prefix_UnmarshalBinary_def Prefix_MarshalBinary_def Addr_roundtrip PrefixFrom_def)
  qed
qed

lemma unmarshal_marshal:
  "decode data = Some value \<Longrightarrow> length data < 65536 \<Longrightarrow>
     unmarshalElement decode (marshalElement data @ rest) = Inr (value, rest)"
  by (simp add: unmarshalElement_def marshalElement_def be_uint_be_bytes)

lemma length_Prefix_MarshalBinary: "proper_prefix p \<Longrightarrow> length (Prefix_MarshalBinary p) < 65536"
  by (cases "PrefixAddr p") (auto simp: Prefix_MarshalBinary_def str_bytes_def)

text \<open>
  The saved state of the FakeIP allocator survives the cache file: what
  \<^verbatim>\<open>MarshalBinary\<close> writes, \<^verbatim>\<open>UnmarshalBinary\<close> reads back as the same ranges and
  positions, with or without either family.
\<close>

lemma FakeIPMetadata_roundtrip:
  assumes "proper_prefix (Inet4Range m)" "proper_prefix (Inet6Range m)"
    "proper_addr (Inet4Current m)" "proper_addr (Inet6Current m)"
  shows "FakeIPMetadata_UnmarshalBinary (FakeIPMetadata_MarshalBinary m) = Inr m"
proof -
  have prefix: "unmarshalElement Prefix_UnmarshalBinary (marshalElement (Prefix_MarshalBinary p) @ rest) = Inr (p, rest)"
    if "proper_prefix p" for p rest
    using that by (intro unmarshal_marshal Prefix_roundtrip length_Prefix_MarshalBinary)
  have addr: "unmarshalElement Addr_UnmarshalBinary (marshalElement (Addr_MarshalBinary a) @ rest) = Inr (a, rest)"
    if "proper_addr a" for a rest
    using that by (intro unmarshal_marshal Addr_roundtrip) (simp_all add: proper_addr_def)
  show ?thesis
    using assms prefix addr [of _ "[]"] addr
    by (simp add: FakeIPMetadata_UnmarshalBinary_def FakeIPMetadata_MarshalBinary_def)
qed

end
