(* ===== verification/FakeIPRange.thy ===== *)
theory FakeIPRange
  imports Netip
begin

text \<open>
  The allocation order of \<^verbatim>\<open>dns/transport/fakeip/store.go\<close>: \<open>broadcastAddress\<close> and
  \<open>nextAddress\<close>, and that together they walk through a range without leaving it
  and without coming back before every address was used.
\<close>

section \<open>Model\<close>

text \<open>\<^verbatim>\<open>raw[i/8] |= 1 << (7 - i%8)\<close>\<close>

definition setBit :: "nat \<Rightarrow> bytes \<Rightarrow> bytes" where
  "setBit i raw = raw[i div 8 := raw ! (i div 8) OR push_bit (7 - i mod 8) 1]"

definition broadcastAddress :: "Prefix \<Rightarrow> Addr" where
  "broadcastAddress prefix =
     (let addr = PrefixAddr prefix;
          bits = nat (PrefixBits prefix) + (if Is4 addr then 96 else 0);
          raw = fold setBit [bits..<128] (As16 addr)
      in if Is4 addr then AddrFrom4 (drop 12 raw) else AddrFrom16 raw)"

definition nextAddress :: "Prefix \<Rightarrow> Addr \<Rightarrow> Addr \<Rightarrow> Addr" where
  "nextAddress addressRange lastAddress current =
     (let address = AddrNext current in
      if address = lastAddress \<or> \<not> PrefixContains addressRange address
      then AddrNext (AddrNext (PrefixAddr addressRange)) else address)"

section \<open>Bits of big-endian bytes\<close>

lemma bit_shift_add:
  fixes x y :: nat
  assumes "y < 2 ^ k"
  shows "bit (x * 2 ^ k + y) i \<longleftrightarrow> (if i < k then bit y i else bit x (i - k))"
proof (cases "i < k")
  case True
  then have "(2::nat) ^ k = 2 ^ (k - i) * 2 ^ i" by (simp flip: power_add)
  then have "x * 2 ^ k + y = x * 2 ^ (k - i) * 2 ^ i + y" by simp
  then have "(x * 2 ^ k + y) div 2 ^ i = x * 2 ^ (k - i) + y div 2 ^ i"
    by (metis div_mult_self3 power_not_zero zero_neq_numeral)
  moreover have "even (x * 2 ^ (k - i))" using True by simp
  ultimately show ?thesis using True by (simp add: bit_iff_odd)
next
  case False
  then have "2 ^ i = (2::nat) ^ k * 2 ^ (i - k)" by (simp flip: power_add)
  then have "(x * 2 ^ k + y) div 2 ^ i = x div 2 ^ (i - k)"
    using assms by (simp add: div_mult2_eq)
  then show ?thesis using False by (simp add: bit_iff_odd)
qed

lemma bit_be_uint:
  "i < 8 * length bs \<Longrightarrow> bit (be_uint bs) i \<longleftrightarrow> bit (bs ! (length bs - 1 - i div 8)) (i mod 8)"
proof (induction bs arbitrary: i rule: rev_induct)
  case (snoc b bs)
  have split: "bit (be_uint (bs @ [b])) i \<longleftrightarrow> (if i < 8 then bit (unat b) i else bit (be_uint bs) (i - 8))"
    using bit_shift_add [of "unat b" 8 "be_uint bs" i] unat_byte_bound [of b] by simp
  show ?case
  proof (cases "i < 8")
    case True
    then have "bit (unat b) i = bit b i" by (simp add: bit_unsigned_iff)
    then show ?thesis using split True by (simp only: if_True) (simp add: nth_append)
  next
    case False
    have "bit (be_uint bs) (i - 8) \<longleftrightarrow> bit (bs ! (length bs - 1 - (i - 8) div 8)) ((i - 8) mod 8)"
      using snoc.prems False by (intro snoc.IH) auto
    moreover have "(i - 8) div 8 = i div 8 - 1" "(i - 8) mod 8 = i mod 8"
      using False by (simp_all add: le_div_geq le_mod_geq)
    moreover have "0 < i div 8" "i div 8 \<le> length bs" using False snoc.prems by auto
    then have "length bs - 1 - (i div 8 - 1) = length bs - i div 8" "length bs - i div 8 < length bs"
      by auto
    ultimately show ?thesis
      using split False by (simp only: if_False) (simp add: nth_append)
  qed
qed simp

lemma length_setBit [simp]: "length (setBit i raw) = length raw"
  by (simp add: setBit_def)

lemma mirror_pos:
  fixes p q r s :: nat
  assumes "p \<le> 15" "q \<le> 15" "r < 8" "s < 8"
  shows "15 - q = p \<and> s = 7 - r \<longleftrightarrow> 8 * q + s = 127 - (8 * p + r)"
proof
  assume "8 * q + s = 127 - (8 * p + r)"
  moreover have "8 * p + r \<le> 127" using assms by linarith
  ultimately have *: "8 * (p + q) + (r + s) = 127" by presburger
  define t u where "t = p + q" and "u = r + s"
  have "8 * t + u = 127" "u \<le> 14" using * assms by (simp_all add: t_def u_def)
  then have "t = 15" "u = 7" by presburger+
  then show "15 - q = p \<and> s = 7 - r" using assms by (auto simp: t_def u_def)
qed (use assms in linarith)

lemma bit_setBit:
  assumes "length raw = 16" "i < 128" "j < 128"
  shows "bit (be_uint (setBit i raw)) j \<longleftrightarrow> j = 127 - i \<or> bit (be_uint raw) j"
proof -
  have one: "bit (push_bit (7 - i mod 8) (1 :: byte)) (j mod 8) \<longleftrightarrow> j mod 8 = 7 - i mod 8"
    by (auto simp: bit_exp_iff)
  have pos: "15 - j div 8 = i div 8 \<and> j mod 8 = 7 - i mod 8 \<longleftrightarrow> j = 127 - i"
    using mirror_pos [of "i div 8" "j div 8" "i mod 8" "j mod 8"] assms(2,3) by simp
  have idx: "i div 8 < 16" "15 - j div 8 < 16" using assms by auto
  show ?thesis
  proof (cases "15 - j div 8 = i div 8")
    case True
    then have "bit (be_uint (setBit i raw)) j \<longleftrightarrow>
        bit (raw ! (i div 8) OR push_bit (7 - i mod 8) 1) (j mod 8)"
      using assms idx by (simp add: bit_be_uint setBit_def)
    also have "\<dots> \<longleftrightarrow> bit (raw ! (i div 8)) (j mod 8) \<or> j mod 8 = 7 - i mod 8"
      by (simp only: bit_or_iff one)
    finally show ?thesis using True pos assms by (auto simp: bit_be_uint)
  next
    case False
    then have "bit (be_uint (setBit i raw)) j \<longleftrightarrow> bit (be_uint raw) j"
      using assms idx by (simp add: bit_be_uint setBit_def)
    with False pos show ?thesis by auto
  qed
qed

lemma length_fold_setBit [simp]: "length (fold setBit ks raw) = length raw"
  by (induction ks arbitrary: raw) simp_all

lemma bit_fold_setBit:
  assumes "length raw = 16" "\<forall>i \<in> set ks. i < 128" "j < 128"
  shows "bit (be_uint (fold setBit ks raw)) j \<longleftrightarrow> 127 - j \<in> set ks \<or> bit (be_uint raw) j"
  using assms
proof (induction ks arbitrary: raw)
  case (Cons i ks)
  moreover have "j = 127 - i \<longleftrightarrow> 127 - j = i" using Cons.prems by auto
  ultimately show ?case by (auto simp: bit_setBit)
qed simp

text \<open>Setting every bit from position \<open>n\<close> on fills the low \<open>128 - n\<close> bits.\<close>

lemma fill_bits:
  assumes "length raw = 16" "n \<le> 128"
  defines "h \<equiv> 128 - n"
  shows "be_uint (fold setBit [n..<128] raw) = be_uint raw div 2 ^ h * 2 ^ h + (2 ^ h - 1)"
proof -
  define y where "y = be_uint (fold setBit [n..<128] raw)"
  have high: "\<not> bit (be_uint bs) j" if "length bs = 16" "128 \<le> j" for bs j
  proof -
    have "be_uint bs < 2 ^ 128" using be_uint_less [of bs] that(1) by simp
    then have "take_bit 128 (be_uint bs) = be_uint bs" by (rule take_bit_nat_eq_self)
    then have "bit (be_uint bs) j \<longleftrightarrow> bit (take_bit 128 (be_uint bs)) j" by (rule arg_cong2 [OF sym refl])
    with that(2) show ?thesis unfolding bit_take_bit_iff by linarith
  qed
  have bits: "bit y j \<longleftrightarrow> j < h \<or> bit (be_uint raw) j" for j
  proof (cases "j < 128")
    case True
    then have "127 - j \<in> set [n..<128] \<longleftrightarrow> j < h" using assms(2) by (simp add: h_def) linarith
    then show ?thesis
      using True bit_fold_setBit [OF assms(1), of "[n..<128]" j] by (simp add: y_def)
  next
    case False
    then show ?thesis using high [of _ j] assms(1) by (simp add: y_def h_def)
  qed
  have "drop_bit h y = drop_bit h (be_uint raw)"
    by (rule bit_eqI) (simp add: bit_drop_bit_eq bits)
  then have "y div 2 ^ h = be_uint raw div 2 ^ h" by (simp add: drop_bit_eq_div)
  moreover have "take_bit h y = mask h"
    by (rule bit_eqI) (auto simp: bit_take_bit_iff bit_mask_iff bits)
  then have "y mod 2 ^ h = 2 ^ h - 1" by (simp add: take_bit_eq_mod mask_eq_exp_minus_1)
  ultimately show ?thesis by (metis div_mult_mod_eq y_def)
qed

section \<open>Ranges as intervals\<close>

text \<open>A prefix as the options give it: valid, without zone, its bits in bounds.\<close>

definition wf_range :: "Prefix \<Rightarrow> bool" where
  "wf_range p \<longleftrightarrow> PrefixIsValid p \<and> \<not> hasZone (PrefixAddr p) \<and> PrefixBits p \<le> BitLen (PrefixAddr p)"

definition hostBits :: "Prefix \<Rightarrow> nat" where
  "hostBits p = nat (BitLen (PrefixAddr p) - PrefixBits p)"

text \<open>Two addresses of one family, without zones.\<close>

definition sibling :: "Addr \<Rightarrow> Addr \<Rightarrow> bool" where
  "sibling a b \<longleftrightarrow> AddrIsValid a \<and> AddrIsValid b \<and> Is4 a = Is4 b \<and> \<not> hasZone a \<and> \<not> hasZone b"

lemma sibling_eq: "sibling a b \<Longrightarrow> a = b \<longleftrightarrow> addr_bits a = addr_bits b"
  by (cases a; cases b) (auto simp: sibling_def dest: unsigned_word_eqI)

lemma sibling_sym: "sibling a b \<Longrightarrow> sibling b a"
  by (auto simp: sibling_def)

lemma sibling_trans: "sibling a b \<Longrightarrow> sibling b c \<Longrightarrow> sibling a c"
  by (auto simp: sibling_def)

lemma fill_div: "(x div 2 ^ h * 2 ^ h + (2 ^ h - 1)) div 2 ^ h = (x :: nat) div 2 ^ h"
proof -
  have "(x div 2 ^ h * 2 ^ h + m) div 2 ^ h = x div 2 ^ h" if "m < 2 ^ h" for m
    using that by simp
  from this [of "2 ^ h - 1"] show ?thesis by fastforce
qed

lemma div_pow_mono:
  assumes "(x :: nat) div 2 ^ h = y div 2 ^ h" "h \<le> k"
  shows "x div 2 ^ k = y div 2 ^ k"
proof -
  have "(2::nat) ^ k = 2 ^ h * 2 ^ (k - h)" using assms(2) by (simp flip: power_add)
  then show ?thesis using assms(1) by (simp add: div_mult2_eq)
qed

lemma broadcast_bits:
  assumes "wf_range p"
  defines "h \<equiv> hostBits p"
  shows "addr_bits (broadcastAddress p) =
      addr_bits (PrefixAddr p) div 2 ^ h * 2 ^ h + (2 ^ h - 1) \<and> sibling (PrefixAddr p) (broadcastAddress p)"
proof (cases "PrefixAddr p")
  case (Addr4 v)
  define n where "n = nat (PrefixBits p) + 96"
  define raw where "raw = fold setBit [n..<128] (As16 (Addr4 v))"
  have p: "0 \<le> PrefixBits p" "PrefixBits p \<le> 32" using assms(1) Addr4 by (cases p; simp add: wf_range_def)+
  then have h: "h = 128 - n" "h \<le> 32" "n \<le> 128" by (auto simp: h_def hostBits_def n_def Addr4)
  have raw: "be_uint raw = addr_bits (Addr4 v) div 2 ^ h * 2 ^ h + (2 ^ h - 1)" "length raw = 16"
    using fill_bits [of "As16 (Addr4 v)" n] h by (simp_all add: raw_def)
  then have "be_uint raw div 2 ^ h = addr_bits (Addr4 v) div 2 ^ h" by (simp only: fill_div)
  then have "be_uint raw div 2 ^ 32 = addr_bits (Addr4 v) div 2 ^ 32" using h(2) by (rule div_pow_mono)
  then have top: "be_uint raw div 2 ^ 32 = 0xffff" using unat_u32_less [of v] by simp
  have "be_uint raw = be_uint (take 12 raw @ drop 12 raw)" by simp
  also have "\<dots> = be_uint (take 12 raw) * 2 ^ 32 + be_uint (drop 12 raw)"
    using raw(2) by (subst be_uint_append) simp
  finally have "be_uint (drop 12 raw) = be_uint raw mod 2 ^ 32"
    using be_uint_less [of "drop 12 raw"] raw(2) by simp
  moreover have "be_uint raw = 0xffff * 2 ^ 32 + be_uint raw mod 2 ^ 32"
    using top div_mult_mod_eq [of "be_uint raw" "2 ^ 32"] by simp
  ultimately have "addr_bits (AddrFrom4 (drop 12 raw)) = be_uint raw"
    by (simp add: AddrFrom4_def unat_of_nat)
  then show ?thesis
    using raw Addr4 by (simp add: broadcastAddress_def n_def raw_def Let_def sibling_def AddrFrom4_def)
next
  case (Addr6 v z)
  define n where "n = nat (PrefixBits p)"
  define raw where "raw = fold setBit [n..<128] (As16 (Addr6 v z))"
  have p: "0 \<le> PrefixBits p" "PrefixBits p \<le> 128" "z = []"
    using assms(1) Addr6 by (cases p; simp add: wf_range_def)+
  then have h: "h = 128 - n" "n \<le> 128" by (auto simp: h_def hostBits_def n_def Addr6)
  have raw: "be_uint raw = addr_bits (Addr6 v z) div 2 ^ h * 2 ^ h + (2 ^ h - 1)" "length raw = 16"
    using fill_bits [of "As16 (Addr6 v z)" n] h by (simp_all add: raw_def)
  moreover have "addr_bits (AddrFrom16 raw) = be_uint raw"
    using be_uint_less [of raw] raw(2) by (simp add: AddrFrom16_def unat_of_nat)
  ultimately show ?thesis
    using Addr6 p by (simp add: broadcastAddress_def n_def raw_def Let_def sibling_def AddrFrom16_def)
qed (use assms in \<open>cases p; simp add: wf_range_def\<close>)

lemma drop_xor_eq:
  fixes u v :: "'w::len word"
  assumes "h \<le> LENGTH('w)"
  shows "drop_bit h (u XOR v) = 0 \<longleftrightarrow> unat u div 2 ^ h = unat v div 2 ^ h"
proof -
  have "drop_bit h (u XOR v) = 0 \<longleftrightarrow> drop_bit h u = drop_bit h v"
    by (auto simp: bit_eq_iff bit_xor_iff bit_drop_bit_eq)
  also have "\<dots> \<longleftrightarrow> unat (drop_bit h u) = unat (drop_bit h v)"
    by (auto dest: unsigned_word_eqI)
  finally show ?thesis unfolding unat_drop_bit_eq by (simp add: drop_bit_eq_div [of h "unat _"])
qed

lemma Contains_bits:
  assumes "wf_range p"
  shows "PrefixContains p x \<longleftrightarrow> sibling (PrefixAddr p) x \<and>
    addr_bits x div 2 ^ hostBits p = addr_bits (PrefixAddr p) div 2 ^ hostBits p"
proof -
  obtain a b where p: "p = Prefix a b" by (cases p)
  have b: "AddrIsValid a" "0 \<le> b" "b \<le> BitLen a" "\<not> hasZone a"
    using assms p by (auto simp: wf_range_def)
  show ?thesis
  proof (cases a)
    case (Addr4 u)
    define h where "h = nat (32 - b)"
    have h: "h \<le> 32" "hostBits p = h" using b Addr4 p by (auto simp: h_def hostBits_def)
    have "(0xffff * 2 ^ 32 + m) div 2 ^ h = 0xffff * 2 ^ (32 - h) + m div 2 ^ h" for m :: nat
    proof -
      have "(0xffff::nat) * 2 ^ 32 = 0xffff * 2 ^ (32 - h) * 2 ^ h"
        using h(1) by (simp flip: power_add)
      then show ?thesis by (metis div_mult_self3 power_not_zero zero_neq_numeral)
    qed
    then have "addr_bits x div 2 ^ h = addr_bits a div 2 ^ h \<longleftrightarrow> unat v div 2 ^ h = unat u div 2 ^ h"
      if "x = Addr4 v" for v
      using that Addr4 by simp
    then show ?thesis
      using b Addr4 p h drop_xor_eq [of h _ u]
      by (cases x) (auto simp: PrefixContains_def sibling_def h_def)
  next
    case (Addr6 u z)
    define h where "h = nat (128 - b)"
    have h: "h \<le> 128" "hostBits p = h" using b Addr6 p by (auto simp: h_def hostBits_def)
    then show ?thesis
      using b Addr6 p drop_xor_eq [of h _ u]
      by (cases x) (auto simp: PrefixContains_def sibling_def h_def)
  qed (use b in simp)
qed

lemma Next_bits:
  "sibling a b \<Longrightarrow> addr_bits a < addr_bits b \<Longrightarrow>
     addr_bits (AddrNext a) = Suc (addr_bits a) \<and> sibling a (AddrNext a)"
proof -
  have next_word: "unat (v + 1) = Suc (unat v) \<and> v + 1 \<noteq> 0" if "unat v < unat w" for v w :: "'w::len word"
  proof -
    have "unat (v + 1) = Suc (unat v) mod 2 ^ LENGTH('w)" by (simp add: unat_word_ariths)
    then have "unat (v + 1) = Suc (unat v)"
      using that unsigned_less [of w, where ?'a = nat] by simp
    then show ?thesis by auto
  qed
  assume "sibling a b" "addr_bits a < addr_bits b"
  then show ?thesis
    by (cases a; cases b) (auto simp: sibling_def dest: next_word)
qed

section \<open>Walking through a range\<close>

text \<open>
  A roomy range has at least one address between the second one after its
  base and the last one. Its pool are the addresses from the second after
  the base up to, but without, the last.
\<close>

definition roomy :: "Prefix \<Rightarrow> bool" where
  "roomy p \<longleftrightarrow> wf_range p \<and> addr_bits (PrefixAddr p) + 2 < addr_bits (broadcastAddress p)"

definition capacity :: "Prefix \<Rightarrow> nat" where
  "capacity p = addr_bits (broadcastAddress p) - addr_bits (PrefixAddr p) - 2"

text \<open>The \<open>k\<close>-th position of the allocator: 0 is the start, just before the pool.\<close>

definition at_offset :: "Prefix \<Rightarrow> nat \<Rightarrow> Addr \<Rightarrow> bool" where
  "at_offset p k a \<longleftrightarrow> sibling (PrefixAddr p) a \<and> addr_bits a = addr_bits (PrefixAddr p) + 1 + k"

lemma at_offset_unique: "at_offset p k a \<Longrightarrow> at_offset p k b \<Longrightarrow> a = b"
  using sibling_eq sibling_sym sibling_trans unfolding at_offset_def by metis

lemma at_offset_inj: "at_offset p k a \<Longrightarrow> at_offset p l a \<Longrightarrow> k = l"
  by (simp add: at_offset_def)

lemma broadcast_div:
  assumes "wf_range p"
  shows "addr_bits (broadcastAddress p) div 2 ^ hostBits p = addr_bits (PrefixAddr p) div 2 ^ hostBits p"
  using broadcast_bits [OF assms] fill_div by simp

lemma Contains_between:
  assumes "wf_range p" "sibling (PrefixAddr p) x"
    "addr_bits (PrefixAddr p) \<le> addr_bits x" "addr_bits x \<le> addr_bits (broadcastAddress p)"
  shows "PrefixContains p x"
proof -
  have "addr_bits (PrefixAddr p) div 2 ^ hostBits p \<le> addr_bits x div 2 ^ hostBits p"
    "addr_bits x div 2 ^ hostBits p \<le> addr_bits (broadcastAddress p) div 2 ^ hostBits p"
    using assms(3,4) by (simp_all add: div_le_mono)
  then show ?thesis using assms broadcast_div Contains_bits by simp
qed

lemma capacity_pos: "roomy p \<Longrightarrow> 0 < capacity p"
  by (simp add: roomy_def capacity_def)

lemma start_offset:
  assumes "roomy p"
  shows "at_offset p 0 (AddrNext (PrefixAddr p))" "at_offset p 1 (AddrNext (AddrNext (PrefixAddr p)))"
proof -
  let ?a = "PrefixAddr p" and ?l = "broadcastAddress p"
  have sib: "sibling ?a ?l" "addr_bits ?a + 2 < addr_bits ?l"
    using assms broadcast_bits by (auto simp: roomy_def)
  have 1: "addr_bits (AddrNext ?a) = Suc (addr_bits ?a)" "sibling ?a (AddrNext ?a)"
    using Next_bits [OF sib(1)] sib(2) by simp_all
  have sib2: "sibling (AddrNext ?a) ?l" using 1(2) sib(1) by (meson sibling_sym sibling_trans)
  have 2: "addr_bits (AddrNext (AddrNext ?a)) = Suc (Suc (addr_bits ?a))" "sibling (AddrNext ?a) (AddrNext (AddrNext ?a))"
    using Next_bits [OF sib2] 1 sib(2) by simp_all
  show "at_offset p 0 (AddrNext ?a)" "at_offset p 1 (AddrNext (AddrNext ?a))"
    using 1 2 sibling_trans by (auto simp: at_offset_def)
qed

text \<open>One step: the next address of the pool, and from its end back to its beginning.\<close>

lemma next_offset:
  assumes "roomy p" "at_offset p k a" "k \<le> capacity p"
  shows "at_offset p (if k = capacity p then 1 else Suc k) (nextAddress p (broadcastAddress p) a)"
proof -
  let ?l = "broadcastAddress p"
  have wf: "wf_range p" and l: "sibling (PrefixAddr p) ?l" "addr_bits (PrefixAddr p) + 2 < addr_bits ?l"
    using assms(1) broadcast_bits by (auto simp: roomy_def)
  have a: "sibling (PrefixAddr p) a" "addr_bits a = addr_bits (PrefixAddr p) + 1 + k"
    using assms(2) by (auto simp: at_offset_def)
  have al: "sibling a ?l" using a(1) l(1) by (meson sibling_sym sibling_trans)
  have lt: "addr_bits a < addr_bits ?l" using a(2) assms(3) l(2) by (simp add: capacity_def)
  have n: "addr_bits (AddrNext a) = Suc (addr_bits a)" "sibling a (AddrNext a)"
    using Next_bits [OF al lt] by simp_all
  have np: "sibling (PrefixAddr p) (AddrNext a)" using a(1) n(2) sibling_trans by blast
  have "PrefixContains p (AddrNext a)"
    using Contains_between [OF wf np] n(1) a(2) lt by simp
  moreover have "AddrNext a = ?l \<longleftrightarrow> addr_bits (AddrNext a) = addr_bits ?l"
    by (rule sibling_eq [OF sibling_trans [OF sibling_sym [OF np] l(1)]])
  then have "AddrNext a = ?l \<longleftrightarrow> k = capacity p"
    using n(1) a(2) l(2) by (auto simp: capacity_def)
  moreover have "at_offset p (Suc k) (AddrNext a)" using n a np by (simp add: at_offset_def)
  ultimately show ?thesis
    using start_offset(2) [OF assms(1)] by (simp add: nextAddress_def Let_def)
qed

lemma offset_Contains:
  assumes "roomy p" "at_offset p k a" "k \<le> capacity p"
  shows "PrefixContains p a \<and> a \<noteq> broadcastAddress p"
  using assms Contains_between [of p a] by (auto simp: roomy_def at_offset_def capacity_def)

text \<open>The address after \<open>n\<close> steps from the start.\<close>

definition walk :: "Prefix \<Rightarrow> nat \<Rightarrow> Addr" where
  "walk p n = (nextAddress p (broadcastAddress p) ^^ n) (AddrNext (PrefixAddr p))"

definition walk_offset :: "Prefix \<Rightarrow> nat \<Rightarrow> nat" where
  "walk_offset p n = (if n = 0 then 0 else Suc ((n - 1) mod capacity p))"

lemma walk_offset_le: "roomy p \<Longrightarrow> walk_offset p n \<le> capacity p"
  using mod_less_divisor [OF capacity_pos, of p "n - 1"] by (simp add: walk_offset_def Suc_leI)

lemma walk_offset_Suc:
  assumes "roomy p"
  shows "walk_offset p (Suc n) = (if walk_offset p n = capacity p then 1 else Suc (walk_offset p n))"
proof (cases n)
  case 0
  then show ?thesis using capacity_pos [OF assms] by (simp add: walk_offset_def)
next
  case (Suc m)
  then show ?thesis by (simp add: walk_offset_def mod_Suc)
qed

lemma walk_at: "roomy p \<Longrightarrow> at_offset p (walk_offset p n) (walk p n)"
proof (induction n)
  case 0
  then show ?case by (simp add: walk_def walk_offset_def start_offset)
next
  case (Suc n)
  then have "at_offset p (walk_offset p (Suc n)) (nextAddress p (broadcastAddress p) (walk p n))"
    using next_offset [OF Suc.prems Suc.IH [OF Suc.prems] walk_offset_le] by (simp add: walk_offset_Suc)
  then show ?case by (simp add: walk_def)
qed

lemma walk_distinct:
  assumes "roomy p" "0 < m" "m < n" "n < m + capacity p"
  shows "walk p m \<noteq> walk p n"
proof
  assume "walk p m = walk p n"
  then have "walk_offset p m = walk_offset p n"
    using walk_at [OF assms(1)] at_offset_inj by metis
  then have "(m - 1) mod capacity p = (n - 1) mod capacity p" using assms by (simp add: walk_offset_def)
  moreover have "n - 1 = m - 1 + (n - m)" "0 < n - m" "n - m < capacity p" using assms by auto
  ultimately show False
    by (metis add.commute mod_eq_dvd_iff_nat diff_add_inverse le_add1 nat_dvd_not_less)
qed

text \<open>
  C23. The FakeIP allocator never leaves its range and never reuses an address
  early. In a range with room, every address it hands out lies in the range,
  is neither its base nor its last address, and differs from all addresses
  handed out in the \<open>capacity - 1\<close> steps before it, where the capacity is the
  number of addresses from the second after the base to the last but one.
\<close>

theorem allocator_walk:
  assumes "roomy p" "0 < n"
  shows "PrefixContains p (walk p n) \<and> walk p n \<noteq> PrefixAddr p \<and> walk p n \<noteq> broadcastAddress p \<and>
    (\<forall>m. 0 < m \<and> m < n \<and> n < m + capacity p \<longrightarrow> walk p m \<noteq> walk p n)"
proof -
  have at: "at_offset p (walk_offset p n) (walk p n)" using walk_at [OF assms(1)] .
  then have "walk p n \<noteq> PrefixAddr p" by (auto simp: at_offset_def)
  then show ?thesis
    using offset_Contains [OF assms(1) at walk_offset_le [OF assms(1)]] walk_distinct [OF assms(1)] by blast
qed

theorem allocator_walk_witness:
  "PrefixContains (Prefix (Addr4 0xc6120000) 29) (walk (Prefix (Addr4 0xc6120000) 29) 3) \<and>
   capacity (Prefix (Addr4 0xc6120000) 29) = 5"
proof -
  have h: "addr_bits (broadcastAddress (Prefix (Addr4 0xc6120000) 29)) = 0xffff * 2 ^ 32 + 0xc6120007"
    using broadcast_bits [of "Prefix (Addr4 0xc6120000) 29"] by (simp add: wf_range_def hostBits_def)
  then have "roomy (Prefix (Addr4 0xc6120000) 29)" by (simp add: roomy_def wf_range_def)
  with h show ?thesis using allocator_walk [of "Prefix (Addr4 0xc6120000) 29" 3] by (simp add: capacity_def)
qed

end
