(* ===== verification/FakeIPStore.thy ===== *)
theory FakeIPStore
  imports FakeIPMetadata FakeIPRange
begin

text \<open>
  The FakeIP store of \<^verbatim>\<open>dns/transport/fakeip\<close>: it gives every domain an address
  of a reserved range and finds the domain again. The store works on any
  \<^verbatim>\<open>adapter.FakeIPStorage\<close>, an interface taken here as a record of its methods;
  \<open>memoryStorage\<close> is the implementation of \<^verbatim>\<open>memory.go\<close>.
\<close>

section \<open>Storage\<close>

text \<open>
  The methods of \<^verbatim>\<open>adapter.FakeIPStorage\<close>, on a state of any type. Methods that
  may fail return whether they succeeded; reading the metadata may repair a
  damaged storage; saving asynchronously is optional.
\<close>

record 's FakeIPStorage =
  stMetadata :: "'s \<Rightarrow> FakeIPMetadata option \<times> 's"
  stSaveMetadata :: "'s \<Rightarrow> FakeIPMetadata \<Rightarrow> bool \<times> 's"
  stSaveMetadataAsync :: "('s \<Rightarrow> FakeIPMetadata \<Rightarrow> 's) option"
  stStoreAsync :: "'s \<Rightarrow> Addr \<Rightarrow> string \<Rightarrow> 's"
  stLoad :: "'s \<Rightarrow> Addr \<Rightarrow> string option"
  stLoadDomain :: "'s \<Rightarrow> string \<Rightarrow> bool \<Rightarrow> Addr option"
  stReset :: "'s \<Rightarrow> bool \<times> 's"

record MemoryStorage =
  addressCache :: "Addr \<Rightarrow> string option"
  domainCache4 :: "string \<Rightarrow> Addr option"
  domainCache6 :: "string \<Rightarrow> Addr option"

definition NewMemoryStorage :: MemoryStorage where
  "NewMemoryStorage =
     \<lparr>addressCache = Map.empty, domainCache4 = Map.empty, domainCache6 = Map.empty\<rparr>"

definition MemoryStorage_FakeIPStore :: "MemoryStorage \<Rightarrow> Addr \<Rightarrow> string \<Rightarrow> MemoryStorage" where
  "MemoryStorage_FakeIPStore s address domain =
     (let s1 = (case addressCache s address of
                  None \<Rightarrow> s
                | Some oldDomain \<Rightarrow>
                    if Is4 address then s\<lparr>domainCache4 := (domainCache4 s)(oldDomain := None)\<rparr>
                    else s\<lparr>domainCache6 := (domainCache6 s)(oldDomain := None)\<rparr>);
          s2 = s1\<lparr>addressCache := (addressCache s1)(address \<mapsto> domain)\<rparr>
      in if Is4 address then s2\<lparr>domainCache4 := (domainCache4 s2)(domain \<mapsto> address)\<rparr>
         else s2\<lparr>domainCache6 := (domainCache6 s2)(domain \<mapsto> address)\<rparr>)"

definition MemoryStorage_FakeIPLoadDomain :: "MemoryStorage \<Rightarrow> string \<Rightarrow> bool \<Rightarrow> Addr option" where
  "MemoryStorage_FakeIPLoadDomain s domain isIPv6 =
     (if \<not> isIPv6 then domainCache4 s domain else domainCache6 s domain)"

definition memoryStorage :: "MemoryStorage FakeIPStorage" where
  "memoryStorage =
     \<lparr>stMetadata = (\<lambda>s. (None, s)), stSaveMetadata = (\<lambda>s _. (True, s)), stSaveMetadataAsync = None,
      stStoreAsync = MemoryStorage_FakeIPStore, stLoad = addressCache,
      stLoadDomain = MemoryStorage_FakeIPLoadDomain, stReset = (\<lambda>_. (True, NewMemoryStorage))\<rparr>"

section \<open>Store\<close>

record 's Store =
  inet4Range :: Prefix
  inet6Range :: Prefix
  inet4Last :: Addr
  inet6Last :: Addr
  inet4Current :: Addr
  inet6Current :: Addr
  reservedCount :: nat
  storage :: "'s option"

abbreviation reservedAddressCount :: nat where
  "reservedAddressCount \<equiv> 1024"

definition NewStore :: "Prefix \<Rightarrow> Prefix \<Rightarrow> 's Store" where
  "NewStore range4 range6 =
     \<lparr>inet4Range = range4, inet6Range = range6,
      inet4Last = (if PrefixIsValid range4 then broadcastAddress range4 else AddrZero),
      inet6Last = (if PrefixIsValid range6 then broadcastAddress range6 else AddrZero),
      inet4Current = AddrZero, inet6Current = AddrZero, reservedCount = 0, storage = None\<rparr>"

text \<open>
  \<^verbatim>\<open>Store.Start\<close> with the storage it chose, the cache file or memory: go on where
  the saved metadata of the same ranges left off, or start afresh. A failed
  reset is only logged.
\<close>

definition freshStart :: "'s FakeIPStorage \<Rightarrow> 's Store \<Rightarrow> 's \<Rightarrow> 's Store" where
  "freshStart I s st =
     s\<lparr>inet4Current := (if PrefixIsValid (inet4Range s) then AddrNext (PrefixAddr (inet4Range s)) else inet4Current s),
       inet6Current := (if PrefixIsValid (inet6Range s) then AddrNext (PrefixAddr (inet6Range s)) else inet6Current s),
       storage := Some (snd (stReset I st))\<rparr>"

definition Store_Start :: "'s FakeIPStorage \<Rightarrow> 's Store \<Rightarrow> 's \<Rightarrow> 's Store" where
  "Store_Start I s st =
     (case stMetadata I st of
        (Some m, st') \<Rightarrow>
          if Inet4Range m = inet4Range s \<and> Inet6Range m = inet6Range s
          then s\<lparr>inet4Current := Inet4Current m, inet6Current := Inet6Current m, storage := Some st'\<rparr>
          else freshStart I s st'
      | (None, st') \<Rightarrow> freshStart I s st')"

definition Store_Contains :: "'s Store \<Rightarrow> Addr \<Rightarrow> bool" where
  "Store_Contains s address \<longleftrightarrow> PrefixContains (inet4Range s) address \<or> PrefixContains (inet6Range s) address"

definition rangeFor :: "'s Store \<Rightarrow> bool \<Rightarrow> Prefix" where
  "rangeFor s isIPv6 = (if isIPv6 then inet6Range s else inet4Range s)"

definition loadDomain :: "'s FakeIPStorage \<Rightarrow> 's Store \<Rightarrow> 's \<Rightarrow> string \<Rightarrow> bool \<Rightarrow> Addr option" where
  "loadDomain I s st domain isIPv6 =
     (case stLoadDomain I st domain isIPv6 of
        Some address \<Rightarrow> if PrefixContains (rangeFor s isIPv6) address then Some address else None
      | None \<Rightarrow> None)"

definition storeMetadata :: "'s Store \<Rightarrow> FakeIPMetadata" where
  "storeMetadata s = \<lparr>Inet4Range = inet4Range s, Inet6Range = inet6Range s,
     Inet4Current = inet4Current s, Inet6Current = inet6Current s\<rparr>"

definition Store_Close :: "'s FakeIPStorage \<Rightarrow> 's Store \<Rightarrow> bool \<times> 's Store" where
  "Store_Close I s =
     (case storage s of
        None \<Rightarrow> (True, s)
      | Some st \<Rightarrow> let (ok, st') = stSaveMetadata I st (storeMetadata s) in (ok, s\<lparr>storage := Some st'\<rparr>))"

text \<open>One turn of the loop that reserves addresses ahead of their use.\<close>

definition reserveStep :: "'s Store \<Rightarrow> FakeIPMetadata \<Rightarrow> FakeIPMetadata" where
  "reserveStep s m =
     m\<lparr>Inet4Current := (if AddrIsValid (Inet4Current m)
                         then nextAddress (inet4Range s) (inet4Last s) (Inet4Current m) else Inet4Current m),
       Inet6Current := (if AddrIsValid (Inet6Current m)
                         then nextAddress (inet6Range s) (inet6Last s) (Inet6Current m) else Inet6Current m)\<rparr>"

datatype fakeip_error = MissingIPv4Range | MissingIPv6Range | SaveMetadataError

definition reserve :: "'s FakeIPStorage \<Rightarrow> 's Store \<Rightarrow> 's \<Rightarrow> bool \<times> 's Store \<times> 's" where
  "reserve I s st =
     (if reservedCount s = 0 then
        (let (ok, st') = stSaveMetadata I st ((reserveStep s ^^ reservedAddressCount) (storeMetadata s)) in
         if ok then (True, s\<lparr>reservedCount := reservedAddressCount\<rparr>, st') else (False, s, st'))
      else (True, s, st))"

definition advance :: "'s Store \<Rightarrow> bool \<Rightarrow> Addr \<times> 's Store" where
  "advance s isIPv6 =
     (if \<not> isIPv6 then
        (let a = nextAddress (inet4Range s) (inet4Last s) (inet4Current s) in (a, s\<lparr>inet4Current := a\<rparr>))
      else
        (let a = nextAddress (inet6Range s) (inet6Last s) (inet6Current s) in (a, s\<lparr>inet6Current := a\<rparr>)))"

definition saveCurrent :: "'s FakeIPStorage \<Rightarrow> 's Store \<Rightarrow> 's \<Rightarrow> bool \<times> 's" where
  "saveCurrent I s st =
     (case stSaveMetadataAsync I of
        Some saveAsync \<Rightarrow> (True, saveAsync st (storeMetadata s))
      | None \<Rightarrow> stSaveMetadata I st (storeMetadata s))"

text \<open>
  \<^verbatim>\<open>Store.Create\<close>: the address of a domain, allocated where it has none. A store
  that was not started has no storage, and the call panics: \<open>None\<close>.
\<close>

definition Store_Create ::
  "'s FakeIPStorage \<Rightarrow> 's Store \<Rightarrow> string \<Rightarrow> bool \<Rightarrow> ((fakeip_error + Addr) \<times> 's Store) option" where
  "Store_Create I s domain isIPv6 =
     (case storage s of
        None \<Rightarrow> None
      | Some st \<Rightarrow>
          (case loadDomain I s st domain isIPv6 of
             Some address \<Rightarrow> Some (Inr address, s)
           | None \<Rightarrow>
               if \<not> isIPv6 \<and> \<not> AddrIsValid (inet4Current s) then Some (Inl MissingIPv4Range, s)
               else if isIPv6 \<and> \<not> AddrIsValid (inet6Current s) then Some (Inl MissingIPv6Range, s)
               else
                 (case reserve I s st of
                    (False, s1, st1) \<Rightarrow> Some (Inl SaveMetadataError, s1\<lparr>storage := Some st1\<rparr>)
                  | (True, s1, st1) \<Rightarrow>
                      let (address, s2) = advance (s1\<lparr>reservedCount := reservedCount s1 - 1\<rparr>) isIPv6;
                          st2 = stStoreAsync I st1 address domain;
                          (ok, st3) = saveCurrent I s2 st2
                      in Some (if ok then Inr address else Inl SaveMetadataError,
                               s2\<lparr>storage := Some st3\<rparr>))))"

definition Store_Lookup :: "'s FakeIPStorage \<Rightarrow> 's Store \<Rightarrow> Addr \<Rightarrow> string option option" where
  "Store_Lookup I s address = map_option (\<lambda>st. stLoad I st address) (storage s)"

definition Store_Reset :: "'s FakeIPStorage \<Rightarrow> 's Store \<Rightarrow> (bool \<times> 's Store) option" where
  "Store_Reset I s =
     map_option (\<lambda>st. let (ok, st') = stReset I st in (ok, s\<lparr>storage := Some st'\<rparr>)) (storage s)"

text \<open>A sequence of calls of \<^verbatim>\<open>Create\<close>: the addresses, if every call succeeds.\<close>

fun Store_Creates ::
  "'s FakeIPStorage \<Rightarrow> 's Store \<Rightarrow> (string \<times> bool) list \<Rightarrow> (Addr list \<times> 's Store) option" where
  "Store_Creates I s [] = Some ([], s)"
| "Store_Creates I s ((domain, isIPv6) # rest) =
     (case Store_Create I s domain isIPv6 of
        Some (Inr address, s') \<Rightarrow> map_option (apfst ((#) address)) (Store_Creates I s' rest)
      | _ \<Rightarrow> None)"

definition curFor :: "'s Store \<Rightarrow> bool \<Rightarrow> Addr" where
  "curFor s isIPv6 = (if isIPv6 then inet6Current s else inet4Current s)"

definition lastFor :: "'s Store \<Rightarrow> bool \<Rightarrow> Addr" where
  "lastFor s isIPv6 = (if isIPv6 then inet6Last s else inet4Last s)"

text \<open>
  \<open>allocated I s st v6 n\<close>: the store has handed out the first \<open>n\<close> addresses of a
  family, each to one domain, and none of the others.
\<close>

definition allocated :: "'s FakeIPStorage \<Rightarrow> 's Store \<Rightarrow> 's \<Rightarrow> bool \<Rightarrow> nat \<Rightarrow> bool" where
  "allocated I s st v6 n \<longleftrightarrow>
     (let p = rangeFor s v6 in
      roomy p \<and> Is4 (PrefixAddr p) = (\<not> v6) \<and> lastFor s v6 = broadcastAddress p \<and>
      curFor s v6 = walk p n \<and> n \<le> capacity p \<and>
      (\<forall>k. 0 < k \<and> k \<le> n \<longrightarrow> (\<exists>d. stLoadDomain I st d v6 = Some (walk p k))) \<and>
      (\<forall>d a. stLoadDomain I st d v6 = Some a \<longrightarrow> (\<exists>k. 0 < k \<and> k \<le> n \<and> a = walk p k)) \<and>
      (\<forall>k. n < k \<and> k \<le> capacity p \<longrightarrow> stLoad I st (walk p k) = None))"

definition known :: "'s FakeIPStorage \<Rightarrow> 's \<Rightarrow> bool \<Rightarrow> string set" where
  "known I st v6 = {d. stLoadDomain I st d v6 \<noteq> None}"

section \<open>What a storage promises\<close>

text \<open>
  The contract of \<^verbatim>\<open>adapter.FakeIPStorage\<close> that the store relies on, for the
  domains \<open>ok\<close> and the addresses \<open>oka\<close> a storage takes. A domain that loads has an address of its family
  that loads the domain again; storing a pair for a domain without an address
  sets both directions and drops the domain that had the address before;
  saving metadata touches no pair and succeeds.
\<close>

definition plainMetadata :: "FakeIPMetadata \<Rightarrow> bool" where
  "plainMetadata m \<longleftrightarrow> \<not> hasZone (PrefixAddr (Inet4Range m)) \<and> \<not> hasZone (PrefixAddr (Inet6Range m)) \<and>
     \<not> hasZone (Inet4Current m) \<and> \<not> hasZone (Inet6Current m)"

lemma nextAddress_no_zone:
  "\<not> hasZone (PrefixAddr p) \<Longrightarrow> \<not> hasZone a \<Longrightarrow> \<not> hasZone (nextAddress p l a)"
  by (cases a; cases "PrefixAddr p") (auto simp: nextAddress_def Let_def)

lemma plain_reserve:
  assumes "plainMetadata (storeMetadata s)"
  shows "plainMetadata ((reserveStep s ^^ n) (storeMetadata s))"
proof -
  have "plainMetadata ((reserveStep s ^^ n) (storeMetadata s)) \<and>
    Inet4Range ((reserveStep s ^^ n) (storeMetadata s)) = inet4Range s \<and>
    Inet6Range ((reserveStep s ^^ n) (storeMetadata s)) = inet6Range s"
    using assms by (induction n)
      (auto simp: plainMetadata_def reserveStep_def storeMetadata_def nextAddress_no_zone)
  then show ?thesis by blast
qed

lemma plain_advance:
  "plainMetadata (storeMetadata s) \<Longrightarrow> plainMetadata (storeMetadata (snd (advance s v6)))"
  by (auto simp: plainMetadata_def storeMetadata_def advance_def Let_def nextAddress_no_zone)

locale fakeip_storage =
  fixes I :: "'s FakeIPStorage" and inv :: "'s \<Rightarrow> bool" and ok :: "string \<Rightarrow> bool" and oka :: "Addr \<Rightarrow> bool"
  assumes load_domain: "inv st \<Longrightarrow> stLoadDomain I st d v6 = Some a \<Longrightarrow> stLoad I st a = Some d \<and> Is4 a = (\<not> v6)"
    and store_inv: "inv st \<Longrightarrow> oka a \<Longrightarrow> ok d \<Longrightarrow>
      stLoadDomain I st d (\<not> Is4 a) = None \<Longrightarrow> inv (stStoreAsync I st a d)"
    and load_store: "inv st \<Longrightarrow> oka a \<Longrightarrow> ok d \<Longrightarrow>
      stLoadDomain I st d (\<not> Is4 a) = None \<Longrightarrow>
      oka b \<Longrightarrow> stLoad I (stStoreAsync I st a d) b = (if b = a then Some d else stLoad I st b)"
    and load_domain_store: "inv st \<Longrightarrow> oka a \<Longrightarrow> ok d \<Longrightarrow>
      stLoadDomain I st d (\<not> Is4 a) = None \<Longrightarrow>
      stLoadDomain I (stStoreAsync I st a d) d' v6 =
        (if v6 = (\<not> Is4 a) then
           if d' = d then Some a else if stLoad I st a = Some d' then None else stLoadDomain I st d' v6
         else stLoadDomain I st d' v6)"
    and save_ok: "inv st \<Longrightarrow> plainMetadata m \<Longrightarrow> fst (stSaveMetadata I st m)"
    and save_inv: "inv st \<Longrightarrow> plainMetadata m \<Longrightarrow> inv (snd (stSaveMetadata I st m))"
    and save_load: "inv st \<Longrightarrow> plainMetadata m \<Longrightarrow> oka b \<Longrightarrow>
      stLoad I (snd (stSaveMetadata I st m)) b = stLoad I st b"
    and save_load_domain: "inv st \<Longrightarrow> plainMetadata m \<Longrightarrow>
      stLoadDomain I (snd (stSaveMetadata I st m)) = stLoadDomain I st"
    and async_inv: "stSaveMetadataAsync I = Some f \<Longrightarrow> inv st \<Longrightarrow> plainMetadata m \<Longrightarrow> inv (f st m)"
    and async_load: "stSaveMetadataAsync I = Some f \<Longrightarrow> stLoad I (f st m) = stLoad I st"
    and metadata_inv: "inv st \<Longrightarrow> inv (snd (stMetadata I st))"
    and reset_inv: "inv st \<Longrightarrow> inv (snd (stReset I st))"
    and reset_load: "inv st \<Longrightarrow> oka a \<Longrightarrow> stLoad I (snd (stReset I st)) a = None"
    and reset_load_domain: "inv st \<Longrightarrow> stLoadDomain I (snd (stReset I st)) d v6 = None"
    and async_load_domain: "stSaveMetadataAsync I = Some f \<Longrightarrow> stLoadDomain I (f st m) = stLoadDomain I st"
begin

lemma saveCurrent_ok:
  assumes "inv st" "plainMetadata (storeMetadata s)"
  shows "fst (saveCurrent I s st)" "inv (snd (saveCurrent I s st))"
    "oka b \<Longrightarrow> stLoad I (snd (saveCurrent I s st)) b = stLoad I st b"
    "stLoadDomain I (snd (saveCurrent I s st)) = stLoadDomain I st"
  using assms
  by (cases "stSaveMetadataAsync I";
      simp add: saveCurrent_def save_ok save_inv save_load save_load_domain async_inv async_load async_load_domain)+

lemma reserve_ok:
  assumes "inv st" "plainMetadata (storeMetadata s)"
  obtains st' where "reserve I s st = (True, s\<lparr>reservedCount := reservedCount (fst (snd (reserve I s st)))\<rparr>, st')"
    "inv st'" "\<And>b. oka b \<Longrightarrow> stLoad I st' b = stLoad I st b" "stLoadDomain I st' = stLoadDomain I st"
proof (cases "reservedCount s = 0")
  case True
  let ?m = "(reserveStep s ^^ reservedAddressCount) (storeMetadata s)"
  have m: "plainMetadata ?m" using plain_reserve [OF assms(2)] .
  show ?thesis
    using True save_ok [OF assms(1) m] save_inv [OF assms(1) m] save_load [OF assms(1) m] save_load_domain [OF assms(1) m]
    by (intro that [of "snd (stSaveMetadata I st ?m)"])
      (auto simp: reserve_def split: prod.splits)
next
  case False
  then show ?thesis using assms(1) by (intro that [of st]) (simp_all add: reserve_def)
qed

lemma Create_new:
  assumes st: "storage s = Some st" "inv st" "plainMetadata (storeMetadata s)" and d: "ok d"
    and new: "stLoadDomain I st d v6 = None" and cur: "AddrIsValid (curFor s v6)"
    and a: "a = nextAddress (rangeFor s v6) (lastFor s v6) (curFor s v6)" "AddrIsValid a" "Is4 a = (\<not> v6)" "oka a"
  obtains s' st' where "Store_Create I s d v6 = Some (Inr a, s')" "storage s' = Some st'" "inv st'"
    "plainMetadata (storeMetadata s')" "\<And>b. oka b \<Longrightarrow> stLoad I st' b = (if b = a then Some d else stLoad I st b)"
    "\<And>d' w. stLoadDomain I st' d' w =
        (if w = v6 then
           if d' = d then Some a else if stLoad I st a = Some d' then None else stLoadDomain I st d' w
         else stLoadDomain I st d' w)"
    "rangeFor s' = rangeFor s" "lastFor s' = lastFor s" "curFor s' v6 = a" "\<And>w. w \<noteq> v6 \<Longrightarrow> curFor s' w = curFor s w"
proof -
  obtain st1 where r: "reserve I s st = (True, s\<lparr>reservedCount := reservedCount (fst (snd (reserve I s st)))\<rparr>, st1)"
    and st1: "inv st1" "\<And>b. oka b \<Longrightarrow> stLoad I st1 b = stLoad I st b" "stLoadDomain I st1 = stLoadDomain I st"
    using reserve_ok [OF st(2,3)] by metis
  define s1 where "s1 = s\<lparr>reservedCount := reservedCount (fst (snd (reserve I s st)))\<rparr>"
  define s2 where "s2 = snd (advance (s1\<lparr>reservedCount := reservedCount s1 - 1\<rparr>) v6)"
  have adv: "advance (s1\<lparr>reservedCount := reservedCount s1 - 1\<rparr>) v6 = (a, s2)"
    using a(1) by (auto simp: s2_def s1_def advance_def curFor_def lastFor_def rangeFor_def Let_def)
  have plain: "plainMetadata (storeMetadata s2)"
    using st(3) unfolding s2_def s1_def
    by (intro plain_advance) (simp add: storeMetadata_def)
  define st2 where "st2 = stStoreAsync I st1 a d"
  have new1: "stLoadDomain I st1 d (\<not> Is4 a) = None" using new a(3) st1(3) by simp
  have st2: "inv st2" using store_inv [OF st1(1) a(4) d new1] by (simp add: st2_def)
  define s' where "s' = s2\<lparr>storage := Some (snd (saveCurrent I s2 st2))\<rparr>"
  have 1: "Store_Create I s d v6 = Some (Inr a, s')"
    using st(1) new cur r adv saveCurrent_ok(1) [OF st2 plain]
    by (cases v6; cases "saveCurrent I s2 st2")
      (auto simp: Store_Create_def loadDomain_def curFor_def s1_def [symmetric] st2_def s'_def Let_def)
  show ?thesis
  proof (rule that [OF 1])
    show "storage s' = Some (snd (saveCurrent I s2 st2))" by (simp add: s'_def)
    show "inv (snd (saveCurrent I s2 st2))" using saveCurrent_ok(2) [OF st2 plain] .
    show "plainMetadata (storeMetadata s')" using plain by (simp add: s'_def storeMetadata_def)
    show "stLoad I (snd (saveCurrent I s2 st2)) b = (if b = a then Some d else stLoad I st b)" if "oka b" for b
      using load_store [OF st1(1) a(4) d new1 that] st1(2) [OF that] that
      by (auto simp: saveCurrent_ok(3) [OF st2 plain] st2_def [symmetric])
    show "stLoadDomain I (snd (saveCurrent I s2 st2)) d' w =
        (if w = v6 then
           if d' = d then Some a else if stLoad I st a = Some d' then None else stLoadDomain I st d' w
         else stLoadDomain I st d' w)" for d' w
      using load_domain_store [OF st1(1) a(4) d new1, of d' w] st1(2) [OF a(4)] st1(3) a(3)
      by (simp add: saveCurrent_ok(4) [OF st2 plain] st2_def [symmetric])
    show "rangeFor s' = rangeFor s" "lastFor s' = lastFor s" "curFor s' v6 = a"
      "w \<noteq> v6 \<Longrightarrow> curFor s' w = curFor s w" for w
      using a(1)
      by (auto simp: s'_def s2_def s1_def advance_def rangeFor_def lastFor_def curFor_def Let_def fun_eq_iff)
  qed
qed

lemma card_known:
  assumes "inv st" "allocated I s st v6 n"
  shows "finite (known I st v6) \<and> card (known I st v6) = n"
proof -
  let ?p = "rangeFor s v6" and ?f = "\<lambda>d. the (stLoadDomain I st d v6)"
  have roomy: "roomy ?p" and n: "n \<le> capacity ?p" using assms(2) by (auto simp: allocated_def Let_def)
  have used: "\<And>d a. stLoadDomain I st d v6 = Some a \<Longrightarrow> \<exists>k. 0 < k \<and> k \<le> n \<and> a = walk ?p k"
    "\<And>k. 0 < k \<Longrightarrow> k \<le> n \<Longrightarrow> \<exists>d. stLoadDomain I st d v6 = Some (walk ?p k)"
    using assms(2) unfolding allocated_def Let_def by blast+
  have inj: "inj_on ?f (known I st v6)"
  proof (rule inj_onI)
    fix d e assume "d \<in> known I st v6" "e \<in> known I st v6" "?f d = ?f e"
    then obtain a where "stLoadDomain I st d v6 = Some a" "stLoadDomain I st e v6 = Some a"
      by (auto simp: known_def)
    then show "d = e" using load_domain [OF assms(1)] by (metis option.inject)
  qed
  have img: "?f ` known I st v6 = walk ?p ` {1..n}"
  proof (intro set_eqI iffI)
    fix a assume "a \<in> ?f ` known I st v6"
    then obtain d where "stLoadDomain I st d v6 = Some a" by (auto simp: known_def)
    then obtain k where "0 < k" "k \<le> n" "a = walk ?p k" using used(1) by blast
    then show "a \<in> walk ?p ` {1..n}" by auto
  next
    fix a assume "a \<in> walk ?p ` {1..n}"
    then obtain k where "1 \<le> k" "k \<le> n" "a = walk ?p k" by (auto simp del: One_nat_def)
    then obtain d where "stLoadDomain I st d v6 = Some a" using used(2) [of k] by auto
    then show "a \<in> ?f ` known I st v6" by (intro image_eqI [of _ _ d]) (simp_all add: known_def)
  qed
  have "inj_on (walk ?p) {1..n}"
  proof (rule linorder_inj_onI)
    fix k l assume "k < l" "k \<in> {1..n}" "l \<in> {1..n}"
    then show "walk ?p k \<noteq> walk ?p l" using n by (intro walk_distinct [OF roomy]) auto
  qed auto
  then have "card (walk ?p ` {1..n}) = n" "finite (walk ?p ` {1..n})" by (simp_all add: card_image)
  then show ?thesis using inj img by (metis card_image finite_imageD)
qed

text \<open>
  One call of \<^verbatim>\<open>Create\<close> while the family has room: it succeeds, the domain has
  the address, no other domain loses its own, and only this domain is new.
\<close>

lemma Create_step:
  assumes st: "storage s = Some st" "inv st" "plainMetadata (storeMetadata s)" and d: "ok d"
    and all: "\<And>w. w \<in> V \<Longrightarrow> \<exists>n. allocated I s st w n"
    and takes: "\<forall>w a. PrefixContains (rangeFor s w) a \<longrightarrow> oka a"
    and v6: "v6 \<in> V" and room: "d \<notin> known I st v6 \<Longrightarrow> card (known I st v6) < capacity (rangeFor s v6)"
  obtains a s' st' where "Store_Create I s d v6 = Some (Inr a, s')" "storage s' = Some st'" "inv st'"
    "plainMetadata (storeMetadata s')" "\<And>w. w \<in> V \<Longrightarrow> \<exists>n. allocated I s' st' w n" "rangeFor s' = rangeFor s"
    "stLoadDomain I st' d v6 = Some a" "PrefixContains (rangeFor s v6) a"
    "\<And>e w b. stLoadDomain I st e w = Some b \<Longrightarrow> stLoadDomain I st' e w = Some b"
    "\<And>w. known I st' w = (if w = v6 then insert d (known I st w) else known I st w)"
proof -
  obtain n where n: "allocated I s st v6 n" using all v6 by blast
  let ?p = "rangeFor s v6"
  have p: "roomy ?p" "Is4 (PrefixAddr ?p) = (\<not> v6)" "lastFor s v6 = broadcastAddress ?p"
    "curFor s v6 = walk ?p n" "n \<le> capacity ?p"
    using n by (auto simp: allocated_def Let_def)
  have nD: "\<And>k. 0 < k \<Longrightarrow> k \<le> n \<Longrightarrow> \<exists>d. stLoadDomain I st d v6 = Some (walk ?p k)"
    "\<And>d a. stLoadDomain I st d v6 = Some a \<Longrightarrow> \<exists>k. 0 < k \<and> k \<le> n \<and> a = walk ?p k"
    "\<And>k. n < k \<Longrightarrow> k \<le> capacity ?p \<Longrightarrow> stLoad I st (walk ?p k) = None"
    using n unfolding allocated_def Let_def by blast+
  have at: "at_offset ?p (walk_offset ?p k) (walk ?p k)" for k using walk_at [OF p(1)] .
  have inside: "PrefixContains ?p (walk ?p k)" "AddrIsValid (walk ?p k)" "Is4 (walk ?p k) = (\<not> v6)" for k
    using offset_Contains [OF p(1) at walk_offset_le [OF p(1)]] at [of k] p(2)
    by (auto simp: at_offset_def sibling_def)
  show ?thesis
  proof (cases "stLoadDomain I st d v6")
    case (Some a)
    then obtain k where "a = walk ?p k" using nD(2) by blast
    then have "PrefixContains ?p a" using inside by simp
    with Some st have "Store_Create I s d v6 = Some (Inr a, s)" by (simp add: Store_Create_def loadDomain_def)
    then show ?thesis
      by (rule that) (use st all Some \<open>PrefixContains ?p a\<close> in \<open>auto simp: known_def\<close>)
  next
    case None
    then have cap: "n < capacity ?p" using room card_known [OF st(2) n] by (simp add: known_def)
    define a where "a = walk ?p (Suc n)"
    have next_a: "a = nextAddress ?p (lastFor s v6) (curFor s v6)" by (simp add: a_def walk_def p)
    have free: "stLoad I st a = None" using nD(3) [of "Suc n"] cap by (simp add: a_def)
    have a: "AddrIsValid a" "Is4 a = (\<not> v6)" "AddrIsValid (curFor s v6)" "PrefixContains ?p a"
      using inside p(4) by (simp_all add: a_def)
    obtain s' st' where c: "Store_Create I s d v6 = Some (Inr a, s')" "storage s' = Some st'" "inv st'"
        "plainMetadata (storeMetadata s')"
      and load: "\<And>b. oka b \<Longrightarrow> stLoad I st' b = (if b = a then Some d else stLoad I st b)"
      and raw: "\<And>e w. stLoadDomain I st' e w = (if w = v6 then
           if e = d then Some a else if stLoad I st a = Some e then None else stLoadDomain I st e w
         else stLoadDomain I st e w)"
      and same: "rangeFor s' = rangeFor s" "lastFor s' = lastFor s" "curFor s' v6 = a"
        "\<And>w. w \<noteq> v6 \<Longrightarrow> curFor s' w = curFor s w"
      by (rule Create_new [OF st d None a(3) next_a a(1,2) takes [rule_format, OF a(4)]]; rule that)
    have loadD: "stLoadDomain I st' e w = (if w = v6 \<and> e = d then Some a else stLoadDomain I st e w)" for e w
      using raw [of e w] free by simp
    show ?thesis
    proof (rule that [OF c])
      fix w assume "w \<in> V"
      then obtain m where m: "allocated I s st w m" using all by blast
      show "\<exists>n. allocated I s' st' w n"
      proof (cases "w = v6")
        case True
        have free': "stLoad I st' (walk ?p k) = None" if "Suc n < k" "k \<le> capacity ?p" for k
          using walk_distinct [OF p(1), of "Suc n" k] that nD(3) [of k] takes inside(1) [of k]
          by (simp add: load a_def)
        have "\<exists>e. stLoadDomain I st' e v6 = Some (walk ?p k)" if "0 < k" "k \<le> Suc n" for k
        proof (cases "k = Suc n")
          case False
          then obtain e where "stLoadDomain I st e v6 = Some (walk ?p k)" 
            using nD(1) [of k] \<open>0 < k\<close> \<open>k \<le> Suc n\<close> by auto
          then show ?thesis using None by (intro exI [of _ e]) (auto simp: loadD)
        qed (auto simp: loadD a_def)
        moreover have "\<exists>k. 0 < k \<and> k \<le> Suc n \<and> b = walk ?p k" if "stLoadDomain I st' e v6 = Some b" for e b
          using that nD(2) [of e b] by (cases "e = d") (auto simp: loadD a_def intro: le_SucI)
        ultimately have "allocated I s' st' v6 (Suc n)"
          using p cap free' unfolding allocated_def Let_def same by (simp add: a_def)
        then show ?thesis using True by blast
      next
        case False
        have other: "walk (rangeFor s w) k \<noteq> a" for k
        proof -
          have "Is4 (walk (rangeFor s w) k) = (\<not> w)"
            using walk_at [of "rangeFor s w" k] m by (auto simp: allocated_def Let_def at_offset_def sibling_def)
          then show ?thesis using inside(3) [of "Suc n"] False by (auto simp: a_def)
        qed
        have "oka (walk (rangeFor s w) k)" for k
          using offset_Contains [OF _ walk_at walk_offset_le, of "rangeFor s w" k] m takes
          by (auto simp: allocated_def Let_def)
        then have "allocated I s' st' w m"
          using m False load other unfolding allocated_def Let_def same(1,2) same(4) [OF False] loadD by simp
        then show ?thesis by blast
      qed
    qed (use same loadD None a in \<open>auto simp: known_def\<close>)
  qed
qed

lemma Creates_run:
  assumes "storage s = Some st" "inv st" "plainMetadata (storeMetadata s)"
    and "\<And>w. w \<in> V \<Longrightarrow> \<exists>n. allocated I s st w n"
    and "\<forall>(d, w) \<in> set reqs. w \<in> V \<and> ok d"
    and "\<forall>w a. PrefixContains (rangeFor s w) a \<longrightarrow> oka a"
    and "\<And>w. w \<in> V \<Longrightarrow> card (known I st w \<union> {d. (d, w) \<in> set reqs}) \<le> capacity (rangeFor s w)"
  obtains as s' st' where "Store_Creates I s reqs = Some (as, s')" "length as = length reqs"
    "storage s' = Some st'" "inv st'" "rangeFor s' = rangeFor s"
    "\<And>i. i < length reqs \<Longrightarrow> stLoadDomain I st' (fst (reqs ! i)) (snd (reqs ! i)) = Some (as ! i) \<and>
        PrefixContains (rangeFor s (snd (reqs ! i))) (as ! i)"
    "\<And>e w b. stLoadDomain I st e w = Some b \<Longrightarrow> stLoadDomain I st' e w = Some b"
  using assms
proof (induction reqs arbitrary: s st thesis)
  case Nil
  then show ?case by simp
next
  case (Cons req reqs)
  obtain d v6 where req: "req = (d, v6)" by (cases req)
  have v6: "v6 \<in> V" and d: "ok d" using Cons.prems(6) req by simp_all
  have fin: "finite (known I st w)" if "w \<in> V" for w
    using Cons.prems(5) [OF that] card_known [OF Cons.prems(3)] by blast
  have finr: "finite {e. (e, w) \<in> set reqs}" for w
    by (rule finite_subset [of _ "fst ` set reqs"]) force+
  have room: "card (known I st v6) < capacity (rangeFor s v6)" if "d \<notin> known I st v6"
  proof -
    have "insert d (known I st v6) \<subseteq> known I st v6 \<union> {e. (e, v6) \<in> set (req # reqs)}" using req by auto
    then have "card (insert d (known I st v6)) \<le> card (known I st v6 \<union> {e. (e, v6) \<in> set (req # reqs)})"
      using fin [OF v6] finr [of v6] req by (intro card_mono) (auto intro: finite_subset [of _ "insert d {e. (e, v6) \<in> set reqs}"])
    then show ?thesis using that fin [OF v6] Cons.prems(8) [OF v6] by simp
  qed
  obtain a s1 st1 where 1: "Store_Create I s d v6 = Some (Inr a, s1)" "storage s1 = Some st1" "inv st1"
    "plainMetadata (storeMetadata s1)" "\<And>w. w \<in> V \<Longrightarrow> \<exists>n. allocated I s1 st1 w n" "rangeFor s1 = rangeFor s"
    "stLoadDomain I st1 d v6 = Some a" "PrefixContains (rangeFor s v6) a"
    "\<And>e w b. stLoadDomain I st e w = Some b \<Longrightarrow> stLoadDomain I st1 e w = Some b"
    "\<And>w. known I st1 w = (if w = v6 then insert d (known I st w) else known I st w)"
    by (rule Create_step [OF Cons.prems(2,3,4) d Cons.prems(5) Cons.prems(7) v6 room],
        assumption, assumption, rule that)
  have "known I st1 w \<union> {e. (e, w) \<in> set reqs} = known I st w \<union> {e. (e, w) \<in> set (req # reqs)}" for w
    using 1(10) req by auto
  then have cap: "card (known I st1 w \<union> {e. (e, w) \<in> set reqs}) \<le> capacity (rangeFor s1 w)" if "w \<in> V" for w
    using Cons.prems(8) [OF that] 1(6) by simp
  have takes: "\<forall>w a. PrefixContains (rangeFor s1 w) a \<longrightarrow> oka a" using Cons.prems(7) 1(6) by simp
  obtain as s' st' where 2: "Store_Creates I s1 reqs = Some (as, s')" "length as = length reqs"
    "storage s' = Some st'" "inv st'" "rangeFor s' = rangeFor s1"
    "\<And>i. i < length reqs \<Longrightarrow> stLoadDomain I st' (fst (reqs ! i)) (snd (reqs ! i)) = Some (as ! i) \<and>
        PrefixContains (rangeFor s1 (snd (reqs ! i))) (as ! i)"
    "\<And>e w b. stLoadDomain I st1 e w = Some b \<Longrightarrow> stLoadDomain I st' e w = Some b"
    using Cons.IH [OF _ 1(2,3,4,5) _ takes cap] Cons.prems(6) by auto
  show ?case
  proof (rule Cons.prems(1))
    show "Store_Creates I s (req # reqs) = Some (a # as, s')" using 1(1) 2(1) req by simp
    show "stLoadDomain I st' (fst ((req # reqs) ! i)) (snd ((req # reqs) ! i)) = Some ((a # as) ! i) \<and>
        PrefixContains (rangeFor s (snd ((req # reqs) ! i))) ((a # as) ! i)" if "i < length (req # reqs)" for i
      using that 1 2 req by (cases i) auto
  qed (use 1 2 in auto)
qed

lemma Start_fresh:
  assumes "inv st" and m: "\<forall>m. fst (stMetadata I st) = Some m \<longrightarrow> \<not> (Inet4Range m = r4 \<and> Inet6Range m = r6)"
  defines "s \<equiv> Store_Start I (NewStore r4 r6) st" and "st' \<equiv> snd (stReset I (snd (stMetadata I st)))"
  shows "storage s = Some st'" "rangeFor s v6 = (if v6 then r6 else r4)" "known I st' v6 = {}"
    "\<not> hasZone (PrefixAddr r4) \<Longrightarrow> \<not> hasZone (PrefixAddr r6) \<Longrightarrow> plainMetadata (storeMetadata s)"
    "roomy (rangeFor s v6) \<Longrightarrow> Is4 (PrefixAddr (rangeFor s v6)) = (\<not> v6) \<Longrightarrow>
       \<forall>a. PrefixContains (rangeFor s v6) a \<longrightarrow> oka a \<Longrightarrow> allocated I s st' v6 0"
proof -
  have s: "s = freshStart I (NewStore r4 r6) (snd (stMetadata I st))"
    using m by (auto simp: s_def Store_Start_def NewStore_def split: option.splits prod.splits)
  note inv = metadata_inv [OF assms(1)]
  show "storage s = Some st'" "rangeFor s v6 = (if v6 then r6 else r4)"
    by (simp_all add: s freshStart_def NewStore_def rangeFor_def st'_def)
  show "known I st' v6 = {}" using reset_load_domain [OF inv] by (simp add: known_def st'_def)
  show "plainMetadata (storeMetadata s)" if "\<not> hasZone (PrefixAddr r4)" "\<not> hasZone (PrefixAddr r6)"
    using that by (cases "PrefixAddr r4"; cases "PrefixAddr r6")
      (auto simp: s freshStart_def NewStore_def storeMetadata_def plainMetadata_def)
  show "allocated I s st' v6 0" if "roomy (rangeFor s v6)" "Is4 (PrefixAddr (rangeFor s v6)) = (\<not> v6)"
    "\<forall>a. PrefixContains (rangeFor s v6) a \<longrightarrow> oka a"
  proof -
    have "oka (walk (rangeFor s v6) k)" for k
      using offset_Contains [OF that(1) walk_at [OF that(1)] walk_offset_le [OF that(1)]] that(3) by blast
    moreover have "lastFor s v6 = broadcastAddress (rangeFor s v6)" "curFor s v6 = walk (rangeFor s v6) 0"
      using that(1)
      by (auto simp: s freshStart_def NewStore_def rangeFor_def curFor_def lastFor_def walk_def roomy_def wf_range_def)
    ultimately show ?thesis
      using that reset_load [OF inv] reset_load_domain [OF inv] by (auto simp: allocated_def Let_def st'_def)
  qed
qed

lemma one_to_one:
  fixes r4 r6 :: Prefix and reqs :: "(string \<times> bool) list"
  defines "r \<equiv> \<lambda>v6. if v6 then r6 else r4"
  assumes st: "inv st" "\<forall>m. fst (stMetadata I st) = Some m \<longrightarrow> \<not> (Inet4Range m = r4 \<and> Inet6Range m = r6)"
    and plain: "\<not> hasZone (PrefixAddr r4)" "\<not> hasZone (PrefixAddr r6)"
    and takes: "\<forall>a v6. PrefixContains (r v6) a \<longrightarrow> oka a"
    and reqs: "\<forall>(d, v6) \<in> set reqs. ok d \<and> roomy (r v6) \<and> Is4 (PrefixAddr (r v6)) = (\<not> v6) \<and>
      card {e. (e, v6) \<in> set reqs} \<le> capacity (r v6)"
  shows "\<exists>addresses s. Store_Creates I (Store_Start I (NewStore r4 r6) st) reqs = Some (addresses, s) \<and>
      length addresses = length reqs \<and>
      (\<forall>i < length reqs. PrefixContains (r (snd (reqs ! i))) (addresses ! i) \<and>
         Store_Lookup I s (addresses ! i) = Some (Some (fst (reqs ! i))) \<and>
         (\<forall>j < length reqs. addresses ! i = addresses ! j \<longleftrightarrow> reqs ! i = reqs ! j))"
proof -
  let ?s = "Store_Start I (NewStore r4 r6) st" and ?V = "snd ` set reqs"
  note start = Start_fresh [OF st]
  have r: "rangeFor ?s = r" by (simp add: start r_def fun_eq_iff)
  have V: "roomy (r w) \<and> Is4 (PrefixAddr (r w)) = (\<not> w) \<and> card {e. (e, w) \<in> set reqs} \<le> capacity (r w)"
    if "w \<in> ?V" for w using that reqs by force
  have all: "\<exists>n. allocated I ?s (snd (stReset I (snd (stMetadata I st)))) w n" if "w \<in> ?V" for w
    using V [OF that] start(5) [of w] takes unfolding r by blast
  have fam: "\<forall>(d, w) \<in> set reqs. w \<in> ?V \<and> ok d" using reqs by force
  have cap: "card (known I (snd (stReset I (snd (stMetadata I st)))) w \<union> {d. (d, w) \<in> set reqs}) \<le> capacity (rangeFor ?s w)"
    if "w \<in> ?V" for w using V [OF that] by (simp add: start(3) r)
  have oka: "\<forall>w a. PrefixContains (rangeFor ?s w) a \<longrightarrow> oka a" using takes unfolding r by blast
  obtain addresses s st' where run: "Store_Creates I ?s reqs = Some (addresses, s)"
    "length addresses = length reqs" "storage s = Some st'" "inv st'" "rangeFor s = rangeFor ?s"
    and each: "\<And>i. i < length reqs \<Longrightarrow>
        stLoadDomain I st' (fst (reqs ! i)) (snd (reqs ! i)) = Some (addresses ! i) \<and>
        PrefixContains (rangeFor ?s (snd (reqs ! i))) (addresses ! i)"
    by (rule Creates_run [OF start(1) reset_inv [OF metadata_inv [OF st(1)]] start(4) [OF plain] all fam oka cap],
        assumption, assumption, rule that)
  have load: "stLoad I st' (addresses ! i) = Some (fst (reqs ! i)) \<and> Is4 (addresses ! i) = (\<not> snd (reqs ! i))"
    if "i < length reqs" for i
    using load_domain [OF run(4)] each [OF that] by blast
  have "addresses ! i = addresses ! j \<longleftrightarrow> reqs ! i = reqs ! j" if "i < length reqs" "j < length reqs" for i j
    using load [OF that(1)] load [OF that(2)] each [OF that(1)] each [OF that(2)] by (auto simp: prod_eq_iff)
  then show ?thesis using run each load by (auto simp: Store_Lookup_def r)
qed

end

section \<open>Memory storage\<close>

definition memory_inv :: "MemoryStorage \<Rightarrow> bool" where
  "memory_inv st \<longleftrightarrow>
     (\<forall>d a. domainCache4 st d = Some a \<longrightarrow> addressCache st a = Some d \<and> Is4 a) \<and>
     (\<forall>d a. domainCache6 st d = Some a \<longrightarrow> addressCache st a = Some d \<and> \<not> Is4 a)"

lemma memory_store:
  "addressCache (MemoryStorage_FakeIPStore st a d) = (addressCache st)(a \<mapsto> d)"
  "domainCache4 (MemoryStorage_FakeIPStore st a d) d' =
     (if Is4 a then if d' = d then Some a else if addressCache st a = Some d' then None else domainCache4 st d'
      else domainCache4 st d')"
  "domainCache6 (MemoryStorage_FakeIPStore st a d) d' =
     (if \<not> Is4 a then if d' = d then Some a else if addressCache st a = Some d' then None else domainCache6 st d'
      else domainCache6 st d')"
  by (auto simp: MemoryStorage_FakeIPStore_def Let_def split: option.splits)

interpretation memory: fakeip_storage memoryStorage memory_inv "\<lambda>_. True" "\<lambda>_. True"
proof
  fix st a d assume "memory_inv st"
  then show "memory_inv (stStoreAsync memoryStorage st a d)"
    by (auto simp: memory_inv_def memoryStorage_def memory_store)
qed (auto simp: memory_inv_def memoryStorage_def memory_store MemoryStorage_FakeIPLoadDomain_def
    NewMemoryStorage_def split: if_splits)

lemma NewMemoryStorage_inv: "memory_inv NewMemoryStorage"
  by (simp add: memory_inv_def NewMemoryStorage_def)

text \<open>
  C18. Every domain has its own fake address, and the address leads back to the
  domain. A store started on memory answers any sequence of \<^verbatim>\<open>Create\<close> calls, as
  long as no family is asked for more domains than its range has room for:
  each address lies in the range of its family and two requests get the same
  address exactly when they ask for the same domain and family; after the last
  call, \<^verbatim>\<open>Lookup\<close> of each address gives the domain it was created for.
\<close>

theorem fakeip_one_to_one:
  fixes r4 r6 :: Prefix and reqs :: "(string \<times> bool) list"
  defines "r \<equiv> \<lambda>v6. if v6 then r6 else r4"
  assumes "\<not> hasZone (PrefixAddr r4)" "\<not> hasZone (PrefixAddr r6)"
    and "\<forall>(d, v6) \<in> set reqs. roomy (r v6) \<and> Is4 (PrefixAddr (r v6)) = (\<not> v6) \<and>
      card {e. (e, v6) \<in> set reqs} \<le> capacity (r v6)"
  shows "\<exists>addresses s. Store_Creates memoryStorage (Store_Start memoryStorage (NewStore r4 r6) NewMemoryStorage) reqs =
        Some (addresses, s) \<and> length addresses = length reqs \<and>
      (\<forall>i < length reqs. PrefixContains (r (snd (reqs ! i))) (addresses ! i) \<and>
         Store_Lookup memoryStorage s (addresses ! i) = Some (Some (fst (reqs ! i))) \<and>
         (\<forall>j < length reqs. addresses ! i = addresses ! j \<longleftrightarrow> reqs ! i = reqs ! j))"
  using memory.one_to_one [OF NewMemoryStorage_inv _ assms(2,3), of reqs] assms(4)
  unfolding r_def by (simp add: memoryStorage_def)

lemma roomy29: "roomy (Prefix (Addr4 0xc6120000) 29) \<and> capacity (Prefix (Addr4 0xc6120000) 29) = 5"
proof -
  have "addr_bits (broadcastAddress (Prefix (Addr4 0xc6120000) 29)) = 0xffff * 2 ^ 32 + 0xc6120007"
    using broadcast_bits [of "Prefix (Addr4 0xc6120000) 29"] by (simp add: wf_range_def hostBits_def)
  then show ?thesis by (simp add: roomy_def capacity_def wf_range_def)
qed

theorem fakeip_one_to_one_witness:
  "\<exists>addresses s. Store_Creates memoryStorage
       (Store_Start memoryStorage (NewStore (Prefix (Addr4 0xc6120000) 29) PrefixZero) NewMemoryStorage)
       [(''a.org'', False), (''b.org'', False), (''a.org'', False)] = Some (addresses, s) \<and>
     addresses ! 0 = addresses ! 2 \<and> addresses ! 0 \<noteq> addresses ! 1 \<and>
     Store_Lookup memoryStorage s (addresses ! 1) = Some (Some ''b.org'')"
proof -
  let ?reqs = "[(''a.org'', False), (''b.org'', False), (''a.org'', False)]"
  have "{e. (e, False) \<in> set ?reqs} = {''a.org'', ''b.org''}" by auto
  then have "card {e. (e, False) \<in> set ?reqs} \<le> 5" by simp
  then obtain addresses s where "Store_Creates memoryStorage
       (Store_Start memoryStorage (NewStore (Prefix (Addr4 0xc6120000) 29) PrefixZero) NewMemoryStorage) ?reqs =
       Some (addresses, s)" and each: "\<And>i. i < 3 \<Longrightarrow>
         Store_Lookup memoryStorage s (addresses ! i) = Some (Some (fst (?reqs ! i))) \<and>
         (\<forall>j < 3. addresses ! i = addresses ! j \<longleftrightarrow> ?reqs ! i = ?reqs ! j)"
    using fakeip_one_to_one [of "Prefix (Addr4 0xc6120000) 29" PrefixZero ?reqs] roomy29 by auto
  then show ?thesis using each [of 0] each [of 1] by simp
qed

end
