(* ===== verification/BoltDB.thy ===== *)
theory BoltDB
  imports GoStd "HOL-Library.AList"
begin

text \<open>
  The key-value database of the cache file, \<^verbatim>\<open>bbolt\<close>. It is not part of the
  sources: a record of its operations on a database of any type stands for
  it, and \<open>bolt_laws\<close> states what its documentation promises. A bucket is
  named by the path of names that leads to it.
\<close>

type_synonym bucket_path = "bytes list"

datatype bolt_error = ErrBucketNotFound | ErrOther

record 'd bolt =
  dbEmpty :: 'd
  dbHas :: "'d \<Rightarrow> bucket_path \<Rightarrow> bool"
  dbCreate :: "'d \<Rightarrow> bucket_path \<Rightarrow> 'd option"
  dbDeleteBucket :: "'d \<Rightarrow> bucket_path \<Rightarrow> bolt_error + 'd"
  dbGet :: "'d \<Rightarrow> bucket_path \<Rightarrow> bytes \<Rightarrow> bytes option"
  dbPut :: "'d \<Rightarrow> bucket_path \<Rightarrow> bytes \<Rightarrow> bytes \<Rightarrow> 'd option"
  dbDelete :: "'d \<Rightarrow> bucket_path \<Rightarrow> bytes \<Rightarrow> 'd option"
  dbForEach :: "'d \<Rightarrow> bucket_path \<Rightarrow> (bytes \<times> bytes) list"
  dbForEachBucket :: "'d \<Rightarrow> bucket_path \<Rightarrow> bytes list"

text \<open>Keys are not blank and at most 32768 bytes long; a value has at most \<open>2^31 - 2\<close>.\<close>

definition validKey :: "bytes \<Rightarrow> bool" where
  "validKey k \<longleftrightarrow> k \<noteq> [] \<and> length k \<le> 32768"

definition validValue :: "bytes \<Rightarrow> bool" where
  "validValue v \<longleftrightarrow> length v \<le> 2147483646"

definition bucket_laws :: "'d bolt \<Rightarrow> bool" where
  "bucket_laws B \<longleftrightarrow>
     (\<forall>p. \<not> dbHas B (dbEmpty B) p) \<and>
     (\<forall>d p k. \<not> dbHas B d p \<longrightarrow> dbGet B d p k = None) \<and>
     (\<forall>d p k. dbHas B d (p @ [k]) \<longrightarrow> dbGet B d p k = None) \<and>
     (\<forall>d n. n \<noteq> [] \<longrightarrow> (\<exists>d'. dbCreate B d [n] = Some d')) \<and>
     (\<forall>d p n. n \<noteq> [] \<longrightarrow> p \<noteq> [] \<longrightarrow> dbHas B d p \<longrightarrow> dbGet B d p n = None \<longrightarrow> (\<exists>d'. dbCreate B d (p @ [n]) = Some d')) \<and>
     (\<forall>d p d' q. dbCreate B d p = Some d' \<longrightarrow> dbHas B d' q = (q = p \<or> dbHas B d q)) \<and>
     (\<forall>d p d' q k. dbCreate B d p = Some d' \<longrightarrow> dbGet B d' q k = dbGet B d q k) \<and>
     (\<forall>d p. \<not> dbHas B d p \<longrightarrow> dbDeleteBucket B d p = Inl ErrBucketNotFound) \<and>
     (\<forall>d p. dbHas B d p \<longrightarrow> (\<exists>d'. dbDeleteBucket B d p = Inr d')) \<and>
     (\<forall>d p d' q. dbDeleteBucket B d p = Inr d' \<longrightarrow> dbHas B d' q = (dbHas B d q \<and> take (length p) q \<noteq> p)) \<and>
     (\<forall>d p d' q k. dbDeleteBucket B d p = Inr d' \<longrightarrow> dbGet B d' q k = (if take (length p) q = p then None else dbGet B d q k))"

definition key_laws :: "'d bolt \<Rightarrow> bool" where
  "key_laws B \<longleftrightarrow>
     (\<forall>d p v. dbPut B d p [] v = None) \<and>
     (\<forall>d p k v. dbHas B d p \<longrightarrow> \<not> dbHas B d (p @ [k]) \<longrightarrow> validKey k \<longrightarrow> validValue v \<longrightarrow> (\<exists>d'. dbPut B d p k v = Some d')) \<and>
     (\<forall>d p k v d' q. dbPut B d p k v = Some d' \<longrightarrow> dbHas B d' q = dbHas B d q) \<and>
     (\<forall>d p k v d' q j. dbPut B d p k v = Some d' \<longrightarrow> dbGet B d' q j = (if q = p \<and> j = k then Some v else dbGet B d q j)) \<and>
     (\<forall>d p k. dbHas B d p \<longrightarrow> \<not> dbHas B d (p @ [k]) \<longrightarrow> (\<exists>d'. dbDelete B d p k = Some d')) \<and>
     (\<forall>d p k d' q. dbDelete B d p k = Some d' \<longrightarrow> dbHas B d' q = dbHas B d q) \<and>
     (\<forall>d p k d' q j. dbDelete B d p k = Some d' \<longrightarrow> dbGet B d' q j = (if q = p \<and> j = k then None else dbGet B d q j))"

definition iteration_laws :: "'d bolt \<Rightarrow> bool" where
  "iteration_laws B \<longleftrightarrow>
     (\<forall>d p k v. (k, v) \<in> set (dbForEach B d p) \<longleftrightarrow> dbGet B d p k = Some v) \<and>
     (\<forall>d p n. n \<in> set (dbForEachBucket B d p) \<longleftrightarrow> dbHas B d (p @ [n])) \<and>
     (\<forall>d p. distinct (dbForEachBucket B d p))"

definition bolt_laws :: "'d bolt \<Rightarrow> bool" where
  "bolt_laws B \<longleftrightarrow> bucket_laws B \<and> key_laws B \<and> iteration_laws B"

lemma bolt_bucket_raw:
  assumes "bolt_laws B"
  shows "\<forall>p. \<not> dbHas B (dbEmpty B) p"
    "\<forall>d p k. \<not> dbHas B d p \<longrightarrow> dbGet B d p k = None"
    "\<forall>d p k. dbHas B d (p @ [k]) \<longrightarrow> dbGet B d p k = None"
    "\<forall>d n. n \<noteq> [] \<longrightarrow> (\<exists>d'. dbCreate B d [n] = Some d')"
    "\<forall>d p n. n \<noteq> [] \<longrightarrow> p \<noteq> [] \<longrightarrow> dbHas B d p \<longrightarrow> dbGet B d p n = None \<longrightarrow> (\<exists>d'. dbCreate B d (p @ [n]) = Some d')"
    "\<forall>d p d' q. dbCreate B d p = Some d' \<longrightarrow> dbHas B d' q = (q = p \<or> dbHas B d q)"
    "\<forall>d p d' q k. dbCreate B d p = Some d' \<longrightarrow> dbGet B d' q k = dbGet B d q k"
    "\<forall>d p. \<not> dbHas B d p \<longrightarrow> dbDeleteBucket B d p = Inl ErrBucketNotFound"
    "\<forall>d p. dbHas B d p \<longrightarrow> (\<exists>d'. dbDeleteBucket B d p = Inr d')"
    "\<forall>d p d' q. dbDeleteBucket B d p = Inr d' \<longrightarrow> dbHas B d' q = (dbHas B d q \<and> take (length p) q \<noteq> p)"
    "\<forall>d p d' q k. dbDeleteBucket B d p = Inr d' \<longrightarrow> dbGet B d' q k = (if take (length p) q = p then None else dbGet B d q k)"
  by (insert assms [unfolded bolt_laws_def bucket_laws_def]; elim conjE; assumption)+

lemmas bolt_bucket = bolt_bucket_raw [rule_format]

lemma bolt_key_raw:
  assumes "bolt_laws B"
  shows "\<forall>d p v. dbPut B d p [] v = None"
    "\<forall>d p k v. dbHas B d p \<longrightarrow> \<not> dbHas B d (p @ [k]) \<longrightarrow> validKey k \<longrightarrow> validValue v \<longrightarrow> (\<exists>d'. dbPut B d p k v = Some d')"
    "\<forall>d p k v d' q. dbPut B d p k v = Some d' \<longrightarrow> dbHas B d' q = dbHas B d q"
    "\<forall>d p k v d' q j. dbPut B d p k v = Some d' \<longrightarrow> dbGet B d' q j = (if q = p \<and> j = k then Some v else dbGet B d q j)"
    "\<forall>d p k. dbHas B d p \<longrightarrow> \<not> dbHas B d (p @ [k]) \<longrightarrow> (\<exists>d'. dbDelete B d p k = Some d')"
    "\<forall>d p k d' q. dbDelete B d p k = Some d' \<longrightarrow> dbHas B d' q = dbHas B d q"
    "\<forall>d p k d' q j. dbDelete B d p k = Some d' \<longrightarrow> dbGet B d' q j = (if q = p \<and> j = k then None else dbGet B d q j)"
  by (insert assms [unfolded bolt_laws_def key_laws_def]; elim conjE; assumption)+

lemmas bolt_key = bolt_key_raw [rule_format]

lemma bolt_iterate_raw:
  assumes "bolt_laws B"
  shows "\<forall>d p k v. (k, v) \<in> set (dbForEach B d p) \<longleftrightarrow> dbGet B d p k = Some v"
    "\<forall>d p n. n \<in> set (dbForEachBucket B d p) \<longleftrightarrow> dbHas B d (p @ [n])"
    "\<forall>d p. distinct (dbForEachBucket B d p)"
  by (insert assms [unfolded bolt_laws_def iteration_laws_def]; elim conjE; assumption)+

lemmas bolt_iterate = bolt_iterate_raw [rule_format]

section \<open>Transactions\<close>

text \<open>
  A transaction commits, fails (a function that returns an error or a commit
  that does not reach the disk), or finds the file corrupted and panics, in
  which case the cache file replaces the database by a new one.
\<close>

datatype tx_outcome = TxCommit | TxFail | TxCorrupted

definition dbUpdate :: "'d bolt \<Rightarrow> tx_outcome \<Rightarrow> 'd \<Rightarrow> ('d \<Rightarrow> 'd option) \<Rightarrow> bool \<times> 'd" where
  "dbUpdate B outcome db fn =
     (case outcome of
        TxCorrupted \<Rightarrow> (False, dbEmpty B)
      | TxFail \<Rightarrow> (False, db)
      | TxCommit \<Rightarrow> (case fn db of None \<Rightarrow> (False, db) | Some db' \<Rightarrow> (True, db')))"

section \<open>A database in memory\<close>

text \<open>
  Buckets and their keys as association lists: an instance of the operations
  for which the laws hold.
\<close>

record mapdb =
  mdBuckets :: "bucket_path list"
  mdKeys :: "((bucket_path \<times> bytes) \<times> bytes) list"

definition mapHas :: "mapdb \<Rightarrow> bucket_path \<Rightarrow> bool" where
  "mapHas d p \<longleftrightarrow> p \<noteq> [] \<and> p \<in> set (mdBuckets d)"

definition mapGet :: "mapdb \<Rightarrow> bucket_path \<Rightarrow> bytes \<Rightarrow> bytes option" where
  "mapGet d p k = (if mapHas d p \<and> \<not> mapHas d (p @ [k]) then map_of (mdKeys d) (p, k) else None)"

definition mapCreate :: "mapdb \<Rightarrow> bucket_path \<Rightarrow> mapdb option" where
  "mapCreate d p =
     (if p = [] \<or> last p = [] \<or> butlast p \<noteq> [] \<and> (\<not> mapHas d (butlast p) \<or> mapGet d (butlast p) (last p) \<noteq> None)
      then None
      else if mapHas d p then Some d
      else Some \<lparr>mdBuckets = p # mdBuckets d, mdKeys = filter (\<lambda>x. fst (fst x) \<noteq> p) (mdKeys d)\<rparr>)"

definition mapDeleteBucket :: "mapdb \<Rightarrow> bucket_path \<Rightarrow> bolt_error + mapdb" where
  "mapDeleteBucket d p =
     (if \<not> mapHas d p then Inl ErrBucketNotFound
      else Inr \<lparr>mdBuckets = filter (\<lambda>q. take (length p) q \<noteq> p) (mdBuckets d),
                mdKeys = filter (\<lambda>x. take (length p) (fst (fst x) @ [snd (fst x)]) \<noteq> p) (mdKeys d)\<rparr>)"

definition mapPut :: "mapdb \<Rightarrow> bucket_path \<Rightarrow> bytes \<Rightarrow> bytes \<Rightarrow> mapdb option" where
  "mapPut d p k v =
     (if mapHas d p \<and> \<not> mapHas d (p @ [k]) \<and> validKey k \<and> validValue v
      then Some (d\<lparr>mdKeys := AList.update (p, k) v (mdKeys d)\<rparr>) else None)"

definition mapDelete :: "mapdb \<Rightarrow> bucket_path \<Rightarrow> bytes \<Rightarrow> mapdb option" where
  "mapDelete d p k =
     (if mapHas d p \<and> \<not> mapHas d (p @ [k]) then Some (d\<lparr>mdKeys := AList.delete (p, k) (mdKeys d)\<rparr>) else None)"

definition mapForEach :: "mapdb \<Rightarrow> bucket_path \<Rightarrow> (bytes \<times> bytes) list" where
  "mapForEach d p = map (\<lambda>x. (snd (fst x), snd x))
     (filter (\<lambda>x. fst (fst x) = p \<and> mapHas d p \<and> \<not> mapHas d (p @ [snd (fst x)])) (AList.clearjunk (mdKeys d)))"

definition mapForEachBucket :: "mapdb \<Rightarrow> bucket_path \<Rightarrow> bytes list" where
  "mapForEachBucket d p = remdups (map last (filter (\<lambda>q. q \<noteq> [] \<and> butlast q = p) (mdBuckets d)))"

definition mapBolt :: "mapdb bolt" where
  "mapBolt = \<lparr>dbEmpty = \<lparr>mdBuckets = [], mdKeys = []\<rparr>, dbHas = mapHas, dbCreate = mapCreate,
     dbDeleteBucket = mapDeleteBucket, dbGet = mapGet, dbPut = mapPut, dbDelete = mapDelete,
     dbForEach = mapForEach, dbForEachBucket = mapForEachBucket\<rparr>"

lemma map_of_filter_key: "map_of (filter (\<lambda>x. P (fst x)) xs) k = (if P k then map_of xs k else None)"
  by (induction xs) auto

lemma mapHas_create: "mapCreate d p = Some d' \<Longrightarrow> mapHas d' q \<longleftrightarrow> q = p \<or> mapHas d q"
  by (auto simp: mapCreate_def mapHas_def split: if_splits)

lemma mapGet_create:
  assumes "mapCreate d p = Some d'" shows "mapGet d' q k = mapGet d q k"
proof (cases "mapHas d p")
  case True
  then show ?thesis using assms by (auto simp: mapCreate_def split: if_splits)
next
  case False
  then have d': "d' = \<lparr>mdBuckets = p # mdBuckets d, mdKeys = filter (\<lambda>x. fst (fst x) \<noteq> p) (mdKeys d)\<rparr>"
    and free: "butlast p \<noteq> [] \<longrightarrow> mapGet d (butlast p) (last p) = None" and p: "p \<noteq> []"
    using assms by (auto simp: mapCreate_def split: if_splits)
  have "map_of (mdKeys d') (q, k) = (if q = p then None else map_of (mdKeys d) (q, k))"
    using map_of_filter_key [of "\<lambda>y. fst y \<noteq> p" "mdKeys d" "(q, k)"] by (simp add: d')
  then show ?thesis using False free p by (auto simp: mapGet_def mapHas_def d')
qed

lemma mapHas_delete: "mapDeleteBucket d p = Inr d' \<Longrightarrow> mapHas d' q \<longleftrightarrow> mapHas d q \<and> take (length p) q \<noteq> p"
  by (auto simp: mapDeleteBucket_def mapHas_def split: if_splits)

lemma mapGet_delete:
  assumes "mapDeleteBucket d p = Inr d'"
  shows "mapGet d' q k = (if take (length p) q = p then None else mapGet d q k)"
proof -
  have has: "mapHas d p" and d': "mdKeys d' = filter (\<lambda>x. take (length p) (fst (fst x) @ [snd (fst x)]) \<noteq> p) (mdKeys d)"
    using assms by (auto simp: mapDeleteBucket_def split: if_splits)
  have "map_of (mdKeys d') (q, k) = (if take (length p) (q @ [k]) \<noteq> p then map_of (mdKeys d) (q, k) else None)"
    using map_of_filter_key [of "\<lambda>y. take (length p) (fst y @ [snd y]) \<noteq> p" "mdKeys d" "(q, k)"] by (simp add: d')
  moreover have "take (length p) (q @ [k]) = p \<longleftrightarrow> take (length p) q = p \<or> p = q @ [k]"
  proof -
    have "take (length p) (q @ [k]) = (if length p \<le> length q then take (length p) q else q @ [k])" by simp
    then show ?thesis by (cases "length p \<le> length q") auto
  qed
  ultimately show ?thesis using has mapHas_delete [OF assms] by (auto simp: mapGet_def)
qed

lemma mapBolt_laws: "bolt_laws mapBolt"
proof -
  have "bucket_laws mapBolt"
    unfolding bucket_laws_def
  proof (intro conjI allI impI)
    fix d n show "n \<noteq> [] \<Longrightarrow> \<exists>d'. dbCreate mapBolt d [n] = Some d'" by (simp add: mapBolt_def mapCreate_def)
  next
    fix d p assume "dbHas mapBolt d p"
    then show "\<exists>d'. dbDeleteBucket mapBolt d p = Inr d'" by (simp add: mapBolt_def mapDeleteBucket_def)
  next
    fix d p d' q k assume "dbDeleteBucket mapBolt d p = Inr d'"
    then have d': "mapDeleteBucket d p = Inr d'" by (simp add: mapBolt_def)
    show "dbHas mapBolt d' q = (dbHas mapBolt d q \<and> take (length p) q \<noteq> p)"
      "dbGet mapBolt d' q k = (if take (length p) q = p then None else dbGet mapBolt d q k)"
      using mapHas_delete [OF d'] mapGet_delete [OF d'] by (simp_all add: mapBolt_def)
  next
    fix d p d' q k assume "dbCreate mapBolt d p = Some d'"
    then have c: "mapCreate d p = Some d'" by (simp add: mapBolt_def)
    show "dbHas mapBolt d' q = (q = p \<or> dbHas mapBolt d q)" using mapHas_create [OF c] by (simp add: mapBolt_def)
    show "dbGet mapBolt d' q k = dbGet mapBolt d q k" using mapGet_create [OF c] by (simp add: mapBolt_def)
  next
    fix d p k assume "\<not> dbHas mapBolt d p"
    then show "dbGet mapBolt d p k = None" "dbDeleteBucket mapBolt d p = Inl ErrBucketNotFound"
      by (simp_all add: mapBolt_def mapGet_def mapDeleteBucket_def)
  next
    fix d p k assume "dbHas mapBolt d (p @ [k])"
    then show "dbGet mapBolt d p k = None" by (simp add: mapBolt_def mapGet_def)
  next
    fix d p n assume "n \<noteq> []" "p \<noteq> []" "dbHas mapBolt d p" "dbGet mapBolt d p n = None"
    then show "\<exists>d'. dbCreate mapBolt d (p @ [n]) = Some d'" by (simp add: mapBolt_def mapCreate_def)
  next
    fix p show "\<not> dbHas mapBolt (dbEmpty mapBolt) p" by (simp add: mapBolt_def mapHas_def)
  qed
  moreover have "key_laws mapBolt"
    unfolding key_laws_def
  proof (intro conjI allI impI)
    fix d p k v d' q j assume "dbPut mapBolt d p k v = Some d'"
    then have d': "d' = d\<lparr>mdKeys := AList.update (p, k) v (mdKeys d)\<rparr>" "mapHas d p" "\<not> mapHas d (p @ [k])"
      by (auto simp: mapBolt_def mapPut_def split: if_splits)
    show "dbHas mapBolt d' q = dbHas mapBolt d q" by (simp add: mapBolt_def mapHas_def d')
    show "dbGet mapBolt d' q j = (if q = p \<and> j = k then Some v else dbGet mapBolt d q j)"
      using d'(2,3) by (auto simp: mapBolt_def mapGet_def mapHas_def d'(1) AList.update_conv')
  next
    fix d p k d' q j assume "dbDelete mapBolt d p k = Some d'"
    then have d': "d' = d\<lparr>mdKeys := AList.delete (p, k) (mdKeys d)\<rparr>"
      by (auto simp: mapBolt_def mapDelete_def split: if_splits)
    show "dbHas mapBolt d' q = dbHas mapBolt d q" by (simp add: mapBolt_def mapHas_def d')
    show "dbGet mapBolt d' q j = (if q = p \<and> j = k then None else dbGet mapBolt d q j)"
      by (auto simp: mapBolt_def mapGet_def mapHas_def d' AList.delete_conv')
  qed (auto simp: mapBolt_def mapPut_def mapDelete_def validKey_def)
  moreover have "iteration_laws mapBolt"
  proof -
    have "(k, v) \<in> set (mapForEach d p) \<longleftrightarrow> mapGet d p k = Some v" for d p k v
    proof -
      have "((p, k), v) \<in> set (AList.clearjunk (mdKeys d)) \<longleftrightarrow> map_of (mdKeys d) (p, k) = Some v"
        using map_of_eq_Some_iff [OF AList.distinct_clearjunk, of "mdKeys d" "(p, k)" v]
        by (simp add: AList.map_of_clearjunk)
      then show ?thesis by (force simp: mapForEach_def mapGet_def)
    qed
    moreover have "n \<in> set (mapForEachBucket d p) \<longleftrightarrow> mapHas d (p @ [n])" for d p n
      by (auto simp: mapForEachBucket_def mapHas_def image_iff intro!: bexI [of _ "p @ [n]"])
    ultimately show ?thesis by (simp add: iteration_laws_def mapBolt_def mapForEachBucket_def)
  qed
  ultimately show ?thesis by (simp add: bolt_laws_def)
qed

end
