(* ===== verification/CacheFile.thy ===== *)
theory CacheFile
  imports FakeIPStore BoltDB
begin

text \<open>
  The cache file of \<^verbatim>\<open>experimental/cachefile\<close>: writes of the DNS cache, of rejected
  queries and of FakeIP pairs are kept in memory and written to the database
  together. \<open>pending\<close> holds the writes to come, \<open>writing\<close> those of a flush in
  progress; reads look into both before the database. Go maps that the code
  iterates over are association lists, the others partial functions; a time
  is its nanoseconds since 1970.
\<close>

section \<open>Keys\<close>

record saveCacheKey =
  TransportName :: string
  QuestionName :: string
  KeyQType :: u16

abbreviation fakeipBucketPrefix :: string where
  "fakeipBucketPrefix \<equiv> ''fakeip_''"

definition bucketFakeIP :: bytes where
  "bucketFakeIP = str_bytes (fakeipBucketPrefix @ ''address'')"

definition bucketFakeIPDomain4 :: bytes where
  "bucketFakeIPDomain4 = str_bytes (fakeipBucketPrefix @ ''domain4'')"

definition bucketFakeIPDomain6 :: bytes where
  "bucketFakeIPDomain6 = str_bytes (fakeipBucketPrefix @ ''domain6'')"

definition keyMetadata :: bytes where
  "keyMetadata = str_bytes (fakeipBucketPrefix @ ''metadata'')"

definition bucketDNSCache :: bytes where
  "bucketDNSCache = str_bytes ''dns_cache''"

definition bucketRDRC :: bytes where
  "bucketRDRC = str_bytes ''rdrc2''"

section \<open>State\<close>

record pendingWrites =
  dnsCache :: "(saveCacheKey \<times> bytes) list"
  rdrc :: "(saveCacheKey \<times> unit) list"
  fakeIPDomain :: "(Addr \<times> string) list"
  fakeIPAddress4 :: "string \<Rightarrow> Addr option"
  fakeIPAddress6 :: "string \<Rightarrow> Addr option"
  fakeIPMetadata :: "FakeIPMetadata option"
  pendingCount :: int
  pendingSize :: int

definition newPendingWrites :: pendingWrites where
  "newPendingWrites =
     \<lparr>dnsCache = [], rdrc = [], fakeIPDomain = [], fakeIPAddress4 = Map.empty, fakeIPAddress6 = Map.empty,
      fakeIPMetadata = None, pendingCount = 0, pendingSize = 0\<rparr>"

record 'd CacheFile =
  cacheID :: "bytes option"
  cacheIDText :: string
  storeFakeIP :: bool
  storeRDRC :: bool
  storeDNS :: bool
  disableExpire :: bool
  rdrcTimeout :: int
  optimisticTimeout :: int
  bufferSize :: int
  flushInterval :: int
  DB :: 'd
  pending :: pendingWrites
  writing :: "pendingWrites option"
  flushTimer :: bool
  flushSignal :: bool

record CacheFileOptions =
  CacheID :: string
  StoreFakeIP :: bool
  StoreDNS :: bool
  BufferSize :: int
  FlushInterval :: int
  StoreRDRC :: bool
  RDRCTimeout :: int

abbreviation defaultBufferSize :: int where
  "defaultBufferSize \<equiv> 1024 * 1024"

text \<open>A cache file made from its options, on the database it opened; the path of the file is not kept.\<close>

definition newCacheFile :: "CacheFileOptions \<Rightarrow> 'd \<Rightarrow> 'd CacheFile" where
  "newCacheFile options db =
     \<lparr>cacheID = (if CacheID options \<noteq> [] then Some (0 # str_bytes (CacheID options)) else None),
      cacheIDText = CacheID options, storeFakeIP = StoreFakeIP options, storeRDRC = StoreRDRC options,
      storeDNS = StoreDNS options, disableExpire = False,
      rdrcTimeout = (if StoreRDRC options
                     then if RDRCTimeout options \<le> 0 then 7 * 24 * 3600 * second else RDRCTimeout options
                     else 0),
      optimisticTimeout = 0,
      bufferSize = (if BufferSize options = 0 then defaultBufferSize else BufferSize options),
      flushInterval = FlushInterval options, DB = db, pending = newPendingWrites, writing = None,
      flushTimer = False, flushSignal = False\<rparr>"

text \<open>
  What a flush meets at run time: how its transaction ends, the time, and the
  order in which the maps are iterated over.
\<close>

record flushRun =
  runOutcome :: tx_outcome
  runNow :: int
  runOrder :: "pendingWrites \<Rightarrow> pendingWrites"

definition enqueueLocked :: "'d CacheFile \<Rightarrow> bool \<Rightarrow> int \<Rightarrow> 'd CacheFile" where
  "enqueueLocked c added sizeDelta =
     (let c1 = (if added then
                  let c0 = c\<lparr>pending := (pending c)\<lparr>pendingCount := pendingCount (pending c) + 1\<rparr>\<rparr> in
                  if pendingCount (pending c0) = 1 \<and> flushInterval c > 0 then c0\<lparr>flushTimer := True\<rparr> else c0
                else c);
          c2 = c1\<lparr>pending := (pending c1)\<lparr>pendingSize := pendingSize (pending c1) + sizeDelta\<rparr>\<rparr>
      in if pendingSize (pending c2) \<ge> bufferSize c then c2\<lparr>flushSignal := True\<rparr> else c2)"

section \<open>Writing to the database\<close>

definition createBucketPath :: "'d bolt \<Rightarrow> 'd CacheFile \<Rightarrow> bytes \<Rightarrow> 'd \<Rightarrow> (bucket_path \<times> 'd) option" where
  "createBucketPath B c key db =
     (case cacheID c of
        None \<Rightarrow> map_option (Pair [key]) (dbCreate B db [key])
      | Some cid \<Rightarrow>
          (case dbCreate B db [cid] of
             None \<Rightarrow> None
           | Some db1 \<Rightarrow> map_option (Pair [cid, key]) (dbCreate B db1 [cid, key])))"

definition bucketPath :: "'d bolt \<Rightarrow> 'd CacheFile \<Rightarrow> bytes \<Rightarrow> bucket_path option" where
  "bucketPath B c key =
     (case cacheID c of
        None \<Rightarrow> if dbHas B (DB c) [key] then Some [key] else None
      | Some cid \<Rightarrow>
          if \<not> dbHas B (DB c) [cid] then None
          else if dbHas B (DB c) [cid, key] then Some [cid, key] else None)"

definition cacheKeyBytes :: "saveCacheKey \<Rightarrow> bytes" where
  "cacheKeyBytes key = be_bytes 2 (unat (KeyQType key)) @ str_bytes (QuestionName key)"

definition putCacheEntry :: "'d bolt \<Rightarrow> bucket_path \<Rightarrow> saveCacheKey \<Rightarrow> bytes \<Rightarrow> 'd \<Rightarrow> 'd option" where
  "putCacheEntry B path key value db =
     (let transport = path @ [str_bytes (TransportName key)] in
      case dbCreate B db transport of
        None \<Rightarrow> None
      | Some db1 \<Rightarrow> dbPut B db1 transport (cacheKeyBytes key) value)"

definition getCacheEntry :: "'d bolt \<Rightarrow> 'd \<Rightarrow> bucket_path \<Rightarrow> saveCacheKey \<Rightarrow> bytes option" where
  "getCacheEntry B db path key =
     (let transport = path @ [str_bytes (TransportName key)] in
      if \<not> dbHas B db transport then None else dbGet B db transport (cacheKeyBytes key))"

definition putFakeIPMetadata :: "'d bolt \<Rightarrow> FakeIPMetadata \<Rightarrow> 'd \<Rightarrow> 'd option" where
  "putFakeIPMetadata B metadata db =
     (case dbCreate B db [bucketFakeIP] of
        None \<Rightarrow> None
      | Some db1 \<Rightarrow> dbPut B db1 [bucketFakeIP] keyMetadata (FakeIPMetadata_MarshalBinary metadata))"

definition domainBucket :: "Addr \<Rightarrow> bucket_path" where
  "domainBucket address = (if Is4 address then [bucketFakeIPDomain4] else [bucketFakeIPDomain6])"

definition putFakeIP :: "'d bolt \<Rightarrow> Addr \<Rightarrow> string \<Rightarrow> 'd \<Rightarrow> 'd option" where
  "putFakeIP B address domain db =
     (case dbCreate B db [bucketFakeIP] of
        None \<Rightarrow> None
      | Some db1 \<Rightarrow>
          (let addressBytes = AsSlice address; oldDomain = dbGet B db1 [bucketFakeIP] addressBytes in
           case dbPut B db1 [bucketFakeIP] addressBytes (str_bytes domain) of
             None \<Rightarrow> None
           | Some db2 \<Rightarrow>
               (case dbCreate B db2 (domainBucket address) of
                  None \<Rightarrow> None
                | Some db3 \<Rightarrow>
                    (case (case oldDomain of
                             Some old \<Rightarrow>
                               if dbGet B db3 (domainBucket address) old = Some addressBytes
                               then dbDelete B db3 (domainBucket address) old else Some db3
                           | None \<Rightarrow> Some db3) of
                       None \<Rightarrow> None
                     | Some db4 \<Rightarrow> dbPut B db4 (domainBucket address) (str_bytes domain) addressBytes))))"

fun foldTx :: "('x \<Rightarrow> 'd \<Rightarrow> 'd option) \<Rightarrow> 'x list \<Rightarrow> 'd \<Rightarrow> 'd option" where
  "foldTx f [] db = Some db"
| "foldTx f (x # xs) db = (case f x db of None \<Rightarrow> None | Some db' \<Rightarrow> foldTx f xs db')"

definition writeDNSCache :: "'d bolt \<Rightarrow> 'd CacheFile \<Rightarrow> (saveCacheKey \<times> bytes) list \<Rightarrow> 'd \<Rightarrow> 'd option" where
  "writeDNSCache B c entries db =
     (if entries = [] then Some db
      else (case createBucketPath B c bucketDNSCache db of
              None \<Rightarrow> None
            | Some (path, db1) \<Rightarrow> foldTx (\<lambda>(key, value). putCacheEntry B path key value) entries db1))"

definition writeRDRC :: "'d bolt \<Rightarrow> 'd CacheFile \<Rightarrow> int \<Rightarrow> (saveCacheKey \<times> unit) list \<Rightarrow> 'd \<Rightarrow> 'd option" where
  "writeRDRC B c now keys db =
     (if keys = [] then Some db
      else (case createBucketPath B c bucketRDRC db of
              None \<Rightarrow> None
            | Some (path, db1) \<Rightarrow>
                (let expiresAt = be_int64 (timeUnix (now + rdrcTimeout c)) in
                 foldTx (\<lambda>(key, _). putCacheEntry B path key expiresAt) keys db1)))"

definition writePending :: "'d bolt \<Rightarrow> 'd CacheFile \<Rightarrow> int \<Rightarrow> pendingWrites \<Rightarrow> 'd \<Rightarrow> 'd option" where
  "writePending B c now p db =
     (case writeDNSCache B c (dnsCache p) db of
        None \<Rightarrow> None
      | Some db1 \<Rightarrow>
          (case writeRDRC B c now (rdrc p) db1 of
             None \<Rightarrow> None
           | Some db2 \<Rightarrow>
               (case foldTx (\<lambda>(address, domain). putFakeIP B address domain) (fakeIPDomain p) db2 of
                  None \<Rightarrow> None
                | Some db3 \<Rightarrow>
                    (case fakeIPMetadata p of
                       None \<Rightarrow> Some db3
                     | Some metadata \<Rightarrow> putFakeIPMetadata B metadata db3))))"

section \<open>Flush\<close>

definition fakeIPAddress :: "pendingWrites \<Rightarrow> string \<Rightarrow> bool \<Rightarrow> Addr option" where
  "fakeIPAddress p domain isIPv6 = (if isIPv6 then fakeIPAddress6 p domain else fakeIPAddress4 p domain)"

definition setAddress :: "Addr \<Rightarrow> string \<Rightarrow> Addr \<Rightarrow> pendingWrites \<Rightarrow> pendingWrites" where
  "setAddress family domain value p =
     (if Is4 family then p\<lparr>fakeIPAddress4 := (fakeIPAddress4 p)(domain \<mapsto> value)\<rparr>
      else p\<lparr>fakeIPAddress6 := (fakeIPAddress6 p)(domain \<mapsto> value)\<rparr>)"

definition restoreDNS :: "saveCacheKey \<times> bytes \<Rightarrow> pendingWrites \<Rightarrow> pendingWrites" where
  "restoreDNS entry p =
     (case entry of (key, value) \<Rightarrow>
      if map_of (dnsCache p) key \<noteq> None then p
      else p\<lparr>dnsCache := AList.update key value (dnsCache p), pendingCount := pendingCount p + 1,
             pendingSize := pendingSize p + int (length (QuestionName key)) + int (length value)\<rparr>)"

definition restoreRDRC :: "saveCacheKey \<times> unit \<Rightarrow> pendingWrites \<Rightarrow> pendingWrites" where
  "restoreRDRC entry p =
     (case entry of (key, _) \<Rightarrow>
      if map_of (rdrc p) key \<noteq> None then p
      else p\<lparr>rdrc := AList.update key () (rdrc p), pendingCount := pendingCount p + 1,
             pendingSize := pendingSize p + int (length (QuestionName key))\<rparr>)"

definition restoreFakeIP :: "Addr \<times> string \<Rightarrow> pendingWrites \<Rightarrow> pendingWrites" where
  "restoreFakeIP entry p =
     (case entry of (address, domain) \<Rightarrow>
      if map_of (fakeIPDomain p) address \<noteq> None then p
      else if fakeIPAddress p domain (Is6 address) \<noteq> None then p
      else setAddress address domain address
             (p\<lparr>fakeIPDomain := AList.update address domain (fakeIPDomain p), pendingCount := pendingCount p + 1,
                pendingSize := pendingSize p + int (length domain)\<rparr>))"

definition restoreMetadata :: "FakeIPMetadata option \<Rightarrow> pendingWrites \<Rightarrow> pendingWrites" where
  "restoreMetadata m p =
     (if fakeIPMetadata p = None \<and> m \<noteq> None
      then p\<lparr>fakeIPMetadata := m, pendingCount := pendingCount p + 1\<rparr> else p)"

definition restorePendingLocked :: "pendingWrites \<Rightarrow> 'd CacheFile \<Rightarrow> 'd CacheFile" where
  "restorePendingLocked w c =
     (let wasEmpty = pendingCount (pending c) = 0;
          p1 = fold restoreDNS (dnsCache w) (pending c);
          p2 = fold restoreRDRC (rdrc w) p1;
          p3 = fold restoreFakeIP (fakeIPDomain w) p2;
          p4 = restoreMetadata (fakeIPMetadata w) p3;
          c' = c\<lparr>pending := p4\<rparr>
      in if wasEmpty \<and> pendingCount p4 > 0 \<and> flushInterval c > 0 then c'\<lparr>flushTimer := True\<rparr> else c')"

text \<open>
  A flush in its three parts: taking the pending writes, writing them in a
  transaction, and taking them back where that failed. Between the parts other
  calls may add pending writes and read.
\<close>

definition Flush_begin :: "'d CacheFile \<Rightarrow> 'd CacheFile option" where
  "Flush_begin c =
     (if pendingCount (pending c) = 0 then None
      else Some (c\<lparr>writing := Some (pending c), pending := newPendingWrites\<rparr>))"

definition Flush_write :: "'d bolt \<Rightarrow> flushRun \<Rightarrow> 'd CacheFile \<Rightarrow> bool \<times> 'd CacheFile" where
  "Flush_write B r c =
     (case writing c of
        None \<Rightarrow> (True, c)
      | Some w \<Rightarrow>
          (let (ok, db) = dbUpdate B (runOutcome r) (DB c) (writePending B c (runNow r) (runOrder r w))
           in (ok, c\<lparr>DB := db\<rparr>)))"

definition Flush_end :: "flushRun \<Rightarrow> bool \<Rightarrow> 'd CacheFile \<Rightarrow> 'd CacheFile" where
  "Flush_end r ok c =
     (case writing c of
        None \<Rightarrow> c
      | Some w \<Rightarrow> (if ok then c else restorePendingLocked (runOrder r w) c)\<lparr>writing := None\<rparr>)"

definition Flush :: "'d bolt \<Rightarrow> flushRun \<Rightarrow> 'd CacheFile \<Rightarrow> 'd CacheFile" where
  "Flush B r c =
     (case Flush_begin c of
        None \<Rightarrow> c
      | Some c1 \<Rightarrow> let (ok, c2) = Flush_write B r c1 in Flush_end r ok c2)"

section \<open>FakeIP\<close>

text \<open>
  \<^verbatim>\<open>FakeIPMetadata\<close> reads the saved metadata. Metadata cut off inside a length
  make the decoder panic, which the transaction takes for a corrupted file.
\<close>

definition CacheFile_FakeIPMetadata :: "'d bolt \<Rightarrow> 'd CacheFile \<Rightarrow> FakeIPMetadata option \<times> 'd CacheFile" where
  "CacheFile_FakeIPMetadata B c =
     (if \<not> dbHas B (DB c) [bucketFakeIP] then (None, c)
      else (case dbGet B (DB c) [bucketFakeIP] keyMetadata of
              None \<Rightarrow> (None, c)
            | Some metadataBinary \<Rightarrow>
                if metadataBinary = [] then (None, c)
                else (case FakeIPMetadata_UnmarshalBinary metadataBinary of
                        Inr metadata \<Rightarrow> (Some metadata, c)
                      | Inl UnmarshalPanic \<Rightarrow> (None, c\<lparr>DB := dbEmpty B\<rparr>)
                      | Inl _ \<Rightarrow> (None, c))))"

definition FakeIPSaveMetadataAsync :: "'d CacheFile \<Rightarrow> FakeIPMetadata \<Rightarrow> 'd CacheFile" where
  "FakeIPSaveMetadataAsync c metadata =
     (let added = fakeIPMetadata (pending c) = None in
      enqueueLocked (c\<lparr>pending := (pending c)\<lparr>fakeIPMetadata := Some metadata\<rparr>\<rparr>) added 0)"

definition FakeIPSaveMetadata :: "'d bolt \<Rightarrow> flushRun \<Rightarrow> 'd CacheFile \<Rightarrow> FakeIPMetadata \<Rightarrow> bool \<times> 'd CacheFile" where
  "FakeIPSaveMetadata B r c metadata = (True, Flush B r (FakeIPSaveMetadataAsync c metadata))"

definition FakeIPLoad :: "'d bolt \<Rightarrow> 'd CacheFile \<Rightarrow> Addr \<Rightarrow> string option" where
  "FakeIPLoad B c address =
     (case map_of (fakeIPDomain (pending c)) address of
        Some domain \<Rightarrow> Some domain
      | None \<Rightarrow>
          (case Option.bind (writing c) (\<lambda>w. map_of (fakeIPDomain w) address) of
             Some domain \<Rightarrow> Some domain
           | None \<Rightarrow>
               if \<not> dbHas B (DB c) [bucketFakeIP] then None
               else (case dbGet B (DB c) [bucketFakeIP] (AsSlice address) of
                       None \<Rightarrow> None
                     | Some bs \<Rightarrow> if bs = [] then None else Some (bytes_str bs))))"

definition validAddress :: "Addr \<Rightarrow> Addr option" where
  "validAddress a = (if AddrIsValid a then Some a else None)"

definition FakeIPLoadDomain :: "'d bolt \<Rightarrow> (bytes \<Rightarrow> Addr) \<Rightarrow> 'd CacheFile \<Rightarrow> string \<Rightarrow> bool \<Rightarrow> Addr option" where
  "FakeIPLoadDomain B addrFromIP c domain isIPv6 =
     (case fakeIPAddress (pending c) domain isIPv6 of
        Some address \<Rightarrow> validAddress address
      | None \<Rightarrow>
          (case Option.bind (writing c) (\<lambda>w. fakeIPAddress w domain isIPv6) of
             Some address \<Rightarrow> validAddress address
           | None \<Rightarrow>
               (let bucket = (if isIPv6 then [bucketFakeIPDomain6] else [bucketFakeIPDomain4]) in
                if \<not> dbHas B (DB c) bucket then None
                else validAddress (addrFromIP (case dbGet B (DB c) bucket (str_bytes domain) of
                                                 None \<Rightarrow> [] | Some bs \<Rightarrow> bs)))))"

definition queueFakeIP :: "'d bolt \<Rightarrow> 'd CacheFile \<Rightarrow> Addr \<Rightarrow> string \<Rightarrow> 'd CacheFile" where
  "queueFakeIP B c address domain =
     (let pendingDomain = map_of (fakeIPDomain (pending c)) address;
          oldDomain = (case FakeIPLoad B c address of Some d \<Rightarrow> Some d | None \<Rightarrow> pendingDomain);
          p1 = (case oldDomain of
                  Some old \<Rightarrow> if old \<noteq> domain then setAddress address old AddrZero (pending c) else pending c
                | None \<Rightarrow> pending c);
          p2 = setAddress address domain address
                 (p1\<lparr>fakeIPDomain := AList.update address domain (fakeIPDomain p1)\<rparr>)
      in enqueueLocked (c\<lparr>pending := p2\<rparr>) (pendingDomain = None)
           (int (length domain) - (case pendingDomain of Some d \<Rightarrow> int (length d) | None \<Rightarrow> 0)))"

definition CacheFile_FakeIPStore :: "'d bolt \<Rightarrow> flushRun \<Rightarrow> 'd CacheFile \<Rightarrow> Addr \<Rightarrow> string \<Rightarrow> bool \<times> 'd CacheFile" where
  "CacheFile_FakeIPStore B r c address domain = (True, Flush B r (queueFakeIP B c address domain))"

definition deleteFakeIPBuckets :: "'d bolt \<Rightarrow> 'd \<Rightarrow> 'd option" where
  "deleteFakeIPBuckets B =
     foldTx (\<lambda>bucket db. case dbDeleteBucket B db [bucket] of
         Inr db' \<Rightarrow> Some db' | Inl ErrBucketNotFound \<Rightarrow> Some db | Inl _ \<Rightarrow> None)
       [bucketFakeIP, bucketFakeIPDomain4, bucketFakeIPDomain6]"

definition FakeIPReset :: "'d bolt \<Rightarrow> flushRun \<Rightarrow> 'd CacheFile \<Rightarrow> bool \<times> 'd CacheFile" where
  "FakeIPReset B r c =
     (let p = pending c;
          count1 = pendingCount p - int (length (fakeIPDomain p));
          size1 = pendingSize p - int (sum_list (map (length \<circ> snd) (fakeIPDomain p)));
          p' = p\<lparr>fakeIPDomain := [], fakeIPAddress4 := Map.empty, fakeIPAddress6 := Map.empty,
                 fakeIPMetadata := None,
                 pendingCount := (if fakeIPMetadata p \<noteq> None then count1 - 1 else count1),
                 pendingSize := size1\<rparr>;
          (ok, db) = dbUpdate B (runOutcome r) (DB c) (deleteFakeIPBuckets B)
      in (ok, c\<lparr>pending := p', DB := db\<rparr>))"

text \<open>The cache file as a storage of FakeIP pairs; each flush runs as \<open>r\<close> says.\<close>

definition cacheFileStorage :: "'d bolt \<Rightarrow> (bytes \<Rightarrow> Addr) \<Rightarrow> flushRun \<Rightarrow> 'd CacheFile FakeIPStorage" where
  "cacheFileStorage B addrFromIP r =
     \<lparr>stMetadata = CacheFile_FakeIPMetadata B, stSaveMetadata = FakeIPSaveMetadata B r,
      stSaveMetadataAsync = Some FakeIPSaveMetadataAsync, stStoreAsync = queueFakeIP B,
      stLoad = FakeIPLoad B, stLoadDomain = FakeIPLoadDomain B addrFromIP, stReset = FakeIPReset B r\<rparr>"

end
