(* ===== verification/CacheLayers.thy ===== *)
theory CacheLayers
  imports CacheFile
begin

text \<open>
  Pending FakeIP writes as a layer over a base of pairs: what reading through
  the layer gives, when layer and base fit together, and what writing the
  layer into the base leads to. The base is the database, or another layer over it.
\<close>

section \<open>Pairs\<close>

type_synonym loads = "Addr \<Rightarrow> string option"
type_synonym loadDomains = "string \<Rightarrow> bool \<Rightarrow> Addr option"

text \<open>An address the database keeps apart from every other one: no zone and not a mapped one.\<close>

definition plain :: "Addr \<Rightarrow> bool" where
  "plain a \<longleftrightarrow> AddrIsValid a \<and> \<not> hasZone a \<and> \<not> Is4In6 a"

definition matched :: "loads \<Rightarrow> loadDomains \<Rightarrow> bool" where
  "matched L D \<longleftrightarrow>
     (\<forall>d v a. D d v = Some a \<longrightarrow> plain a \<and> v = (\<not> Is4 a) \<and> L a = Some d) \<and>
     (\<forall>a d. plain a \<longrightarrow> L a = Some d \<longrightarrow> D d (\<not> Is4 a) = Some a)"

lemma matchedD:
  assumes "matched L D"
  shows "D d v = Some a \<Longrightarrow> plain a" "D d v = Some a \<Longrightarrow> v = (\<not> Is4 a)" "D d v = Some a \<Longrightarrow> L a = Some d"
    "plain a \<Longrightarrow> L a = Some d \<Longrightarrow> D d (\<not> Is4 a) = Some a"
  using assms unfolding matched_def by blast+

section \<open>Layers\<close>

definition layerLoad :: "pendingWrites \<Rightarrow> loads \<Rightarrow> loads" where
  "layerLoad p L a = (case map_of (fakeIPDomain p) a of Some d \<Rightarrow> Some d | None \<Rightarrow> L a)"

definition layerDomain :: "pendingWrites \<Rightarrow> loadDomains \<Rightarrow> loadDomains" where
  "layerDomain p D d v = (case fakeIPAddress p d v of Some a \<Rightarrow> validAddress a | None \<Rightarrow> D d v)"

text \<open>
  A layer fits its base when its two maps agree, and it says something about
  exactly those domains whose address it gives away or that it names.
\<close>

definition wf_layer :: "(string \<Rightarrow> bool) \<Rightarrow> pendingWrites \<Rightarrow> loadDomains \<Rightarrow> bool" where
  "wf_layer ok p D \<longleftrightarrow>
     distinct (map fst (fakeIPDomain p)) \<and>
     (\<forall>a d. map_of (fakeIPDomain p) a = Some d \<longrightarrow> plain a \<and> ok d \<and> fakeIPAddress p d (\<not> Is4 a) = Some a) \<and>
     (\<forall>d v a. fakeIPAddress p d v = Some a \<longrightarrow> a = AddrZero \<or> v = (\<not> Is4 a) \<and> map_of (fakeIPDomain p) a = Some d) \<and>
     (\<forall>d v a. fakeIPAddress p d v \<noteq> None \<longrightarrow> D d v = Some a \<longrightarrow> map_of (fakeIPDomain p) a \<noteq> None) \<and>
     (\<forall>d v a. D d v = Some a \<longrightarrow> map_of (fakeIPDomain p) a \<noteq> None \<longrightarrow> fakeIPAddress p d v \<noteq> None)"

lemma wf_layerD:
  assumes "wf_layer ok p D"
  shows "distinct (map fst (fakeIPDomain p))"
    "map_of (fakeIPDomain p) a = Some d \<Longrightarrow> plain a"
    "map_of (fakeIPDomain p) a = Some d \<Longrightarrow> ok d"
    "map_of (fakeIPDomain p) a = Some d \<Longrightarrow> fakeIPAddress p d (\<not> Is4 a) = Some a"
    "fakeIPAddress p d v = Some a \<Longrightarrow> a = AddrZero \<or> v = (\<not> Is4 a) \<and> map_of (fakeIPDomain p) a = Some d"
    "fakeIPAddress p d v \<noteq> None \<Longrightarrow> D d v = Some a \<Longrightarrow> map_of (fakeIPDomain p) a \<noteq> None"
    "D d v = Some a \<Longrightarrow> map_of (fakeIPDomain p) a \<noteq> None \<Longrightarrow> fakeIPAddress p d v \<noteq> None"
  using assms unfolding wf_layer_def by blast+

lemma wf_layer_nothing: "wf_layer ok p D \<Longrightarrow> wf_layer ok p (\<lambda>_ _. None)"
  unfolding wf_layer_def by (elim conjE, intro conjI; (assumption | simp))

lemma validAddress_Some: "validAddress a = Some b \<longleftrightarrow> a = b \<and> AddrIsValid b"
  by (auto simp: validAddress_def)

lemma layer_matched:
  assumes m: "matched L D" and w: "wf_layer ok p D"
  shows "matched (layerLoad p L) (layerDomain p D)"
  unfolding matched_def
proof (intro conjI allI impI)
  fix d v a assume l: "layerDomain p D d v = Some a"
  have "plain a \<and> v = (\<not> Is4 a) \<and> layerLoad p L a = Some d"
  proof (cases "fakeIPAddress p d v")
    case None
    with l have D: "D d v = Some a" by (simp add: layerDomain_def)
    then have "map_of (fakeIPDomain p) a = None" using wf_layerD(7) [OF w] None by blast
    then show ?thesis using matchedD [OF m] D by (auto simp: layerLoad_def)
  next
    case (Some b)
    with l have "b = a" "AddrIsValid a" by (auto simp: layerDomain_def validAddress_Some)
    with Some have "v = (\<not> Is4 a)" "map_of (fakeIPDomain p) a = Some d"
      using wf_layerD(5) [OF w, of d v b] by auto
    then show ?thesis using wf_layerD(2) [OF w] by (auto simp: layerLoad_def)
  qed
  then show "plain a" "v = (\<not> Is4 a)" "layerLoad p L a = Some d" by blast+
next
  fix a d assume a: "plain a" "layerLoad p L a = Some d"
  show "layerDomain p D d (\<not> Is4 a) = Some a"
  proof (cases "map_of (fakeIPDomain p) a")
    case None
    with a have D: "D d (\<not> Is4 a) = Some a" using matchedD(4) [OF m] by (simp add: layerLoad_def)
    then have "fakeIPAddress p d (\<not> Is4 a) = None" using wf_layerD(6) [OF w] None by blast
    then show ?thesis using D by (simp add: layerDomain_def)
  next
    case (Some e)
    with a have "e = d" by (simp add: layerLoad_def)
    then show ?thesis
      using wf_layerD(4) [OF w] Some a(1) by (simp add: layerDomain_def validAddress_def plain_def)
  qed
qed

lemma layer_cong: "(\<And>d v. D d v = D' d v) \<Longrightarrow> wf_layer ok p D = wf_layer ok p D'"
  by (simp add: wf_layer_def)

lemma wf_layer_empty: "wf_layer ok newPendingWrites D"
  by (simp add: wf_layer_def newPendingWrites_def fakeIPAddress_def)

lemma layer_empty [simp]: "layerLoad newPendingWrites L = L" "layerDomain newPendingWrites D = D"
  by (simp_all add: layerLoad_def layerDomain_def newPendingWrites_def fakeIPAddress_def fun_eq_iff)

section \<open>A pair is added\<close>

text \<open>The pending writes after a pair is queued whose address had the domain \<open>old\<close>.\<close>

definition addPair :: "Addr \<Rightarrow> string \<Rightarrow> string option \<Rightarrow> pendingWrites \<Rightarrow> pendingWrites" where
  "addPair a d old p =
     (let p1 = (case old of Some e \<Rightarrow> if e \<noteq> d then setAddress a e AddrZero p else p | None \<Rightarrow> p)
      in setAddress a d a (p1\<lparr>fakeIPDomain := AList.update a d (fakeIPDomain p1)\<rparr>))"

lemma addPair_domain: "fakeIPDomain (addPair a d old p) = AList.update a d (fakeIPDomain p)"
  by (auto simp: addPair_def setAddress_def split: option.splits)

lemma addPair_address:
  "fakeIPAddress (addPair a d old p) e v =
     (if v = (\<not> Is4 a) then if e = d then Some a else if old = Some e then Some AddrZero else fakeIPAddress p e v
      else fakeIPAddress p e v)"
  by (auto simp: addPair_def setAddress_def fakeIPAddress_def split: option.splits)

lemma addPair_view:
  assumes "AddrIsValid a"
  shows "layerLoad (addPair a d old p) L b = (if b = a then Some d else layerLoad p L b)"
    "layerDomain (addPair a d old p) D e v =
       (if v = (\<not> Is4 a) then if e = d then Some a else if old = Some e then None else layerDomain p D e v
        else layerDomain p D e v)"
  using assms
  by (auto simp: layerLoad_def layerDomain_def addPair_domain addPair_address AList.update_conv' validAddress_def
      split: option.splits)

lemma wf_addPair:
  assumes m: "matched L D" and w: "wf_layer ok p D" and a: "plain a" and d: "ok d"
    and new: "layerDomain p D d (\<not> Is4 a) = None" and old: "old = layerLoad p L a"
  shows "wf_layer ok (addPair a d old p) D"
proof -
  let ?p = "addPair a d old p" and ?v = "\<not> Is4 a"
  note view = layer_matched [OF m w]
  have old_d: "old \<noteq> Some d" using matchedD(4) [OF view a] new old by auto
  have dom: "map_of (fakeIPDomain ?p) = (map_of (fakeIPDomain p))(a \<mapsto> d)"
    by (simp add: addPair_domain AList.update_conv')
  have named: "fakeIPAddress p e (\<not> Is4 b) = Some b" "plain b" "ok e" if "map_of (fakeIPDomain p) b = Some e" for b e
    using wf_layerD [OF w] that by blast+
  have kept: "fakeIPAddress ?p e (\<not> Is4 b) = Some b" if b: "b \<noteq> a" "map_of (fakeIPDomain p) b = Some e" for b e
  proof -
    have l: "layerDomain p D e (\<not> Is4 b) = Some b"
      using named [OF b(2)] by (simp add: layerDomain_def validAddress_def plain_def)
    then have "e = d \<Longrightarrow> Is4 b \<noteq> Is4 a" using new by (cases "Is4 a"; cases "Is4 b") auto
    moreover have "old = Some e \<Longrightarrow> Is4 b \<noteq> Is4 a" using matchedD(4) [OF view a] old l b(1)
      by (cases "Is4 a"; cases "Is4 b") auto
    ultimately show ?thesis using named [OF b(2)] by (auto simp: addPair_address)
  qed
  have agree: "x = AddrZero \<or> v = (\<not> Is4 x) \<and> map_of (fakeIPDomain ?p) x = Some e"
    if x: "fakeIPAddress ?p e v = Some x" for e v x
  proof (cases "v = ?v \<and> (e = d \<or> old = Some e)")
    case True
    then show ?thesis using x by (auto simp: addPair_address dom split: if_splits)
  next
    case False
    then have px: "fakeIPAddress p e v = Some x" using x by (auto simp: addPair_address split: if_splits)
    have "x \<noteq> a" if "x \<noteq> AddrZero"
    proof
      assume "x = a"
      then have "layerLoad p L a = Some e" "v = ?v" using wf_layerD(5) [OF w px] that by (auto simp: layerLoad_def)
      then show False using False old by simp
    qed
    then show ?thesis using wf_layerD(5) [OF w px] by (auto simp: dom)
  qed
  have taken: "map_of (fakeIPDomain ?p) x \<noteq> None" if x: "fakeIPAddress ?p e v \<noteq> None" "D e v = Some x" for e v x
  proof (cases "fakeIPAddress p e v")
    case None
    then have l: "layerDomain p D e v = Some x" using x(2) by (simp add: layerDomain_def)
    have "v = ?v" and "e = d \<or> old = Some e" using x(1) None by (auto simp: addPair_address split: if_splits)
    then have "x = a" using l new old matchedD(4) [OF view a] by auto
    then show ?thesis by (simp add: dom)
  next
    case Some
    then show ?thesis using wf_layerD(6) [OF w, of e v x] x(2) by (auto simp: dom)
  qed
  have said: "fakeIPAddress ?p e v \<noteq> None" if x: "D e v = Some x" "map_of (fakeIPDomain ?p) x \<noteq> None" for e v x
  proof (cases "map_of (fakeIPDomain p) x")
    case None
    then have "x = a" using x(2) by (auto simp: dom split: if_splits)
    then have "old = Some e" "v = ?v" using None x(1) matchedD [OF m] old by (auto simp: layerLoad_def)
    then show ?thesis by (simp add: addPair_address)
  next
    case Some
    then have "fakeIPAddress p e v \<noteq> None" using wf_layerD(7) [OF w x(1)] by simp
    then show ?thesis by (auto simp: addPair_address)
  qed
  have "fakeIPAddress ?p e (\<not> Is4 b) = Some b \<and> plain b \<and> ok e" if "map_of (fakeIPDomain ?p) b = Some e" for b e
    using that kept [of b e] named [of b e] a d by (cases "b = a") (auto simp: dom addPair_address)
  then show ?thesis
    using agree taken said wf_layerD(1) [OF w] unfolding wf_layer_def
    by (auto simp: addPair_domain distinct_update)
qed

end
