(* ===== verification/CacheFakeIP.thy ===== *)
theory CacheFakeIP
  imports CacheLayers "HOL-Library.Multiset"
begin

text \<open>
  The FakeIP pairs of the cache file: what writing pairs does to the database,
  that a flush is invisible to the readers, and that the cache file keeps the
  contract of a FakeIP storage.
\<close>

section \<open>Pairs in the database\<close>

definition domainPath :: "bool \<Rightarrow> bucket_path" where
  "domainPath v = (if v then [bucketFakeIPDomain6] else [bucketFakeIPDomain4])"

definition dbLoad :: "'d bolt \<Rightarrow> 'd \<Rightarrow> loads" where
  "dbLoad B db a =
     (case dbGet B db [bucketFakeIP] (AsSlice a) of
        None \<Rightarrow> None | Some bs \<Rightarrow> if bs = [] then None else Some (bytes_str bs))"

definition dbLoadDomain :: "'d bolt \<Rightarrow> (bytes \<Rightarrow> Addr) \<Rightarrow> 'd \<Rightarrow> loadDomains" where
  "dbLoadDomain B ip db d v =
     (case dbGet B db (domainPath v) (str_bytes d) of None \<Rightarrow> None | Some bs \<Rightarrow> validAddress (ip bs))"

text \<open>
  What the code relies on of \<^verbatim>\<open>metadata.AddrFromIP\<close>: it reads back the bytes of an
  address, and gives no address for no bytes.
\<close>

definition addrFromIP_laws :: "(bytes \<Rightarrow> Addr) \<Rightarrow> bool" where
  "addrFromIP_laws ip \<longleftrightarrow> (\<forall>a. plain a \<longrightarrow> ip (AsSlice a) = a) \<and> \<not> AddrIsValid (ip [])"

text \<open>Domains the database can use as keys.\<close>

definition keyDomain :: "string \<Rightarrow> bool" where
  "keyDomain d \<longleftrightarrow> d \<noteq> [] \<and> length d \<le> 32768"

definition fakeip_shape :: "'d bolt \<Rightarrow> 'd \<Rightarrow> bool" where
  "fakeip_shape B db \<longleftrightarrow>
     (\<forall>v k bs. dbGet B db (domainPath v) k = Some bs \<longrightarrow> (\<exists>a. plain a \<and> v = (\<not> Is4 a) \<and> bs = AsSlice a)) \<and>
     (\<forall>a bs. plain a \<longrightarrow> dbGet B db [bucketFakeIP] (AsSlice a) = Some bs \<longrightarrow> bs \<noteq> []) \<and>
     (\<forall>k. \<not> dbHas B db [bucketFakeIP, k] \<and> \<not> dbHas B db [bucketFakeIPDomain4, k] \<and> \<not> dbHas B db [bucketFakeIPDomain6, k])"

lemma bucket_names [simp]:
  "bucketFakeIP \<noteq> []" "bucketFakeIPDomain4 \<noteq> []" "bucketFakeIPDomain6 \<noteq> []"
  "bucketFakeIP \<noteq> bucketFakeIPDomain4" "bucketFakeIP \<noteq> bucketFakeIPDomain6" "bucketFakeIPDomain4 \<noteq> bucketFakeIPDomain6"
  "bucketFakeIPDomain4 \<noteq> bucketFakeIP" "bucketFakeIPDomain6 \<noteq> bucketFakeIP" "bucketFakeIPDomain6 \<noteq> bucketFakeIPDomain4"
  by (auto simp: bucketFakeIP_def bucketFakeIPDomain4_def bucketFakeIPDomain6_def)

lemma domainPath_simps [simp]:
  "domainPath v \<noteq> [bucketFakeIP]" "[bucketFakeIP] \<noteq> domainPath v" "domainPath v = domainPath w \<longleftrightarrow> v = w"
  by (auto simp: domainPath_def)

lemma domainBucket_path: "domainBucket a = domainPath (\<not> Is4 a)"
  by (simp add: domainBucket_def domainPath_def)

lemma FakeIPLoad_db:
  "bolt_laws B \<Longrightarrow> (if \<not> dbHas B db [bucketFakeIP] then None
      else case dbGet B db [bucketFakeIP] (AsSlice a) of None \<Rightarrow> None | Some bs \<Rightarrow> if bs = [] then None else Some (bytes_str bs))
    = dbLoad B db a"
  by (auto simp: dbLoad_def bolt_laws_def bucket_laws_def)

lemma FakeIPLoad_layers:
  assumes "bolt_laws B"
  shows "FakeIPLoad B c =
     layerLoad (pending c) (case writing c of None \<Rightarrow> dbLoad B (DB c) | Some w \<Rightarrow> layerLoad w (dbLoad B (DB c)))"
  unfolding FakeIPLoad_def FakeIPLoad_db [OF assms]
  by (auto simp: layerLoad_def fun_eq_iff split: option.splits)

lemma FakeIPLoadDomain_layers:
  assumes "bolt_laws B" "addrFromIP_laws ip"
  shows "FakeIPLoadDomain B ip c =
     layerDomain (pending c) (case writing c of None \<Rightarrow> dbLoadDomain B ip (DB c)
        | Some w \<Rightarrow> layerDomain w (dbLoadDomain B ip (DB c)))"
proof -
  have db: "(if \<not> dbHas B (DB c) (domainPath v) then None
         else validAddress (ip (case dbGet B (DB c) (domainPath v) (str_bytes d) of None \<Rightarrow> [] | Some bs \<Rightarrow> bs)))
      = dbLoadDomain B ip (DB c) d v" for d v
    using assms by (auto simp: dbLoadDomain_def addrFromIP_laws_def bolt_laws_def bucket_laws_def validAddress_def
        split: option.splits)
  show ?thesis
    unfolding FakeIPLoadDomain_def domainPath_def [symmetric] Let_def db
    by (auto simp: layerDomain_def fun_eq_iff split: option.splits)
qed

lemma AsSlice_inj:
  assumes "plain a" "plain b"
  shows "AsSlice a = AsSlice b \<longleftrightarrow> a = b"
proof
  assume eq: "AsSlice a = AsSlice b"
  have len: "length (AsSlice x) = (if Is4 x then 4 else 16)" if "plain x" for x
    using that by (cases x) (auto simp: plain_def)
  have fam: "Is4 a = Is4 b" using len [OF assms(1)] len [OF assms(2)] eq by (auto split: if_splits)
  have u: "be_uint (AsSlice x) = (case x of Addr4 u \<Rightarrow> unat u | Addr6 u _ \<Rightarrow> unat u | AddrInvalid u \<Rightarrow> 0)" for x
  proof (cases x)
    case (Addr6 u z)
    then show ?thesis using unat_u128_less [of u] by (simp add: be_uint_be_bytes)
  qed simp_all
  have "be_uint (AsSlice a) = be_uint (AsSlice b)" using eq by simp
  then show "a = b"
    using fam assms unfolding u by (cases a; cases b) (simp_all add: plain_def unsigned_word_eqI)
qed simp

lemma AsSlice_length: "plain a \<Longrightarrow> length (AsSlice a) = 4 \<or> length (AsSlice a) = 16"
  by (cases a) (auto simp: plain_def)

lemma AsSlice_key [simp]: "plain a \<Longrightarrow> validKey (AsSlice a) \<and> validValue (AsSlice a) \<and> AsSlice a \<noteq> keyMetadata"
  using AsSlice_length [of a]
  by (auto simp: validKey_def validValue_def keyMetadata_def)

lemma dbLoadDomain_iff:
  assumes "fakeip_shape B db" "addrFromIP_laws ip" "plain a"
  shows "dbLoadDomain B ip db d v = Some a \<longleftrightarrow>
     v = (\<not> Is4 a) \<and> dbGet B db (domainPath v) (str_bytes d) = Some (AsSlice a)"
proof -
  have ip: "ip (AsSlice b) = b" if "plain b" for b using that assms(2) by (simp add: addrFromIP_laws_def)
  show ?thesis
  proof (cases "dbGet B db (domainPath v) (str_bytes d)")
    case None
    then show ?thesis by (simp add: dbLoadDomain_def)
  next
    case (Some bs)
    then obtain b where b: "plain b" "v = (\<not> Is4 b)" "bs = AsSlice b"
      using assms(1) unfolding fakeip_shape_def by blast
    then have "dbLoadDomain B ip db d v = Some b"
      using Some ip by (simp add: dbLoadDomain_def validAddress_def plain_def)
    then show ?thesis using Some b AsSlice_inj [OF b(1) assms(3)] by auto
  qed
qed

text \<open>Paths the writing of pairs leaves alone.\<close>

definition fakeipPaths :: "bucket_path set" where
  "fakeipPaths = {[bucketFakeIP], [bucketFakeIPDomain4], [bucketFakeIPDomain6]}"

lemma fakeipPaths_simps [simp]: "[bucketFakeIP] \<in> fakeipPaths" "domainPath v \<in> fakeipPaths"
  by (simp_all add: fakeipPaths_def domainPath_def)

definition untouched :: "'d bolt \<Rightarrow> bucket_path set \<Rightarrow> 'd \<Rightarrow> 'd \<Rightarrow> bool" where
  "untouched B ps db db' \<longleftrightarrow>
     (\<forall>q. q \<notin> ps \<longrightarrow> dbHas B db' q = dbHas B db q \<and> (\<forall>k. dbGet B db' q k = dbGet B db q k))"

lemma fakeip_shapeD:
  assumes "fakeip_shape B db"
  shows "dbGet B db (domainPath v) k = Some bs \<Longrightarrow> \<exists>a. plain a \<and> v = (\<not> Is4 a) \<and> bs = AsSlice a"
    "plain a \<Longrightarrow> dbGet B db [bucketFakeIP] (AsSlice a) = Some bs \<Longrightarrow> bs \<noteq> []"
    "\<not> dbHas B db (domainPath v @ [k])" "\<not> dbHas B db [bucketFakeIP, k]"
  using assms unfolding fakeip_shape_def domainPath_def by auto

text \<open>One pair written: both directions are set and the old domain loses the address.\<close>

lemma putFakeIP_raw:
  assumes B: "bolt_laws B" and db: "fakeip_shape B db" and a: "plain a" and d: "keyDomain d"
  defines "v \<equiv> \<not> Is4 a" and "x \<equiv> AsSlice a"
  obtains db' where "putFakeIP B a d db = Some db'" "untouched B fakeipPaths db db'"
    "\<And>q. dbHas B db' q \<longleftrightarrow> q = [bucketFakeIP] \<or> q = domainPath v \<or> dbHas B db q"
    "\<And>k. dbGet B db' [bucketFakeIP] k = (if k = x then Some (str_bytes d) else dbGet B db [bucketFakeIP] k)"
    "\<And>w k. dbGet B db' (domainPath w) k =
       (if w = v \<and> k = str_bytes d then Some x
        else if w = v \<and> dbGet B db [bucketFakeIP] x = Some k \<and> dbGet B db (domainPath w) k = Some x then None
        else dbGet B db (domainPath w) k)"
proof -
  have key: "validKey (str_bytes d)" "validValue (str_bytes d)" "validKey x" "validValue x"
    using d AsSlice_key [OF a] by (auto simp: keyDomain_def validKey_def validValue_def x_def)
  obtain db1 where 1: "dbCreate B db [bucketFakeIP] = Some db1" using bolt_bucket(4) [OF B bucket_names(1)] by blast
  note h1 = bolt_bucket(6,7) [OF B 1]
  obtain db2 where 2: "dbPut B db1 [bucketFakeIP] x (str_bytes d) = Some db2"
    using bolt_key(2) [OF B _ _ key(3,2), of db1 "[bucketFakeIP]"] h1 fakeip_shapeD(4) [OF db] by auto
  note h2 = bolt_key(3,4) [OF B 2]
  obtain db3 where 3: "dbCreate B db2 (domainPath v) = Some db3"
    using bolt_bucket(4) [OF B bucket_names(2)] bolt_bucket(4) [OF B bucket_names(3)]
    unfolding domainPath_def by metis
  note h3 = bolt_bucket(6,7) [OF B 3]
  have nested: "\<not> dbHas B db3 (domainPath v @ [k])" for k
    using fakeip_shapeD(3) [OF db, of v k] by (auto simp: h3 h2 h1 domainPath_def)
  have get3: "dbGet B db3 q k = (if q = [bucketFakeIP] \<and> k = x then Some (str_bytes d) else dbGet B db q k)" for q k
    by (simp add: h3 h2 h1)
  have has3: "dbHas B db3 q \<longleftrightarrow> q = domainPath v \<or> q = [bucketFakeIP] \<or> dbHas B db q" for q
    by (simp add: h3 h2 h1)
  define step where "step = (case dbGet B db [bucketFakeIP] x of
      Some old \<Rightarrow> if dbGet B db3 (domainPath v) old = Some x then dbDelete B db3 (domainPath v) old else Some db3
    | None \<Rightarrow> Some db3)"
  have "\<exists>db4. step = Some db4 \<and> (\<forall>q. dbHas B db4 q = dbHas B db3 q) \<and>
      (\<forall>q k. dbGet B db4 q k = (if q = domainPath v \<and> dbGet B db [bucketFakeIP] x = Some k \<and>
         dbGet B db3 q k = Some x then None else dbGet B db3 q k))"
  proof (cases "\<exists>old. dbGet B db [bucketFakeIP] x = Some old \<and> dbGet B db3 (domainPath v) old = Some x")
    case True
    then obtain old where old: "dbGet B db [bucketFakeIP] x = Some old" "dbGet B db3 (domainPath v) old = Some x" by blast
    obtain db4 where 4: "dbDelete B db3 (domainPath v) old = Some db4"
      using bolt_key(5) [OF B _ nested] has3 by blast
    then show ?thesis using old bolt_key(6,7) [OF B 4] by (intro exI [of _ db4]) (auto simp: step_def)
  next
    case False
    then show ?thesis by (intro exI [of _ db3]) (auto simp: step_def split: option.splits)
  qed
  then obtain db4 where 4: "step = Some db4" and has4: "\<And>q. dbHas B db4 q = dbHas B db3 q"
    and get4: "\<And>q k. dbGet B db4 q k = (if q = domainPath v \<and> dbGet B db [bucketFakeIP] x = Some k \<and>
         dbGet B db3 q k = Some x then None else dbGet B db3 q k)" by blast
  obtain db5 where 5: "dbPut B db4 (domainPath v) (str_bytes d) x = Some db5"
    using bolt_key(2) [OF B _ _ key(1,4), of db4 "domainPath v"] has4 has3 nested by auto
  note h5 = bolt_key(3,4) [OF B 5]
  have run: "putFakeIP B a d db = Some db5"
    using 1 2 3 4 5 h1(2)
    by (auto simp: putFakeIP_def domainBucket_path Let_def x_def [symmetric] v_def [symmetric] step_def split: option.splits)
  show ?thesis
  proof (rule that [OF run])
    show "dbHas B db5 q \<longleftrightarrow> q = [bucketFakeIP] \<or> q = domainPath v \<or> dbHas B db q" for q
      by (auto simp: h5 has4 has3)
    show "untouched B fakeipPaths db db5" by (auto simp: untouched_def h5 has4 has3 get4 get3)
  qed (auto simp: h5 get4 get3)
qed

lemma putFakeIP_view:
  assumes B: "bolt_laws B" and ip: "addrFromIP_laws ip" and db: "fakeip_shape B db" and a: "plain a" and d: "keyDomain d"
  obtains db' where "putFakeIP B a d db = Some db'" "fakeip_shape B db'" "untouched B fakeipPaths db db'"
    "dbGet B db' [bucketFakeIP] keyMetadata = dbGet B db [bucketFakeIP] keyMetadata"
    "\<And>b. plain b \<Longrightarrow> dbLoad B db' b = (if b = a then Some d else dbLoad B db b)"
    "\<And>e w. dbLoadDomain B ip db' e w =
       (if w = (\<not> Is4 a) \<and> e = d then Some a
        else if w = (\<not> Is4 a) \<and> dbLoad B db a = Some e \<and> dbLoadDomain B ip db e w = Some a then None
        else dbLoadDomain B ip db e w)"
proof -
  let ?v = "\<not> Is4 a"
  obtain db' where run: "putFakeIP B a d db = Some db'" "untouched B fakeipPaths db db'"
    and has: "\<And>q. dbHas B db' q \<longleftrightarrow> q = [bucketFakeIP] \<or> q = domainPath ?v \<or> dbHas B db q"
    and addr: "\<And>k. dbGet B db' [bucketFakeIP] k = (if k = AsSlice a then Some (str_bytes d) else dbGet B db [bucketFakeIP] k)"
    and dom: "\<And>w k. dbGet B db' (domainPath w) k =
       (if w = ?v \<and> k = str_bytes d then Some (AsSlice a)
        else if w = ?v \<and> dbGet B db [bucketFakeIP] (AsSlice a) = Some k \<and> dbGet B db (domainPath w) k = Some (AsSlice a) then None
        else dbGet B db (domainPath w) k)"
    by (rule putFakeIP_raw [OF B db a d]; rule that)
  have d_ne: "str_bytes d \<noteq> []" using d by (simp add: keyDomain_def)
  have shape: "fakeip_shape B db'"
    unfolding fakeip_shape_def
  proof (intro conjI allI impI)
    show "\<exists>b. plain b \<and> v = (\<not> Is4 b) \<and> bs = AsSlice b" if "dbGet B db' (domainPath v) k = Some bs" for v k bs
      using that a fakeip_shapeD(1) [OF db, of v k bs] by (auto simp: dom split: if_splits)
    show "bs \<noteq> []" if "plain b" "dbGet B db' [bucketFakeIP] (AsSlice b) = Some bs" for b bs
      using that d_ne fakeip_shapeD(2) [OF db, of b bs] by (auto simp: addr split: if_splits)
    show "\<not> dbHas B db' [bucketFakeIP, k]" "\<not> dbHas B db' [bucketFakeIPDomain4, k]" "\<not> dbHas B db' [bucketFakeIPDomain6, k]" for k
      using db by (auto simp: has domainPath_def fakeip_shape_def)
  qed
  have load: "dbLoad B db a = Some e \<longleftrightarrow> dbGet B db [bucketFakeIP] (AsSlice a) = Some (str_bytes e)" for e
    using fakeip_shapeD(2) [OF db a]
    by (auto simp: dbLoad_def split: option.splits)
  show ?thesis
  proof (rule that [OF run(1) shape run(2)])
    show "dbGet B db' [bucketFakeIP] keyMetadata = dbGet B db [bucketFakeIP] keyMetadata"
      using AsSlice_key [OF a] by (auto simp: addr)
    show "dbLoad B db' b = (if b = a then Some d else dbLoad B db b)" if "plain b" for b
      using AsSlice_inj [OF that a] d_ne by (auto simp: dbLoad_def addr)
    show "dbLoadDomain B ip db' e w =
       (if w = ?v \<and> e = d then Some a
        else if w = ?v \<and> dbLoad B db a = Some e \<and> dbLoadDomain B ip db e w = Some a then None
        else dbLoadDomain B ip db e w)" for e w
    proof -
      have "validAddress (ip (AsSlice a)) = Some a"
        using ip a by (simp add: addrFromIP_laws_def validAddress_def plain_def)
      moreover have "dbLoadDomain B ip db e w = Some a \<longleftrightarrow> w = ?v \<and> dbGet B db (domainPath w) (str_bytes e) = Some (AsSlice a)"
        by (rule dbLoadDomain_iff [OF db ip a])
      ultimately show ?thesis by (auto simp: dbLoadDomain_def [of B ip db'] dom load) (auto simp: dbLoadDomain_def)
    qed
  qed
qed

lemma foldTx_append: "foldTx f (xs @ ys) db = Option.bind (foldTx f xs db) (foldTx f ys)"
  by (induction xs arbitrary: db) (auto split: option.splits)

lemma untouched_refl: "untouched B ps db db"
  by (simp add: untouched_def)

lemma untouched_trans: "untouched B ps db db1 \<Longrightarrow> untouched B ps db1 db2 \<Longrightarrow> untouched B ps db db2"
  by (auto simp: untouched_def)

text \<open>
  All pairs of a layer written, in any order: the database then gives what
  reading through the layer gave.
\<close>

lemma putAll:
  assumes B: "bolt_laws B" and ip: "addrFromIP_laws ip" and db: "fakeip_shape B db"
    and m: "matched (dbLoad B db) (dbLoadDomain B ip db)"
    and es: "distinct (map fst es)" "\<forall>(a, d) \<in> set es. plain a \<and> keyDomain d"
    and inj: "\<forall>(a, d) \<in> set es. \<forall>(b, e) \<in> set es. d = e \<and> Is4 a = Is4 b \<longrightarrow> a = b"
  shows "\<exists>db'. foldTx (\<lambda>(a, d). putFakeIP B a d) es db = Some db' \<and> fakeip_shape B db' \<and>
    untouched B fakeipPaths db db' \<and>
    dbGet B db' [bucketFakeIP] keyMetadata = dbGet B db [bucketFakeIP] keyMetadata \<and>
    (\<forall>b. plain b \<longrightarrow> dbLoad B db' b = (case map_of es b of Some d \<Rightarrow> Some d | None \<Rightarrow> dbLoad B db b)) \<and>
    (\<forall>a d. (a, d) \<in> set es \<longrightarrow> dbLoadDomain B ip db' d (\<not> Is4 a) = Some a) \<and>
    (\<forall>d v. (\<forall>a. (a, d) \<in> set es \<longrightarrow> v \<noteq> (\<not> Is4 a)) \<longrightarrow> dbLoadDomain B ip db' d v =
       (case dbLoadDomain B ip db d v of
          Some x \<Rightarrow> if x \<in> fst ` set es then None else Some x | None \<Rightarrow> None))"
  using es inj
proof (induction es rule: rev_induct)
  case Nil
  then show ?case using db by (auto simp: untouched_refl split: option.splits)
next
  case (snoc x es)
  obtain a d where x: "x = (a, d)" by (cases x)
  have a: "plain a" "keyDomain d" "a \<notin> fst ` set es" "map_of es a = None"
    using snoc.prems x by (auto simp: map_of_eq_None_iff)
  have before: "distinct (map fst es)" "\<forall>(a, d) \<in> set es. plain a \<and> keyDomain d"
    "\<forall>(a, d) \<in> set es. \<forall>(b, e) \<in> set es. d = e \<and> Is4 a = Is4 b \<longrightarrow> a = b"
    using snoc.prems by (simp_all add: split_beta)
  obtain db1 where run1: "foldTx (\<lambda>(a, d). putFakeIP B a d) es db = Some db1" and shape1: "fakeip_shape B db1"
    and frame1: "untouched B fakeipPaths db db1" "dbGet B db1 [bucketFakeIP] keyMetadata = dbGet B db [bucketFakeIP] keyMetadata"
    and load1: "\<And>b. plain b \<Longrightarrow> dbLoad B db1 b = (case map_of es b of Some d \<Rightarrow> Some d | None \<Rightarrow> dbLoad B db b)"
    and in1: "\<And>a d. (a, d) \<in> set es \<Longrightarrow> dbLoadDomain B ip db1 d (\<not> Is4 a) = Some a"
    and out1: "\<And>d v. (\<And>a. (a, d) \<in> set es \<Longrightarrow> v \<noteq> (\<not> Is4 a)) \<Longrightarrow> dbLoadDomain B ip db1 d v =
       (case dbLoadDomain B ip db d v of Some x \<Rightarrow> if x \<in> fst ` set es then None else Some x | None \<Rightarrow> None)"
    using snoc.IH [OF before] by blast
  obtain db2 where run2: "putFakeIP B a d db1 = Some db2" and shape2: "fakeip_shape B db2"
    and frame2: "untouched B fakeipPaths db1 db2" "dbGet B db2 [bucketFakeIP] keyMetadata = dbGet B db1 [bucketFakeIP] keyMetadata"
    and load2: "\<And>b. plain b \<Longrightarrow> dbLoad B db2 b = (if b = a then Some d else dbLoad B db1 b)"
    and dom2: "\<And>e w. dbLoadDomain B ip db2 e w =
       (if w = (\<not> Is4 a) \<and> e = d then Some a
        else if w = (\<not> Is4 a) \<and> dbLoad B db1 a = Some e \<and> dbLoadDomain B ip db1 e w = Some a then None
        else dbLoadDomain B ip db1 e w)"
    by (rule putFakeIP_view [OF B ip shape1 a(1,2)]; rule that)
  have old: "dbLoad B db1 a = dbLoad B db a" using load1 [OF a(1)] a(4) by simp
  have inside: "dbLoadDomain B ip db2 e (\<not> Is4 b) = Some b" if "(b, e) \<in> set (es @ [x])" for b e
  proof (cases "(b, e) \<in> set es")
    case True
    then have "b \<noteq> a" using a(3) by force
    moreover have "\<not> (e = d \<and> Is4 b = Is4 a)" using snoc.prems(3) True x \<open>b \<noteq> a\<close> by fastforce
    ultimately show ?thesis using in1 [OF True] by (auto simp: dom2)
  next
    case False
    then show ?thesis using that x by (auto simp: dom2)
  qed
  have outside: "dbLoadDomain B ip db2 e v =
      (case dbLoadDomain B ip db e v of Some y \<Rightarrow> if y \<in> fst ` set (es @ [x]) then None else Some y | None \<Rightarrow> None)"
    if n: "\<And>b. (b, e) \<in> set (es @ [x]) \<Longrightarrow> v \<noteq> (\<not> Is4 b)" for e v
  proof -
    have 1: "dbLoadDomain B ip db1 e v =
       (case dbLoadDomain B ip db e v of Some x \<Rightarrow> if x \<in> fst ` set es then None else Some x | None \<Rightarrow> None)"
      using n by (intro out1) auto
    have "\<not> (v = (\<not> Is4 a) \<and> e = d)" using n x by auto
    moreover have "dbLoad B db a = Some e" "v = (\<not> Is4 a)" if "dbLoadDomain B ip db e v = Some a"
      using matchedD(2,3) [OF m] that by auto
    ultimately show ?thesis using 1 x by (auto simp: dom2 old split: option.splits if_splits)
  qed
  have load: "dbLoad B db2 b = (case map_of (es @ [x]) b of Some d \<Rightarrow> Some d | None \<Rightarrow> dbLoad B db b)" if "plain b" for b
    using load1 [OF that] load2 [OF that] a(4) x by (auto simp: map_add_def split: option.splits)
  have run: "foldTx (\<lambda>(a, d). putFakeIP B a d) (es @ [x]) db = Some db2"
    using run1 run2 x by (simp add: foldTx_append)
  show ?case
    by (rule exI [of _ db2], intro conjI allI impI)
      (use run shape2 untouched_trans [OF frame1(1) frame2(1)] trans [OF frame2(2) frame1(2)]
         load inside outside in blast)+
qed

lemma layer_inj:
  assumes "wf_layer ok p D" "(a, d) \<in> set (fakeIPDomain p)" "(b, d) \<in> set (fakeIPDomain p)" "Is4 a = Is4 b"
  shows "a = b"
proof -
  have "map_of (fakeIPDomain p) a = Some d" "map_of (fakeIPDomain p) b = Some d"
    using assms(2,3) wf_layerD(1) [OF assms(1)] by simp_all
  then have a: "fakeIPAddress p d (\<not> Is4 a) = Some a" and b: "fakeIPAddress p d (\<not> Is4 b) = Some b"
    using wf_layerD(4) [OF assms(1)] by blast+
  have "fakeIPAddress p d (\<not> Is4 b) = Some a" using a unfolding assms(4) .
  with b show ?thesis by (metis option.inject)
qed

lemma putLayer:
  assumes B: "bolt_laws B" and ip: "addrFromIP_laws ip" and db: "fakeip_shape B db"
    and m: "matched (dbLoad B db) (dbLoadDomain B ip db)"
    and w: "wf_layer keyDomain p (dbLoadDomain B ip db)" and es: "mset es = mset (fakeIPDomain p)"
  obtains db' where "foldTx (\<lambda>(a, d). putFakeIP B a d) es db = Some db'" "fakeip_shape B db'"
    "untouched B fakeipPaths db db'"
    "dbGet B db' [bucketFakeIP] keyMetadata = dbGet B db [bucketFakeIP] keyMetadata"
    "\<And>b. plain b \<Longrightarrow> dbLoad B db' b = layerLoad p (dbLoad B db) b"
    "dbLoadDomain B ip db' = layerDomain p (dbLoadDomain B ip db)"
proof -
  let ?D = "dbLoadDomain B ip db" and ?dom = "map_of (fakeIPDomain p)"
  have set: "set es = set (fakeIPDomain p)" using es by (metis set_mset_mset)
  have "mset (map fst es) = mset (map fst (fakeIPDomain p))" using es by simp
  then have dist: "distinct (map fst es)" using wf_layerD(1) [OF w] mset_eq_imp_distinct_iff by blast
  have mo: "map_of es = ?dom" using map_of_inject_set [OF dist wf_layerD(1) [OF w]] set by simp
  have entry: "(a, d) \<in> set es \<longleftrightarrow> ?dom a = Some d" for a d using set wf_layerD(1) [OF w] by simp
  have good: "\<forall>(a, d) \<in> set es. plain a \<and> keyDomain d" using entry wf_layerD(2,3) [OF w] by auto
  have inj: "\<forall>(a, d) \<in> set es. \<forall>(b, e) \<in> set es. d = e \<and> Is4 a = Is4 b \<longrightarrow> a = b"
    using layer_inj [OF w] set by fastforce
  obtain db' where r: "foldTx (\<lambda>(a, d). putFakeIP B a d) es db = Some db'" "fakeip_shape B db'"
    "untouched B fakeipPaths db db'"
    "dbGet B db' [bucketFakeIP] keyMetadata = dbGet B db [bucketFakeIP] keyMetadata"
    and load: "\<And>b. plain b \<Longrightarrow> dbLoad B db' b = (case map_of es b of Some d \<Rightarrow> Some d | None \<Rightarrow> dbLoad B db b)"
    and inside: "\<And>a d. (a, d) \<in> set es \<Longrightarrow> dbLoadDomain B ip db' d (\<not> Is4 a) = Some a"
    and outside: "\<And>d v. (\<And>a. (a, d) \<in> set es \<Longrightarrow> v \<noteq> (\<not> Is4 a)) \<Longrightarrow> dbLoadDomain B ip db' d v =
       (case ?D d v of Some x \<Rightarrow> if x \<in> fst ` set es then None else Some x | None \<Rightarrow> None)"
    using putAll [OF B ip db m dist good inj] by blast
  have named: "fakeIPAddress p d v = Some a \<and> a \<noteq> AddrZero" if "(a, d) \<in> set es" "v = (\<not> Is4 a)" for a d v
    using that entry wf_layerD(2,4) [OF w, of a d] by (auto simp: plain_def)
  have keys: "x \<in> fst ` set es \<longleftrightarrow> ?dom x \<noteq> None" for x using mo by (metis map_of_eq_None_iff)
  have "dbLoadDomain B ip db' d v = layerDomain p ?D d v" for d v
  proof (cases "fakeIPAddress p d v")
    case None
    have "dbLoadDomain B ip db' d v =
       (case ?D d v of Some x \<Rightarrow> if x \<in> fst ` set es then None else Some x | None \<Rightarrow> None)"
      using named None by (intro outside) fastforce
    then show ?thesis
      using None wf_layerD(7) [OF w, of d v] keys by (auto simp: layerDomain_def split: option.splits)
  next
    case (Some a)
    show ?thesis
    proof (cases "a = AddrZero")
      case True
      have "dbLoadDomain B ip db' d v =
         (case ?D d v of Some x \<Rightarrow> if x \<in> fst ` set es then None else Some x | None \<Rightarrow> None)"
        using named Some True by (intro outside) fastforce
      then show ?thesis
        using Some True wf_layerD(6) [OF w, of d v] keys
        by (auto simp: layerDomain_def validAddress_def split: option.splits)
    next
      case False
      then have "v = (\<not> Is4 a)" "(a, d) \<in> set es" using wf_layerD(5) [OF w Some] entry by auto
      then show ?thesis
        using inside Some good by (auto simp: layerDomain_def validAddress_def plain_def)
    qed
  qed
  then have "dbLoadDomain B ip db' = layerDomain p ?D" by (intro ext)
  then show ?thesis using that r load by (auto simp: layerLoad_def mo)
qed

end
