(* ===== verification/CacheWrite.thy ===== *)
theory CacheWrite
  imports CacheFakeIP
begin

text \<open>
  Writing pending entries: the DNS and rejection entries under the bucket of
  their transport, and all pending writes together in one transaction.
\<close>

section \<open>Entries of transports\<close>

definition cachePath :: "'d CacheFile \<Rightarrow> bytes \<Rightarrow> bucket_path" where
  "cachePath c key = (case cacheID c of None \<Rightarrow> [key] | Some cid \<Rightarrow> [cid, key])"

text \<open>A cache identifier is stored with a zero byte before it, so it names no other bucket.\<close>

definition proper_id :: "'d CacheFile \<Rightarrow> bool" where
  "proper_id c \<longleftrightarrow> (\<forall>cid. cacheID c = Some cid \<longrightarrow> cid \<noteq> [] \<and> hd cid = 0)"

definition cache_shape :: "'d bolt \<Rightarrow> 'd CacheFile \<Rightarrow> bytes \<Rightarrow> 'd \<Rightarrow> bool" where
  "cache_shape B c key db \<longleftrightarrow>
     (\<forall>cid. cacheID c = Some cid \<longrightarrow> dbGet B db [cid] key = None) \<and>
     (\<forall>cid. cacheID c = Some cid \<longrightarrow> dbHas B db (cachePath c key) \<longrightarrow> dbHas B db [cid]) \<and>
     (\<forall>t. dbHas B db (cachePath c key @ [t]) \<longrightarrow> dbHas B db (cachePath c key)) \<and>
     (\<forall>t. dbGet B db (cachePath c key) t = None) \<and> (\<forall>t k. \<not> dbHas B db (cachePath c key @ [t, k]))"

definition keyed :: "saveCacheKey \<Rightarrow> bool" where
  "keyed key \<longleftrightarrow> TransportName key \<noteq> [] \<and> length (QuestionName key) \<le> 32766"

definition entryOf :: "'d bolt \<Rightarrow> 'd CacheFile \<Rightarrow> bytes \<Rightarrow> 'd \<Rightarrow> saveCacheKey \<Rightarrow> bytes option" where
  "entryOf B c bucket db key = dbGet B db (cachePath c bucket @ [str_bytes (TransportName key)]) (cacheKeyBytes key)"

lemma getCacheEntry_entryOf:
  "bolt_laws B \<Longrightarrow> getCacheEntry B db (cachePath c bucket) key = entryOf B c bucket db key"
  using bolt_bucket(2) [of B db "cachePath c bucket @ [str_bytes (TransportName key)]" "cacheKeyBytes key"]
  by (auto simp: getCacheEntry_def entryOf_def Let_def)

lemma be_bytes2_inj: "be_bytes 2 (unat x) = be_bytes 2 (unat y) \<longleftrightarrow> x = y" for x y :: u16
proof
  assume "be_bytes 2 (unat x) = be_bytes 2 (unat y)"
  then have "be_uint (be_bytes 2 (unat x)) = be_uint (be_bytes 2 (unat y))" by simp
  moreover have "unat z < 65536" for z :: u16 using unsigned_less [of z, where ?'a = nat] by simp
  ultimately have "unat x = unat y" by (simp add: be_uint_be_bytes)
  then show "x = y" by (rule unsigned_word_eqI)
qed simp

lemma cacheKeyBytes_inj:
  "TransportName k = TransportName l \<Longrightarrow> cacheKeyBytes k = cacheKeyBytes l \<longleftrightarrow> k = l"
  by (auto simp: cacheKeyBytes_def be_bytes2_inj append_eq_append_conv)

lemma cacheKeyBytes_valid: "keyed k \<Longrightarrow> validKey (cacheKeyBytes k)"
  by (auto simp: keyed_def validKey_def cacheKeyBytes_def dest: arg_cong [where f = length])

definition transportPaths :: "'d CacheFile \<Rightarrow> bytes \<Rightarrow> bucket_path set" where
  "transportPaths c bucket = {cachePath c bucket @ [t] | t. True}"

lemma putCacheEntry_ok:
  assumes B: "bolt_laws B" and has: "dbHas B db (cachePath c bucket)" and shape: "cache_shape B c bucket db"
    and k: "keyed key" and v: "validValue value"
  obtains db' where "putCacheEntry B (cachePath c bucket) key value db = Some db'"
    "dbHas B db' (cachePath c bucket)" "cache_shape B c bucket db'" "untouched B (transportPaths c bucket) db db'"
    "\<And>q. dbHas B db q \<Longrightarrow> dbHas B db' q"
    "\<And>l. entryOf B c bucket db' l = (if l = key then Some value else entryOf B c bucket db l)"
proof -
  let ?p = "cachePath c bucket" and ?t = "str_bytes (TransportName key)"
  have p: "?p \<noteq> []" "?t \<noteq> []" using k by (auto simp: cachePath_def keyed_def split: option.splits)
  have free: "dbGet B db ?p t = None" "\<not> dbHas B db (?p @ [t, j])" for t j
    using shape by (auto simp: cache_shape_def)
  obtain db1 where 1: "dbCreate B db (?p @ [?t]) = Some db1"
    using bolt_bucket(5) [OF B p(2,1) has free(1)] by blast
  note h1 = bolt_bucket(6,7) [OF B 1]
  obtain db2 where 2: "dbPut B db1 (?p @ [?t]) (cacheKeyBytes key) value = Some db2"
    using bolt_key(2) [OF B _ _ cacheKeyBytes_valid [OF k] v, of db1 "?p @ [?t]"] h1 free(2) by auto
  note h2 = bolt_key(3,4) [OF B 2]
  show ?thesis
  proof (rule that [of db2])
    show "putCacheEntry B ?p key value db = Some db2" using 1 2 by (simp add: putCacheEntry_def Let_def)
    show "dbHas B db2 ?p" using has by (simp add: h2 h1)
    show "cache_shape B c bucket db2" using shape has by (auto simp: cache_shape_def h2 h1 cachePath_def split: option.splits)
    show "untouched B (transportPaths c bucket) db db2" by (auto simp: untouched_def transportPaths_def h2 h1)
    show "dbHas B db2 q" if "dbHas B db q" for q using that by (simp add: h2 h1)
    show "entryOf B c bucket db2 l = (if l = key then Some value else entryOf B c bucket db l)" for l
      using cacheKeyBytes_inj [of l key] by (auto simp: entryOf_def h2 h1)
  qed
qed

lemma putCacheEntries_ok:
  assumes B: "bolt_laws B" and "dbHas B db (cachePath c bucket)" "cache_shape B c bucket db"
    and "\<forall>(key, value) \<in> set es. keyed key \<and> validValue (f value)" "distinct (map fst es)"
  shows "\<exists>db'. foldTx (\<lambda>(key, value). putCacheEntry B (cachePath c bucket) key (f value)) es db = Some db' \<and>
    cache_shape B c bucket db' \<and> untouched B (transportPaths c bucket) db db' \<and>
    (\<forall>q. dbHas B db q \<longrightarrow> dbHas B db' q) \<and>
    (\<forall>l. entryOf B c bucket db' l = (case map_of es l of Some v \<Rightarrow> Some (f v) | None \<Rightarrow> entryOf B c bucket db l))"
  using assms(2-)
proof (induction es arbitrary: db)
  case Nil
  then show ?case by (simp add: untouched_refl)
next
  case (Cons e es)
  obtain key vl where e: "e = (key, vl)" by (cases e)
  have good: "keyed key" "validValue (f vl)" and new: "map_of es key = None"
    using Cons.prems e by (auto simp: map_of_eq_None_iff)
  obtain db1 where 1: "putCacheEntry B (cachePath c bucket) key (f vl) db = Some db1"
    "dbHas B db1 (cachePath c bucket)" "cache_shape B c bucket db1" "untouched B (transportPaths c bucket) db db1"
    "\<And>q. dbHas B db q \<Longrightarrow> dbHas B db1 q" "\<And>l. entryOf B c bucket db1 l = (if l = key then Some (f vl) else entryOf B c bucket db l)"
    by (rule putCacheEntry_ok [OF B Cons.prems(1,2) good]; rule that)
  have rest: "\<forall>(key, value) \<in> set es. keyed key \<and> validValue (f value)" "distinct (map fst es)"
    using Cons.prems by auto
  obtain db2 where 2: "foldTx (\<lambda>(key, value). putCacheEntry B (cachePath c bucket) key (f value)) es db1 = Some db2"
    "cache_shape B c bucket db2" "untouched B (transportPaths c bucket) db1 db2"
    "\<And>q. dbHas B db1 q \<Longrightarrow> dbHas B db2 q" "\<And>l. entryOf B c bucket db2 l = (case map_of es l of Some v \<Rightarrow> Some (f v) | None \<Rightarrow> entryOf B c bucket db1 l)"
    using Cons.IH [OF 1(2,3) rest] by blast
  show ?case
    using 1(1) 2 untouched_trans [OF 1(4) 2(3)] 1(5,6) new e
    by (intro exI [of _ db2]) (auto split: option.splits)
qed

definition bucketRoots :: "'d CacheFile \<Rightarrow> bytes \<Rightarrow> bucket_path set" where
  "bucketRoots c bucket = insert (cachePath c bucket) (case cacheID c of None \<Rightarrow> {} | Some cid \<Rightarrow> {[cid]})"

lemma createBucketPath_ok:
  assumes B: "bolt_laws B" and id: "proper_id c" and b: "bucket \<noteq> []" and shape: "cache_shape B c bucket db"
  obtains db' where "createBucketPath B c bucket db = Some (cachePath c bucket, db')"
    "dbHas B db' (cachePath c bucket)" "cache_shape B c bucket db'"
    "\<And>q k. dbGet B db' q k = dbGet B db q k" "\<And>q. dbHas B db' q \<longleftrightarrow> q \<in> bucketRoots c bucket \<or> dbHas B db q"
proof (cases "cacheID c")
  case None
  obtain db1 where 1: "dbCreate B db [bucket] = Some db1" using bolt_bucket(4) [OF B b] by blast
  show ?thesis
    using None 1 bolt_bucket(6,7) [OF B 1] shape
    by (intro that [of db1]) (auto simp: createBucketPath_def cachePath_def cache_shape_def bucketRoots_def)
next
  case (Some cid)
  then have cid: "cid \<noteq> []" using id by (simp add: proper_id_def)
  obtain db1 where 1: "dbCreate B db [cid] = Some db1" using bolt_bucket(4) [OF B cid] by blast
  note h1 = bolt_bucket(6,7) [OF B 1]
  have "dbGet B db1 [cid] bucket = None" using shape Some by (simp add: h1 cache_shape_def)
  then obtain db2 where 2: "dbCreate B db1 [cid, bucket] = Some db2"
    using bolt_bucket(5) [OF B b, of "[cid]" db1] h1 by auto
  show ?thesis
    using Some 1 2 h1 bolt_bucket(6,7) [OF B 2] shape
    by (intro that [of db2]) (auto simp: createBucketPath_def cachePath_def cache_shape_def bucketRoots_def)
qed

section \<open>All pending writes\<close>

text \<open>The order in which a map is iterated over is any order of its entries.\<close>

definition reorders :: "(pendingWrites \<Rightarrow> pendingWrites) \<Rightarrow> bool" where
  "reorders order \<longleftrightarrow> (\<forall>p. mset (dnsCache (order p)) = mset (dnsCache p) \<and> mset (rdrc (order p)) = mset (rdrc p) \<and>
     mset (fakeIPDomain (order p)) = mset (fakeIPDomain p) \<and> fakeIPMetadata (order p) = fakeIPMetadata p)"

lemma mset_alist:
  assumes "mset xs = mset ys" "distinct (map fst ys)"
  shows "distinct (map fst xs)" "map_of xs = map_of ys" "set xs = set ys"
proof -
  show set: "set xs = set ys" using assms(1) by (metis set_mset_mset)
  have "mset (map fst xs) = mset (map fst ys)" using assms(1) by simp
  then show d: "distinct (map fst xs)" using assms(2) mset_eq_imp_distinct_iff by blast
  show "map_of xs = map_of ys" using map_of_inject_set [OF d assms(2)] set by simp
qed

text \<open>Pending entries the database can take.\<close>

definition wf_entries :: "pendingWrites \<Rightarrow> bool" where
  "wf_entries p \<longleftrightarrow>
     distinct (map fst (dnsCache p)) \<and> (\<forall>(k, v) \<in> set (dnsCache p). keyed k \<and> validValue v \<and> 8 \<le> length v) \<and>
     distinct (map fst (rdrc p)) \<and> (\<forall>(k, v) \<in> set (rdrc p). keyed k) \<and>
     (\<forall>m. fakeIPMetadata p = Some m \<longrightarrow> plainMetadata m)"

definition db_shape :: "'d bolt \<Rightarrow> 'd CacheFile \<Rightarrow> 'd \<Rightarrow> bool" where
  "db_shape B c db \<longleftrightarrow> fakeip_shape B db \<and> cache_shape B c bucketDNSCache db \<and> cache_shape B c bucketRDRC db"

lemma cache_names [simp]:
  "bucketDNSCache \<noteq> []" "bucketRDRC \<noteq> []" "bucketDNSCache \<noteq> bucketRDRC" "bucketRDRC \<noteq> bucketDNSCache"
  by (auto simp: bucketDNSCache_def bucketRDRC_def)

lemma cache_fakeip_names [simp]:
  "bucketDNSCache \<noteq> bucketFakeIP" "bucketDNSCache \<noteq> bucketFakeIPDomain4" "bucketDNSCache \<noteq> bucketFakeIPDomain6"
  "bucketRDRC \<noteq> bucketFakeIP" "bucketRDRC \<noteq> bucketFakeIPDomain4" "bucketRDRC \<noteq> bucketFakeIPDomain6"
  by (auto simp: bucketDNSCache_def bucketRDRC_def bucketFakeIP_def bucketFakeIPDomain4_def bucketFakeIPDomain6_def)

lemmas cache_fakeip_names_sym [simp] = cache_fakeip_names [THEN not_sym]

lemma id_names:
  assumes "proper_id c" "cacheID c = Some cid"
  shows "cid \<noteq> bucketFakeIP" "cid \<noteq> bucketFakeIPDomain4" "cid \<noteq> bucketFakeIPDomain6"
    "cid \<noteq> bucketDNSCache" "cid \<noteq> bucketRDRC"
  using assms
  by (auto simp: proper_id_def bucketFakeIP_def bucketFakeIPDomain4_def bucketFakeIPDomain6_def bucketDNSCache_def
      bucketRDRC_def str_bytes_def)

text \<open>
  Writing entries under the path of one bucket: what it may create and change,
  and that it leaves the other buckets as they are.
\<close>

definition writesUnder :: "'d bolt \<Rightarrow> 'd CacheFile \<Rightarrow> bytes \<Rightarrow> 'd \<Rightarrow> 'd \<Rightarrow> bool" where
  "writesUnder B c bucket db db' \<longleftrightarrow>
     (\<forall>q. dbHas B db q \<longrightarrow> dbHas B db' q) \<and>
     (\<forall>q. q \<notin> bucketRoots c bucket \<union> transportPaths c bucket \<longrightarrow> dbHas B db' q = dbHas B db q) \<and>
     (\<forall>q k. q \<notin> transportPaths c bucket \<longrightarrow> dbGet B db' q k = dbGet B db q k)"

lemma writesUnder_refl: "writesUnder B c bucket db db"
  by (simp add: writesUnder_def)

lemma writesUnder_keeps:
  assumes w: "writesUnder B c bucket db db'" and id: "proper_id c"
    and b: "bucket \<in> {bucketDNSCache, bucketRDRC}" "other \<in> {bucketDNSCache, bucketRDRC}" "other \<noteq> bucket"
  shows "fakeip_shape B db \<Longrightarrow> fakeip_shape B db'" "dbLoad B db' = dbLoad B db" "dbLoadDomain B ip db' = dbLoadDomain B ip db"
    "cache_shape B c other db \<Longrightarrow> cache_shape B c other db'" "entryOf B c other db' = entryOf B c other db"
proof -
  note names = id_names [OF id]
  have far: "q \<notin> transportPaths c bucket \<and> q @ [k] \<notin> bucketRoots c bucket \<union> transportPaths c bucket"
    if "q \<in> fakeipPaths" for q k
    using that b(1) names
    by (auto simp: fakeipPaths_def transportPaths_def bucketRoots_def cachePath_def split: option.splits)
  have get: "dbGet B db' q k = dbGet B db q k" and has: "dbHas B db' (q @ [k]) = dbHas B db (q @ [k])"
    if "q \<in> fakeipPaths" for q k
    using far [OF that, of k] w unfolding writesUnder_def by blast+
  have has2: "dbHas B db' [b, k] = dbHas B db [b, k]" if "[b] \<in> fakeipPaths" for b k
    using has [OF that, of k] by simp
  show "fakeip_shape B db'" if "fakeip_shape B db"
    using that get [of "domainPath _"] get [of "[bucketFakeIP]"] has2
    unfolding fakeip_shape_def by (simp add: fakeipPaths_def domainPath_def)
  show "dbLoad B db' = dbLoad B db" using get [of "[bucketFakeIP]"] by (simp add: dbLoad_def fun_eq_iff)
  show "dbLoadDomain B ip db' = dbLoadDomain B ip db" using get by (simp add: dbLoadDomain_def fun_eq_iff)
  have apart: "q \<notin> transportPaths c bucket" if "q = cachePath c other \<or> q = cachePath c other @ [t] \<or> (\<exists>cid. cacheID c = Some cid \<and> q = [cid])" for q t
    using that b names by (auto simp: transportPaths_def bucketRoots_def cachePath_def split: option.splits)
  have sep: "q \<notin> bucketRoots c bucket \<union> transportPaths c bucket"
    if "q = cachePath c other \<or> q = cachePath c other @ [t] \<or> q = cachePath c other @ [t, k]" for q t k
    using that b names by (auto simp: transportPaths_def bucketRoots_def cachePath_def split: option.splits)
  have has_other: "dbHas B db' (cachePath c other) = dbHas B db (cachePath c other)"
    "dbHas B db' (cachePath c other @ [t]) = dbHas B db (cachePath c other @ [t])"
    "dbHas B db' (cachePath c other @ [t, k]) = dbHas B db (cachePath c other @ [t, k])" for t k
    using w sep unfolding writesUnder_def by blast+
  have get_other: "dbGet B db' (cachePath c other) k = dbGet B db (cachePath c other) k"
    "cacheID c = Some cid \<Longrightarrow> dbGet B db' [cid] k = dbGet B db [cid] k" for k cid
    using w apart unfolding writesUnder_def by blast+
  have "dbHas B db q \<Longrightarrow> dbHas B db' q" for q using w unfolding writesUnder_def by blast
  then show "cache_shape B c other db'" if "cache_shape B c other db"
    using that unfolding cache_shape_def by (simp add: has_other get_other)
  show "entryOf B c other db' = entryOf B c other db"
    using w apart unfolding entryOf_def writesUnder_def fun_eq_iff by blast
qed

lemma writeEntries_ok:
  assumes B: "bolt_laws B" and id: "proper_id c" and b: "bucket \<noteq> []" and shape: "cache_shape B c bucket db"
    and es: "\<forall>(key, value) \<in> set es. keyed key \<and> validValue (f value)" "distinct (map fst es)"
  defines "write \<equiv> if es = [] then Some db
      else (case createBucketPath B c bucket db of None \<Rightarrow> None
            | Some (path, db1) \<Rightarrow> foldTx (\<lambda>(key, value). putCacheEntry B path key (f value)) es db1)"
  obtains db' where "write = Some db'" "cache_shape B c bucket db'" "writesUnder B c bucket db db'"
    "\<And>l. entryOf B c bucket db' l = (case map_of es l of Some v \<Rightarrow> Some (f v) | None \<Rightarrow> entryOf B c bucket db l)"
proof (cases "es = []")
  case True
  then show ?thesis using that [of db] shape by (simp add: write_def writesUnder_refl)
next
  case False
  obtain db1 where 1: "createBucketPath B c bucket db = Some (cachePath c bucket, db1)"
    "dbHas B db1 (cachePath c bucket)" "cache_shape B c bucket db1"
    and get1: "\<And>q k. dbGet B db1 q k = dbGet B db q k"
    and has1: "\<And>q. dbHas B db1 q \<longleftrightarrow> q \<in> bucketRoots c bucket \<or> dbHas B db q"
    by (rule createBucketPath_ok [OF B id b shape]; rule that)
  obtain db2 where 2: "foldTx (\<lambda>(key, value). putCacheEntry B (cachePath c bucket) key (f value)) es db1 = Some db2"
    "cache_shape B c bucket db2" and un: "untouched B (transportPaths c bucket) db1 db2"
    and mono: "\<And>q. dbHas B db1 q \<Longrightarrow> dbHas B db2 q" and ent: "\<And>l. entryOf B c bucket db2 l = (case map_of es l of Some v \<Rightarrow> Some (f v) | None \<Rightarrow> entryOf B c bucket db1 l)"
    using putCacheEntries_ok [OF B 1(2,3) es] by blast
  have "writesUnder B c bucket db db2"
    using un mono get1 has1 unfolding writesUnder_def untouched_def by auto
  moreover have "entryOf B c bucket db1 = entryOf B c bucket db" by (simp add: entryOf_def get1 fun_eq_iff)
  moreover have "write = Some db2" using 1(1) 2(1) False by (simp add: write_def)
  ultimately show ?thesis using that 2(2) ent by presburger
qed

lemma untouched_fakeip:
  assumes u: "untouched B fakeipPaths db db'" and id: "proper_id c" and b: "bucket \<in> {bucketDNSCache, bucketRDRC}"
  shows "cache_shape B c bucket db \<Longrightarrow> cache_shape B c bucket db'" "entryOf B c bucket db' = entryOf B c bucket db"
proof -
  note names = id_names [OF id]
  have far: "cachePath c bucket \<notin> fakeipPaths" "cachePath c bucket @ [t] \<notin> fakeipPaths"
    "cachePath c bucket @ [t, k] \<notin> fakeipPaths" "cacheID c = Some cid \<Longrightarrow> [cid] \<notin> fakeipPaths" for t k cid
    using b names by (auto simp: fakeipPaths_def cachePath_def split: option.splits)
  show "cache_shape B c bucket db'" if "cache_shape B c bucket db"
    using that u far unfolding cache_shape_def untouched_def by auto
  show "entryOf B c bucket db' = entryOf B c bucket db"
    using u far(2) unfolding entryOf_def untouched_def fun_eq_iff by blast
qed

lemma metadata_length: "plainMetadata m \<Longrightarrow> validValue (FakeIPMetadata_MarshalBinary m)"
proof -
  assume m: "plainMetadata m"
  have a: "length (Addr_MarshalBinary a) \<le> 16" if "\<not> hasZone a" for a using that by (cases a) auto
  have "length (Prefix_MarshalBinary p) \<le> 17" for p
    using a [of "WithZone (PrefixAddr p) []"] by (cases "PrefixAddr p") (simp_all add: Prefix_MarshalBinary_def)
  then have "length (Prefix_MarshalBinary (Inet4Range m)) \<le> 17" "length (Prefix_MarshalBinary (Inet6Range m)) \<le> 17"
    "length (Addr_MarshalBinary (Inet4Current m)) \<le> 16" "length (Addr_MarshalBinary (Inet6Current m)) \<le> 16"
    using m a by (simp_all add: plainMetadata_def)
  then show ?thesis by (simp add: validValue_def FakeIPMetadata_MarshalBinary_def marshalElement_def)
qed

lemma putFakeIPMetadata_ok:
  assumes B: "bolt_laws B" and db: "fakeip_shape B db" and m: "plainMetadata m"
  obtains db' where "putFakeIPMetadata B m db = Some db'" "fakeip_shape B db'" "untouched B fakeipPaths db db'"
    "\<And>b. plain b \<Longrightarrow> dbLoad B db' b = dbLoad B db b" "dbLoadDomain B ip db' = dbLoadDomain B ip db"
    "dbGet B db' [bucketFakeIP] keyMetadata = Some (FakeIPMetadata_MarshalBinary m)" "dbHas B db' [bucketFakeIP]"
proof -
  let ?v = "FakeIPMetadata_MarshalBinary m"
  obtain db1 where 1: "dbCreate B db [bucketFakeIP] = Some db1" using bolt_bucket(4) [OF B bucket_names(1)] by blast
  note h1 = bolt_bucket(6,7) [OF B 1]
  have key: "validKey keyMetadata" by (simp add: validKey_def keyMetadata_def)
  obtain db2 where 2: "dbPut B db1 [bucketFakeIP] keyMetadata ?v = Some db2"
    using bolt_key(2) [OF B _ _ key metadata_length [OF m], of db1 "[bucketFakeIP]"] h1 fakeip_shapeD(4) [OF db] by auto
  note h2 = bolt_key(3,4) [OF B 2]
  have plain_key: "AsSlice b \<noteq> keyMetadata" if "plain b" for b using that by simp
  show ?thesis
  proof (rule that [of db2])
    show "putFakeIPMetadata B m db = Some db2" using 1 2 by (simp add: putFakeIPMetadata_def)
    show "fakeip_shape B db2" using db plain_key unfolding fakeip_shape_def by (simp add: h2 h1)
    show "untouched B fakeipPaths db db2" by (auto simp: untouched_def h2 h1)
    show "dbLoad B db2 b = dbLoad B db b" if "plain b" for b using plain_key [OF that] by (simp add: dbLoad_def h2 h1)
    show "dbLoadDomain B ip db2 = dbLoadDomain B ip db" by (simp add: dbLoadDomain_def h2 h1 fun_eq_iff)
  qed (simp_all add: h2 h1)
qed

lemma length_be_int64 [simp]: "length (be_int64 x) = 8"
  by (simp add: be_int64_def)

text \<open>
  All pending writes in one transaction: it goes through, the database then
  gives what reading through the pending writes gave, and the entries that are
  not written stay.
\<close>

lemma writePending_ok:
  assumes B: "bolt_laws B" and ip: "addrFromIP_laws ip" and id: "proper_id c" and db: "db_shape B c db"
    and m: "matched (dbLoad B db) (dbLoadDomain B ip db)"
    and w: "wf_layer keyDomain p (dbLoadDomain B ip db)" and e: "wf_entries p" and ord: "reorders order"
  obtains db' where "writePending B c now (order p) db = Some db'" "db_shape B c db'"
    "\<And>b. plain b \<Longrightarrow> dbLoad B db' b = layerLoad p (dbLoad B db) b"
    "dbLoadDomain B ip db' = layerDomain p (dbLoadDomain B ip db)"
    "\<And>k. entryOf B c bucketDNSCache db' k =
        (case map_of (dnsCache p) k of Some v \<Rightarrow> Some v | None \<Rightarrow> entryOf B c bucketDNSCache db k)"
    "\<And>k. entryOf B c bucketRDRC db' k =
        (case map_of (rdrc p) k of Some _ \<Rightarrow> Some (be_int64 (timeUnix (now + rdrcTimeout c)))
         | None \<Rightarrow> entryOf B c bucketRDRC db k)"
    "\<And>meta. fakeIPMetadata p = Some meta \<Longrightarrow>
        dbHas B db' [bucketFakeIP] \<and> dbGet B db' [bucketFakeIP] keyMetadata = Some (FakeIPMetadata_MarshalBinary meta)"
proof -
  let ?q = "order p" and ?stamp = "be_int64 (timeUnix (now + rdrcTimeout c))"
  have q: "mset (dnsCache ?q) = mset (dnsCache p)" "mset (rdrc ?q) = mset (rdrc p)"
    "mset (fakeIPDomain ?q) = mset (fakeIPDomain p)" "fakeIPMetadata ?q = fakeIPMetadata p"
    using ord by (simp_all add: reorders_def)
  have es: "distinct (map fst (dnsCache p))" "distinct (map fst (rdrc p))"
    "\<forall>(k, v) \<in> set (dnsCache p). keyed k \<and> validValue v" "\<forall>(k, v) \<in> set (rdrc p). keyed k"
    using e by (auto simp: wf_entries_def)
  note dns = mset_alist [OF q(1) es(1)] and rd = mset_alist [OF q(2) es(2)]
  have dnsE: "\<forall>(k, v) \<in> set (dnsCache ?q). keyed k \<and> validValue v"
    and rdE: "\<forall>(k, v) \<in> set (rdrc ?q). keyed k \<and> validValue ?stamp"
    using es dns rd by (auto simp: validValue_def)
  have shapes: "fakeip_shape B db" "cache_shape B c bucketDNSCache db" "cache_shape B c bucketRDRC db"
    using db by (simp_all add: db_shape_def)
  obtain db1 where 1: "writeDNSCache B c (dnsCache ?q) db = Some db1"
    and s1: "cache_shape B c bucketDNSCache db1" and w1: "writesUnder B c bucketDNSCache db db1"
    and e1: "\<And>k. entryOf B c bucketDNSCache db1 k =
        (case map_of (dnsCache ?q) k of Some v \<Rightarrow> Some v | None \<Rightarrow> entryOf B c bucketDNSCache db k)"
    by (rule writeEntries_ok [OF B id cache_names(1) shapes(2) dnsE dns(1)]; rule that [unfolded writeDNSCache_def])
  note k1 = writesUnder_keeps [OF w1 id, of bucketRDRC, simplified]
  obtain db2 where 2: "writeRDRC B c now (rdrc ?q) db1 = Some db2"
    and s2: "cache_shape B c bucketRDRC db2" and w2: "writesUnder B c bucketRDRC db1 db2"
    and e2: "\<And>k. entryOf B c bucketRDRC db2 k =
        (case map_of (rdrc ?q) k of Some v \<Rightarrow> Some ?stamp | None \<Rightarrow> entryOf B c bucketRDRC db1 k)"
    by (rule writeEntries_ok [OF B id cache_names(2) k1(4) [OF shapes(3)] rdE rd(1)]; rule that [unfolded writeRDRC_def Let_def])
  note k2 = writesUnder_keeps [OF w2 id, of bucketDNSCache, simplified]
  have views: "fakeip_shape B db2" "dbLoad B db2 = dbLoad B db" "dbLoadDomain B ip db2 = dbLoadDomain B ip db"
    using k2(1) [OF k1(1) [OF shapes(1)]] k1(2,3) k2(2,3) by simp_all
  obtain db3 where 3: "foldTx (\<lambda>(a, d). putFakeIP B a d) (fakeIPDomain ?q) db2 = Some db3" "fakeip_shape B db3"
    and u3: "untouched B fakeipPaths db2 db3"
    and load3: "\<And>b. plain b \<Longrightarrow> dbLoad B db3 b = layerLoad p (dbLoad B db2) b"
    and dom3: "dbLoadDomain B ip db3 = layerDomain p (dbLoadDomain B ip db2)"
    by (rule putLayer [OF B ip views(1) m [folded views(2,3)] w [folded views(3)] q(3)]; rule that)
  note f3 = untouched_fakeip [OF u3 id]
  have cache3: "cache_shape B c bucketDNSCache db3" "cache_shape B c bucketRDRC db3"
    "entryOf B c bucketDNSCache db3 = entryOf B c bucketDNSCache db1" "entryOf B c bucketRDRC db3 = entryOf B c bucketRDRC db2"
    using f3 [of bucketDNSCache] f3 [of bucketRDRC] k2(4) [OF s1] s2 k2(5) by simp_all
  have ent: "entryOf B c bucketDNSCache db3 k = (case map_of (dnsCache p) k of Some v \<Rightarrow> Some v | None \<Rightarrow> entryOf B c bucketDNSCache db k)"
    "entryOf B c bucketRDRC db3 k = (case map_of (rdrc p) k of Some _ \<Rightarrow> Some ?stamp | None \<Rightarrow> entryOf B c bucketRDRC db k)" for k
    using e1 [of k] e2 [of k] unfolding cache3(3,4) k1(5) dns(2) rd(2) by simp_all
  show ?thesis
  proof (cases "fakeIPMetadata p")
    case None
    then show ?thesis
      using that [of db3] 1 2 3 load3 dom3 views cache3 ent q(4) by (simp add: writePending_def db_shape_def)
  next
    case (Some meta)
    then have meta: "plainMetadata meta" using e by (simp add: wf_entries_def)
    obtain db4 where 4: "putFakeIPMetadata B meta db3 = Some db4" "fakeip_shape B db4" "untouched B fakeipPaths db3 db4"
      "\<And>b. plain b \<Longrightarrow> dbLoad B db4 b = dbLoad B db3 b" "dbLoadDomain B ip db4 = dbLoadDomain B ip db3"
      "dbGet B db4 [bucketFakeIP] keyMetadata = Some (FakeIPMetadata_MarshalBinary meta)" "dbHas B db4 [bucketFakeIP]"
      by (rule putFakeIPMetadata_ok [OF B 3(2) meta]; rule that)
    note f4 = untouched_fakeip [OF 4(3) id]
    show ?thesis
      using that [of db4] 1 2 3 4 load3 dom3 views cache3 ent q(4) f4 [of bucketDNSCache] f4 [of bucketRDRC] Some
      by (simp add: writePending_def db_shape_def)
  qed
qed

end
