(* ===== verification/CacheDNS.thy ===== *)
theory CacheDNS
  imports CacheFile
begin

text \<open>
  The DNS cache and the rejected queries of the cache file
  (\<^verbatim>\<open>experimental/cachefile/dns_cache.go\<close> and \<^verbatim>\<open>rdrc.go\<close>), and the single values it
  stores (\<^verbatim>\<open>cache.go\<close>): the mode, selected outbounds and the expansion of groups.
\<close>

section \<open>DNS cache\<close>

text \<open>A stored entry: eight bytes of expiry in seconds, then the message.\<close>

definition cacheValue :: "bytes \<Rightarrow> int \<Rightarrow> bytes" where
  "cacheValue rawMessage expireAt = be_int64 (timeUnix expireAt) @ rawMessage"

definition entryMessage :: "bytes \<Rightarrow> bytes \<times> int" where
  "entryMessage content = (drop 8 content, int64_be (take 8 content) * second)"

definition LoadDNSCache :: "'d bolt \<Rightarrow> 'd CacheFile \<Rightarrow> saveCacheKey \<Rightarrow> (bytes \<times> int) option" where
  "LoadDNSCache B c key =
     (case map_of (dnsCache (pending c)) key of
        Some content \<Rightarrow> Some (entryMessage content)
      | None \<Rightarrow>
          (case Option.bind (writing c) (\<lambda>w. map_of (dnsCache w) key) of
             Some content \<Rightarrow> Some (entryMessage content)
           | None \<Rightarrow>
               (case bucketPath B c bucketDNSCache of
                  None \<Rightarrow> None
                | Some path \<Rightarrow>
                    (case getCacheEntry B (DB c) path key of
                       None \<Rightarrow> None
                     | Some content \<Rightarrow> if length content < 8 then None else Some (entryMessage content)))))"

definition queueDNSCache :: "'d CacheFile \<Rightarrow> saveCacheKey \<Rightarrow> bytes \<Rightarrow> int \<Rightarrow> 'd CacheFile" where
  "queueDNSCache c key rawMessage expireAt =
     (let content = cacheValue rawMessage expireAt;
          oldEntry = map_of (dnsCache (pending c)) key;
          c1 = c\<lparr>pending := (pending c)\<lparr>dnsCache := AList.update key content (dnsCache (pending c))\<rparr>\<rparr>
      in enqueueLocked c1 (oldEntry = None)
           (int (length (QuestionName key)) + int (length content)
            - (case oldEntry of Some old \<Rightarrow> int (length old) | None \<Rightarrow> 0)))"

definition SaveDNSCache :: "'d bolt \<Rightarrow> flushRun \<Rightarrow> 'd CacheFile \<Rightarrow> saveCacheKey \<Rightarrow> bytes \<Rightarrow> int \<Rightarrow> 'd CacheFile" where
  "SaveDNSCache B r c key rawMessage expireAt = Flush B r (queueDNSCache c key rawMessage expireAt)"

text \<open>
  Deleting an entry only where it still holds the given message: a pending
  entry with another message stays, and so does a stored one.
\<close>

definition deleteDNSEntry :: "'d bolt \<Rightarrow> 'd CacheFile \<Rightarrow> saveCacheKey \<Rightarrow> bytes \<Rightarrow> 'd \<Rightarrow> 'd option" where
  "deleteDNSEntry B c key rawMessage db =
     (case bucketPath B c bucketDNSCache of
        None \<Rightarrow> Some db
      | Some path \<Rightarrow>
          (case getCacheEntry B db path key of
             None \<Rightarrow> Some db
           | Some content \<Rightarrow>
               if length content < 8 \<or> drop 8 content \<noteq> rawMessage then Some db
               else dbDelete B db (path @ [str_bytes (TransportName key)]) (cacheKeyBytes key)))"

definition DeleteDNSCache :: "'d bolt \<Rightarrow> tx_outcome \<Rightarrow> 'd CacheFile \<Rightarrow> saveCacheKey \<Rightarrow> bytes \<Rightarrow> 'd CacheFile" where
  "DeleteDNSCache B outcome c key rawMessage =
     (let p = pending c; entry = map_of (dnsCache p) key in
      if (case entry of Some v \<Rightarrow> length v < 8 \<or> drop 8 v \<noteq> rawMessage | None \<Rightarrow> False) then c
      else
        (let p' = (case entry of
                     None \<Rightarrow> p
                   | Some v \<Rightarrow> p\<lparr>dnsCache := AList.delete key (dnsCache p), pendingCount := pendingCount p - 1,
                                 pendingSize := pendingSize p - (int (length (QuestionName key)) + int (length v))\<rparr>);
             (_, db) = dbUpdate B outcome (DB c) (deleteDNSEntry B c key rawMessage)
         in c\<lparr>pending := p', DB := db\<rparr>))"

definition deleteCacheBucket :: "'d bolt \<Rightarrow> 'd CacheFile \<Rightarrow> bytes \<Rightarrow> 'd \<Rightarrow> 'd option" where
  "deleteCacheBucket B c bucket db =
     (let path = (case cacheID c of None \<Rightarrow> [bucket] | Some cid \<Rightarrow> [cid, bucket]) in
      if (case cacheID c of None \<Rightarrow> False | Some cid \<Rightarrow> \<not> dbHas B db [cid]) \<or> \<not> dbHas B db path then Some db
      else (case dbDeleteBucket B db path of Inr db' \<Rightarrow> Some db' | Inl _ \<Rightarrow> None))"

definition ClearDNSCache :: "'d bolt \<Rightarrow> tx_outcome \<Rightarrow> 'd CacheFile \<Rightarrow> bool \<times> 'd CacheFile" where
  "ClearDNSCache B outcome c =
     (let p = pending c;
          p' = p\<lparr>dnsCache := [], pendingCount := pendingCount p - int (length (dnsCache p)),
                 pendingSize := pendingSize p
                   - int (sum_list (map (\<lambda>(k, v). length (QuestionName k) + length v) (dnsCache p)))\<rparr>;
          (ok, db) = dbUpdate B outcome (DB c) (deleteCacheBucket B c bucketDNSCache)
      in (ok, c\<lparr>pending := p', DB := db\<rparr>))"

text \<open>
  The clean-up: under every transport the entries that \<open>expired\<close> holds for are
  deleted, and transports left empty are removed. A bucket below a transport
  is iterated over as a key without value, which cannot be deleted as a key.
\<close>

definition cleanTransport :: "'d bolt \<Rightarrow> (bytes \<Rightarrow> bool) \<Rightarrow> bucket_path \<Rightarrow> bytes \<Rightarrow> 'd \<Rightarrow> (bool \<times> 'd) option" where
  "cleanTransport B expired path name db =
     (let transport = path @ [name];
          expiredKeys = map fst (filter (\<lambda>(k, v). expired v) (dbForEach B db transport))
      in if dbForEachBucket B db transport \<noteq> [] then None
         else (case foldTx (\<lambda>k d. dbDelete B d transport k) expiredKeys db of
                 None \<Rightarrow> None
               | Some db1 \<Rightarrow> Some (dbForEach B db1 transport = [], db1)))"

fun cleanTransports ::
  "'d bolt \<Rightarrow> (bytes \<Rightarrow> bool) \<Rightarrow> bucket_path \<Rightarrow> bytes list \<Rightarrow> 'd \<Rightarrow> (bytes list \<times> 'd) option" where
  "cleanTransports B expired path [] db = Some ([], db)"
| "cleanTransports B expired path (name # names) db =
     (case cleanTransport B expired path name db of
        None \<Rightarrow> None
      | Some (isEmpty, db1) \<Rightarrow>
          map_option (apfst (if isEmpty then (#) name else id)) (cleanTransports B expired path names db1))"

definition cleanupBucket :: "'d bolt \<Rightarrow> (bytes \<Rightarrow> bool) \<Rightarrow> bucket_path option \<Rightarrow> 'd \<Rightarrow> 'd option" where
  "cleanupBucket B expired bucket db =
     (case bucket of
        None \<Rightarrow> Some db
      | Some path \<Rightarrow>
          (case cleanTransports B expired path (dbForEachBucket B db path) db of
             None \<Rightarrow> None
           | Some (emptyTransports, db1) \<Rightarrow>
               foldTx (\<lambda>name d. case dbDeleteBucket B d (path @ [name]) of Inr d' \<Rightarrow> Some d' | Inl _ \<Rightarrow> None)
                 emptyTransports db1))"

definition dnsExpired :: "'d CacheFile \<Rightarrow> int \<Rightarrow> bytes \<Rightarrow> bool" where
  "dnsExpired c now content \<longleftrightarrow>
     length content < 8 \<or>
     \<not> disableExpire c \<and> now > int64_be (take 8 content) * second + optimisticTimeout c"

definition cleanupDNSCache :: "'d bolt \<Rightarrow> tx_outcome \<Rightarrow> int \<Rightarrow> 'd CacheFile \<Rightarrow> 'd CacheFile" where
  "cleanupDNSCache B outcome now c =
     c\<lparr>DB := snd (dbUpdate B outcome (DB c) (cleanupBucket B (dnsExpired c now) (bucketPath B c bucketDNSCache)))\<rparr>"

section \<open>Rejected queries\<close>

definition rdrcExpired :: "int \<Rightarrow> bytes \<Rightarrow> bool" where
  "rdrcExpired now content \<longleftrightarrow> length content < 8 \<or> now > int64_be (take 8 content) * second"

definition cleanupRDRC :: "'d bolt \<Rightarrow> tx_outcome \<Rightarrow> int \<Rightarrow> 'd CacheFile \<Rightarrow> 'd CacheFile" where
  "cleanupRDRC B outcome now c =
     c\<lparr>DB := snd (dbUpdate B outcome (DB c) (cleanupBucket B (rdrcExpired now) (bucketPath B c bucketRDRC)))\<rparr>"

definition clearRDRC :: "'d bolt \<Rightarrow> tx_outcome \<Rightarrow> 'd CacheFile \<Rightarrow> 'd CacheFile" where
  "clearRDRC B outcome c =
     (let p = pending c;
          p' = p\<lparr>rdrc := [], pendingCount := pendingCount p - int (length (rdrc p)),
                 pendingSize := pendingSize p - int (sum_list (map (\<lambda>(k, _). length (QuestionName k)) (rdrc p)))\<rparr>
      in c\<lparr>pending := p', DB := snd (dbUpdate B outcome (DB c) (deleteCacheBucket B c bucketRDRC))\<rparr>)"

definition LoadRDRC :: "'d bolt \<Rightarrow> int \<Rightarrow> 'd CacheFile \<Rightarrow> saveCacheKey \<Rightarrow> bool" where
  "LoadRDRC B now c key =
     (if map_of (rdrc (pending c)) key \<noteq> None then True
      else if Option.bind (writing c) (\<lambda>w. map_of (rdrc w) key) \<noteq> None then True
      else (case bucketPath B c bucketRDRC of
              None \<Rightarrow> False
            | Some path \<Rightarrow>
                (case getCacheEntry B (DB c) path key of
                   None \<Rightarrow> False
                 | Some content \<Rightarrow> length content \<ge> 8 \<and> now < int64_be (take 8 content) * second)))"

definition queueRDRC :: "'d CacheFile \<Rightarrow> saveCacheKey \<Rightarrow> 'd CacheFile" where
  "queueRDRC c key =
     (if map_of (rdrc (pending c)) key \<noteq> None then c
      else enqueueLocked (c\<lparr>pending := (pending c)\<lparr>rdrc := AList.update key () (rdrc (pending c))\<rparr>\<rparr>) True
             (int (length (QuestionName key))))"

definition SaveRDRC :: "'d bolt \<Rightarrow> flushRun \<Rightarrow> 'd CacheFile \<Rightarrow> saveCacheKey \<Rightarrow> 'd CacheFile" where
  "SaveRDRC B r c key = Flush B r (queueRDRC c key)"

section \<open>Single values\<close>

abbreviation bucketSelected :: bytes where
  "bucketSelected \<equiv> str_bytes ''selected''"

abbreviation bucketExpand :: bytes where
  "bucketExpand \<equiv> str_bytes ''group_expand''"

abbreviation bucketMode :: bytes where
  "bucketMode \<equiv> str_bytes ''clash_mode''"

abbreviation cacheIDDefault :: bytes where
  "cacheIDDefault \<equiv> str_bytes ''default''"

definition modeKey :: "'d CacheFile \<Rightarrow> bytes" where
  "modeKey c = (case cacheID c of Some cid \<Rightarrow> if length cid > 0 then cid else cacheIDDefault | None \<Rightarrow> cacheIDDefault)"

definition LoadMode :: "'d bolt \<Rightarrow> 'd CacheFile \<Rightarrow> string" where
  "LoadMode B c =
     (if \<not> dbHas B (DB c) [bucketMode] then []
      else (case dbGet B (DB c) [bucketMode] (modeKey c) of None \<Rightarrow> [] | Some bs \<Rightarrow> bytes_str bs))"

definition StoreMode :: "'d bolt \<Rightarrow> tx_outcome \<Rightarrow> 'd CacheFile \<Rightarrow> string \<Rightarrow> bool \<times> 'd CacheFile" where
  "StoreMode B outcome c mode =
     (let (ok, db) = dbUpdate B outcome (DB c) (\<lambda>db.
            case dbCreate B db [bucketMode] of
              None \<Rightarrow> None
            | Some db1 \<Rightarrow> dbPut B db1 [bucketMode] (modeKey c) (str_bytes mode))
      in (ok, c\<lparr>DB := db\<rparr>))"

definition storeValue :: "'d bolt \<Rightarrow> tx_outcome \<Rightarrow> 'd CacheFile \<Rightarrow> bytes \<Rightarrow> string \<Rightarrow> bytes \<Rightarrow> bool \<times> 'd CacheFile" where
  "storeValue B outcome c bucket key content =
     (let (ok, db) = dbUpdate B outcome (DB c) (\<lambda>db.
            case createBucketPath B c bucket db of
              None \<Rightarrow> None
            | Some (path, db1) \<Rightarrow> dbPut B db1 path (str_bytes key) content)
      in (ok, c\<lparr>DB := db\<rparr>))"

definition loadValue :: "'d bolt \<Rightarrow> 'd CacheFile \<Rightarrow> bytes \<Rightarrow> string \<Rightarrow> bytes option" where
  "loadValue B c bucket key =
     (case bucketPath B c bucket of None \<Rightarrow> None | Some path \<Rightarrow> dbGet B (DB c) path (str_bytes key))"

definition LoadSelected :: "'d bolt \<Rightarrow> 'd CacheFile \<Rightarrow> string \<Rightarrow> string" where
  "LoadSelected B c tag =
     (case loadValue B c bucketSelected tag of
        Some selectedBytes \<Rightarrow> if length selectedBytes > 0 then bytes_str selectedBytes else []
      | None \<Rightarrow> [])"

definition StoreSelected :: "'d bolt \<Rightarrow> tx_outcome \<Rightarrow> 'd CacheFile \<Rightarrow> string \<Rightarrow> string \<Rightarrow> bool \<times> 'd CacheFile" where
  "StoreSelected B outcome c tag selected = storeValue B outcome c bucketSelected tag (str_bytes selected)"

definition LoadGroupExpand :: "'d bolt \<Rightarrow> 'd CacheFile \<Rightarrow> string \<Rightarrow> bool option" where
  "LoadGroupExpand B c tag =
     (case loadValue B c bucketExpand tag of
        Some expandBytes \<Rightarrow> if length expandBytes = 1 then Some (expandBytes ! 0 = 1) else None
      | None \<Rightarrow> None)"

definition StoreGroupExpand :: "'d bolt \<Rightarrow> tx_outcome \<Rightarrow> 'd CacheFile \<Rightarrow> string \<Rightarrow> bool \<Rightarrow> bool \<times> 'd CacheFile" where
  "StoreGroupExpand B outcome c tag isExpand =
     storeValue B outcome c bucketExpand tag (if isExpand then [1] else [0])"

section \<open>Start and close\<close>

definition CacheFile_Name :: string where
  "CacheFile_Name = ''cache-file''"

definition CacheFile_CacheID :: "'d CacheFile \<Rightarrow> string" where
  "CacheFile_CacheID c = cacheIDText c"

definition SetOptimisticTimeout :: "'d CacheFile \<Rightarrow> int \<Rightarrow> 'd CacheFile" where
  "SetOptimisticTimeout c timeout = c\<lparr>optimisticTimeout := timeout\<rparr>"

definition SetDisableExpire :: "'d CacheFile \<Rightarrow> bool \<Rightarrow> 'd CacheFile" where
  "SetDisableExpire c disable = c\<lparr>disableExpire := disable\<rparr>"

datatype cleanup_loop = LoopDNSCache int | LoopRDRC int

text \<open>What the start cleans, and the loop it starts with its interval; Go divides towards zero.\<close>

definition startCacheCleanup ::
  "'d bolt \<Rightarrow> tx_outcome \<Rightarrow> tx_outcome \<Rightarrow> int \<Rightarrow> 'd CacheFile \<Rightarrow> cleanup_loop option \<times> 'd CacheFile" where
  "startCacheCleanup B outcome1 outcome2 now c =
     (let interval = (\<lambda>timeout. if timeout \<le> 1 then 3600 * second else timeout div 2) in
      if storeDNS c then (Some (LoopDNSCache (interval (optimisticTimeout c))), cleanupDNSCache B outcome2 now (clearRDRC B outcome1 c))
      else if storeRDRC c then (Some (LoopRDRC (interval (rdrcTimeout c))), cleanupRDRC B outcome1 now c)
      else (None, c))"

abbreviation bucketRuleSet :: bytes where
  "bucketRuleSet \<equiv> str_bytes ''rule_set''"

abbreviation bucketExternalUI :: bytes where
  "bucketExternalUI \<equiv> str_bytes ''external_ui''"

abbreviation bucketOutboundProvider :: bytes where
  "bucketOutboundProvider \<equiv> str_bytes ''outbound_provider''"

definition bucketNameList :: "bytes list" where
  "bucketNameList = [bucketSelected, bucketExpand, bucketMode, bucketRuleSet, bucketExternalUI, bucketOutboundProvider,
     bucketRDRC, bucketDNSCache]"

text \<open>
  The removal of buckets of older versions. \<open>names\<close> are the top-level buckets
  the iteration meets and \<open>nested\<close> those below each of them; errors of the
  deletion are ignored.
\<close>

definition tryDeleteBucket :: "'d bolt \<Rightarrow> bucket_path \<Rightarrow> 'd \<Rightarrow> 'd" where
  "tryDeleteBucket B path db = (case dbDeleteBucket B db path of Inr db' \<Rightarrow> db' | Inl _ \<Rightarrow> db)"

definition removeObsolete1 :: "'d bolt \<Rightarrow> bytes list \<Rightarrow> bytes \<Rightarrow> 'd \<Rightarrow> 'd" where
  "removeObsolete1 B nested name db =
     (if take 1 name = [0]
      then fold (\<lambda>k d. if k \<notin> set bucketNameList then tryDeleteBucket B [name, name] d else d) nested db
      else if \<not> (name \<in> set bucketNameList \<or> take (length fakeipBucketPrefix) name = str_bytes fakeipBucketPrefix)
           then tryDeleteBucket B [name] db else db)"

definition removeObsolete :: "'d bolt \<Rightarrow> bytes list \<Rightarrow> (bytes \<Rightarrow> bytes list) \<Rightarrow> 'd \<Rightarrow> 'd" where
  "removeObsolete B names nested db = fold (\<lambda>name. removeObsolete1 B (nested name) name) names db"

text \<open>Closing writes what is pending.\<close>

definition CacheFile_Close :: "'d bolt \<Rightarrow> flushRun \<Rightarrow> 'd CacheFile \<Rightarrow> 'd CacheFile" where
  "CacheFile_Close B r c = Flush B r (c\<lparr>flushTimer := False\<rparr>)"

end
