(* ===== verification/CacheRun.thy ===== *)
theory CacheRun
  imports CacheWrite CacheDNS
begin

text \<open>
  The cache file in operation: flushing in steps that other calls may come
  between, the invariant of its state, and what readers see of it.
\<close>

section \<open>What readers see\<close>

record cacheView =
  vLoad :: loads
  vDomain :: loadDomains
  vDNS :: "saveCacheKey \<Rightarrow> (bytes \<times> int) option"

definition storedView :: "'d bolt \<Rightarrow> (bytes \<Rightarrow> Addr) \<Rightarrow> 'd CacheFile \<Rightarrow> cacheView" where
  "storedView B ip c = \<lparr>vLoad = dbLoad B (DB c), vDomain = dbLoadDomain B ip (DB c),
     vDNS = (\<lambda>k. case entryOf B c bucketDNSCache (DB c) k of
        None \<Rightarrow> None | Some v \<Rightarrow> if length v < 8 then None else Some (entryMessage v))\<rparr>"

definition layerDNS :: "pendingWrites \<Rightarrow> (saveCacheKey \<Rightarrow> (bytes \<times> int) option) \<Rightarrow> saveCacheKey \<Rightarrow> (bytes \<times> int) option" where
  "layerDNS p N k = (case map_of (dnsCache p) k of Some v \<Rightarrow> Some (entryMessage v) | None \<Rightarrow> N k)"

definition viewOver :: "pendingWrites \<Rightarrow> cacheView \<Rightarrow> cacheView" where
  "viewOver p V = \<lparr>vLoad = layerLoad p (vLoad V), vDomain = layerDomain p (vDomain V), vDNS = layerDNS p (vDNS V)\<rparr>"

definition baseView :: "'d bolt \<Rightarrow> (bytes \<Rightarrow> Addr) \<Rightarrow> 'd CacheFile \<Rightarrow> cacheView" where
  "baseView B ip c = (case writing c of None \<Rightarrow> storedView B ip c | Some w \<Rightarrow> viewOver w (storedView B ip c))"

definition seen :: "'d bolt \<Rightarrow> (bytes \<Rightarrow> Addr) \<Rightarrow> 'd CacheFile \<Rightarrow> cacheView" where
  "seen B ip c = viewOver (pending c) (baseView B ip c)"

lemma bucketPath_entry:
  assumes "bolt_laws B" "cache_shape B c bucket (DB c)"
  shows "(case bucketPath B c bucket of None \<Rightarrow> None | Some path \<Rightarrow> getCacheEntry B (DB c) path key) =
     entryOf B c bucket (DB c) key"
proof -
  have "entryOf B c bucket (DB c) key = None" if "\<not> dbHas B (DB c) (cachePath c bucket)"
    using that assms bolt_bucket(2) [OF assms(1)] unfolding entryOf_def cache_shape_def by blast
  moreover have "bucketPath B c bucket = (if dbHas B (DB c) (cachePath c bucket) then Some (cachePath c bucket) else None)"
    using assms(2) by (auto simp: bucketPath_def cachePath_def cache_shape_def split: option.splits)
  ultimately show ?thesis by (simp add: getCacheEntry_entryOf [OF assms(1)])
qed

lemma LoadDNSCache_seen:
  assumes "bolt_laws B" "cache_shape B c bucketDNSCache (DB c)"
  shows "LoadDNSCache B c = vDNS (seen B ip c)"
proof
  fix k
  have "LoadDNSCache B c k = (case map_of (dnsCache (pending c)) k of
        Some content \<Rightarrow> Some (entryMessage content)
      | None \<Rightarrow> (case Option.bind (writing c) (\<lambda>w. map_of (dnsCache w) k) of
             Some content \<Rightarrow> Some (entryMessage content)
           | None \<Rightarrow> (case entryOf B c bucketDNSCache (DB c) k of
                       None \<Rightarrow> None | Some v \<Rightarrow> if length v < 8 then None else Some (entryMessage v))))"
    unfolding LoadDNSCache_def bucketPath_entry [OF assms, symmetric] by (auto split: option.splits)
  then show "LoadDNSCache B c k = vDNS (seen B ip c) k"
    by (auto simp: seen_def baseView_def viewOver_def storedView_def layerDNS_def split: option.splits)
qed

lemma FakeIP_seen:
  assumes "bolt_laws B" "addrFromIP_laws ip"
  shows "FakeIPLoad B c = vLoad (seen B ip c)" "FakeIPLoadDomain B ip c = vDomain (seen B ip c)"
  by (simp_all add: FakeIPLoad_layers [OF assms(1)] FakeIPLoadDomain_layers [OF assms] seen_def viewOver_def baseView_def
      storedView_def split: option.splits)

section \<open>Invariant\<close>

datatype phase = Idle | Taken | Written bool

text \<open>
  \<open>fits\<close>: pending writes that fit the view below them and that the database can
  take. Once a flush has written them, the database shows what they say.
\<close>

definition fits :: "pendingWrites \<Rightarrow> cacheView \<Rightarrow> bool" where
  "fits p V \<longleftrightarrow> wf_entries p \<and> wf_layer keyDomain p (vDomain V)"

definition same_view :: "cacheView \<Rightarrow> cacheView \<Rightarrow> bool" where
  "same_view V W \<longleftrightarrow> (\<forall>a. plain a \<longrightarrow> vLoad V a = vLoad W a) \<and> vDomain V = vDomain W \<and> vDNS V = vDNS W"

definition cache_inv :: "'d bolt \<Rightarrow> (bytes \<Rightarrow> Addr) \<Rightarrow> 'd CacheFile \<Rightarrow> phase \<Rightarrow> bool" where
  "cache_inv B ip c ph \<longleftrightarrow>
     proper_id c \<and> db_shape B c (DB c) \<and> matched (dbLoad B (DB c)) (dbLoadDomain B ip (DB c)) \<and>
     fits (pending c) (baseView B ip c) \<and>
     (case writing c of
        None \<Rightarrow> ph = Idle
      | Some w \<Rightarrow> ph \<noteq> Idle \<and> fits w (storedView B ip c) \<and>
          (ph = Written True \<longrightarrow> same_view (viewOver w (storedView B ip c)) (storedView B ip c)))"

lemma same_view_refl [simp]: "same_view V V"
  by (simp add: same_view_def)

lemma same_view_sym: "same_view V W \<Longrightarrow> same_view W V"
  by (simp add: same_view_def)

lemma same_view_trans: "same_view U V \<Longrightarrow> same_view V W \<Longrightarrow> same_view U W"
  by (simp add: same_view_def)

lemma viewOver_same: "same_view V W \<Longrightarrow> same_view (viewOver p V) (viewOver p W)"
  by (auto simp: same_view_def viewOver_def layerLoad_def layerDomain_def layerDNS_def fun_eq_iff split: option.splits)

lemma fits_same: "same_view V W \<Longrightarrow> fits p V = fits p W"
  by (simp add: fits_def same_view_def)

lemma newPending_simps [simp]:
  "dnsCache newPendingWrites = []" "rdrc newPendingWrites = []" "fakeIPDomain newPendingWrites = []"
  "fakeIPMetadata newPendingWrites = None" "pendingCount newPendingWrites = 0" "pendingSize newPendingWrites = 0"
  by (simp_all add: newPendingWrites_def)

lemma viewOver_new [simp]: "viewOver newPendingWrites V = V"
  by (cases V) (simp add: viewOver_def layerDNS_def fun_eq_iff)

lemma fits_new [simp]: "fits newPendingWrites V"
  using wf_layer_empty [of keyDomain "vDomain V"] by (simp add: fits_def wf_entries_def)

lemma seen_matched:
  assumes "cache_inv B ip c ph"
  shows "matched (vLoad (seen B ip c)) (vDomain (seen B ip c))" "matched (vLoad (baseView B ip c)) (vDomain (baseView B ip c))"
proof -
  have db: "matched (vLoad (storedView B ip c)) (vDomain (storedView B ip c))"
    using assms by (simp add: cache_inv_def storedView_def)
  have over: "matched (vLoad (viewOver p V)) (vDomain (viewOver p V))" if "matched (vLoad V) (vDomain V)" "fits p V" for p V
    using layer_matched that by (auto simp: viewOver_def fits_def)
  show base: "matched (vLoad (baseView B ip c)) (vDomain (baseView B ip c))"
    using assms db over by (auto simp: baseView_def cache_inv_def split: option.splits)
  show "matched (vLoad (seen B ip c)) (vDomain (seen B ip c))"
    using over [OF base] assms by (simp add: seen_def cache_inv_def)
qed

section \<open>Calls that add pending writes\<close>

lemma enqueue_simps [simp]:
  "cacheID (enqueueLocked c added n) = cacheID c" "DB (enqueueLocked c added n) = DB c"
  "writing (enqueueLocked c added n) = writing c"
  "dnsCache (pending (enqueueLocked c added n)) = dnsCache (pending c)" "rdrc (pending (enqueueLocked c added n)) = rdrc (pending c)"
  "fakeIPDomain (pending (enqueueLocked c added n)) = fakeIPDomain (pending c)"
  "fakeIPAddress4 (pending (enqueueLocked c added n)) = fakeIPAddress4 (pending c)"
  "fakeIPAddress6 (pending (enqueueLocked c added n)) = fakeIPAddress6 (pending c)"
  "fakeIPMetadata (pending (enqueueLocked c added n)) = fakeIPMetadata (pending c)"
  by (simp_all add: enqueueLocked_def Let_def)

lemma view_cong:
  assumes "dnsCache p = dnsCache q" "fakeIPDomain p = fakeIPDomain q" "fakeIPAddress4 p = fakeIPAddress4 q"
    "fakeIPAddress6 p = fakeIPAddress6 q"
  shows "viewOver p V = viewOver q V" "wf_layer ok p D = wf_layer ok q D"
proof -
  have a: "fakeIPAddress p = fakeIPAddress q" using assms(3,4) by (simp add: fakeIPAddress_def fun_eq_iff)
  show "viewOver p V = viewOver q V"
    by (simp add: viewOver_def layerLoad_def layerDomain_def layerDNS_def assms(1,2) a fun_eq_iff)
  show "wf_layer ok p D = wf_layer ok q D" by (simp add: wf_layer_def assms(2) a)
qed

text \<open>A call that only changes the pending writes keeps what lies below them.\<close>

lemma stored_cong:
  assumes "cacheID c' = cacheID c"
  shows "DB c' = DB c \<Longrightarrow> storedView B ip c' = storedView B ip c" "proper_id c' = proper_id c" "db_shape B c' = db_shape B c"
    "entryOf B c' = entryOf B c"
proof -
  have p: "cachePath c' = cachePath c" using assms by (simp add: cachePath_def fun_eq_iff)
  show "DB c' = DB c \<Longrightarrow> storedView B ip c' = storedView B ip c" using assms p by (simp add: storedView_def entryOf_def)
  show "proper_id c' = proper_id c" using assms by (simp add: proper_id_def)
  show "db_shape B c' = db_shape B c" using assms p by (simp add: db_shape_def cache_shape_def fun_eq_iff)
  show "entryOf B c' = entryOf B c" using p by (simp add: entryOf_def fun_eq_iff)
qed

lemma base_cong:
  assumes "cacheID c' = cacheID c" "DB c' = DB c" "writing c' = writing c"
  shows "baseView B ip c' = baseView B ip c" "storedView B ip c' = storedView B ip c" "proper_id c' = proper_id c"
    "db_shape B c' = db_shape B c"
  using stored_cong [OF assms(1)] assms(2,3) unfolding baseView_def by (simp_all split: option.splits)

lemma pending_step:
  assumes inv: "cache_inv B ip c ph" and same: "cacheID c' = cacheID c" "DB c' = DB c" "writing c' = writing c"
    and fits: "fits (pending c') (baseView B ip c)"
  shows "cache_inv B ip c' ph" "seen B ip c' = viewOver (pending c') (baseView B ip c)"
  using inv fits unfolding cache_inv_def seen_def base_cong [OF same] same(2,3) by simp_all

lemma queueFakeIP_fields:
  assumes "bolt_laws B" "addrFromIP_laws ip"
  shows "cacheID (queueFakeIP B c a d) = cacheID c" "DB (queueFakeIP B c a d) = DB c" "writing (queueFakeIP B c a d) = writing c"
    "rdrc (pending (queueFakeIP B c a d)) = rdrc (pending c)" "dnsCache (pending (queueFakeIP B c a d)) = dnsCache (pending c)"
    "fakeIPMetadata (pending (queueFakeIP B c a d)) = fakeIPMetadata (pending c)"
    "viewOver (pending (queueFakeIP B c a d)) V = viewOver (addPair a d (vLoad (seen B ip c) a) (pending c)) V"
    "wf_layer ok (pending (queueFakeIP B c a d)) D = wf_layer ok (addPair a d (vLoad (seen B ip c) a) (pending c)) D"
proof -
  have old: "(case FakeIPLoad B c a of Some d \<Rightarrow> Some d | None \<Rightarrow> map_of (fakeIPDomain (pending c)) a) = vLoad (seen B ip c) a"
    unfolding FakeIP_seen(1) [OF assms, of c]
    by (auto simp: seen_def viewOver_def layerLoad_def split: option.splits)
  let ?p = "addPair a d (vLoad (seen B ip c) a) (pending c)"
  have q: "dnsCache (pending (queueFakeIP B c a d)) = dnsCache ?p" "fakeIPDomain (pending (queueFakeIP B c a d)) = fakeIPDomain ?p"
    "fakeIPAddress4 (pending (queueFakeIP B c a d)) = fakeIPAddress4 ?p" "fakeIPAddress6 (pending (queueFakeIP B c a d)) = fakeIPAddress6 ?p"
    by (auto simp: queueFakeIP_def addPair_def Let_def old setAddress_def split: option.splits)
  show "viewOver (pending (queueFakeIP B c a d)) V = viewOver ?p V"
    "wf_layer ok (pending (queueFakeIP B c a d)) D = wf_layer ok ?p D"
    using view_cong [OF q] by simp_all
qed (auto simp: queueFakeIP_def Let_def setAddress_def split: option.splits)

definition viewStore :: "cacheView \<Rightarrow> Addr \<Rightarrow> string \<Rightarrow> cacheView" where
  "viewStore V a d = V\<lparr>vLoad := (vLoad V)(a \<mapsto> d),
     vDomain := (\<lambda>e v. if v = (\<not> Is4 a) then if e = d then Some a else if vLoad V a = Some e then None else vDomain V e v
                      else vDomain V e v)\<rparr>"

lemma queueFakeIP_step:
  assumes laws: "bolt_laws B" "addrFromIP_laws ip" and inv: "cache_inv B ip c ph"
    and a: "plain a" "keyDomain d" "vDomain (seen B ip c) d (\<not> Is4 a) = None"
  shows "cache_inv B ip (queueFakeIP B c a d) ph" "seen B ip (queueFakeIP B c a d) = viewStore (seen B ip c) a d"
proof -
  note f = queueFakeIP_fields [OF laws]
  let ?V = "baseView B ip c" and ?old = "vLoad (seen B ip c) a"
  have fit: "fits (pending c) ?V" using inv by (simp add: cache_inv_def)
  have "wf_layer keyDomain (addPair a d ?old (pending c)) (vDomain ?V)"
    using seen_matched(2) [OF inv] fit a by (intro wf_addPair) (auto simp: fits_def seen_def viewOver_def)
  then have "fits (pending (queueFakeIP B c a d)) ?V" using fit f by (simp add: fits_def wf_entries_def)
  note step = pending_step [OF inv f(1-3) this]
  show "cache_inv B ip (queueFakeIP B c a d) ph" using step(1) .
  have "dnsCache (addPair a d old p) = dnsCache p" for old p
    by (auto simp: addPair_def setAddress_def Let_def split: option.splits)
  then show "seen B ip (queueFakeIP B c a d) = viewStore (seen B ip c) a d"
    using addPair_view [of a d ?old "pending c"] a(1)
    unfolding step(2) f(7) by (auto simp: viewStore_def seen_def viewOver_def layerDNS_def fun_eq_iff plain_def)
qed

lemma entryMessage_value:
  "- (2 ^ 63) \<le> timeUnix t \<Longrightarrow> timeUnix t < 2 ^ 63 \<Longrightarrow> entryMessage (cacheValue raw t) = (raw, timeUnix t * second)"
  by (simp add: entryMessage_def cacheValue_def int64_be_int64)

lemma update_memD: "(j, v) \<in> set (AList.update k x xs) \<Longrightarrow> j = k \<and> v = x \<or> (j, v) \<in> set xs"
  by (induction xs) (auto split: if_splits)

lemma queueDNS_step:
  assumes inv: "cache_inv B ip c ph" and k: "keyed k" "length raw \<le> 65535"
    and t: "- (2 ^ 63) \<le> timeUnix t" "timeUnix t < 2 ^ 63"
  shows "cache_inv B ip (queueDNSCache c k raw t) ph"
    "seen B ip (queueDNSCache c k raw t) = (seen B ip c)\<lparr>vDNS := (vDNS (seen B ip c))(k \<mapsto> (raw, timeUnix t * second))\<rparr>"
proof -
  let ?c = "queueDNSCache c k raw t"
  have f: "cacheID ?c = cacheID c" "DB ?c = DB c" "writing ?c = writing c"
    "dnsCache (pending ?c) = AList.update k (cacheValue raw t) (dnsCache (pending c))" "rdrc (pending ?c) = rdrc (pending c)"
    "fakeIPDomain (pending ?c) = fakeIPDomain (pending c)" "fakeIPAddress4 (pending ?c) = fakeIPAddress4 (pending c)"
    "fakeIPAddress6 (pending ?c) = fakeIPAddress6 (pending c)" "fakeIPMetadata (pending ?c) = fakeIPMetadata (pending c)"
    by (simp_all add: queueDNSCache_def Let_def)
  have addr: "fakeIPAddress (pending ?c) = fakeIPAddress (pending c)" using f by (simp add: fakeIPAddress_def fun_eq_iff)
  have fit: "wf_entries (pending c)" "wf_layer keyDomain (pending c) (vDomain (baseView B ip c))"
    using inv by (simp_all add: cache_inv_def fits_def)
  have "validValue (cacheValue raw t)" "8 \<le> length (cacheValue raw t)" using k(2) by (simp_all add: cacheValue_def validValue_def)
  then have "\<forall>(j, v) \<in> set (AList.update k (cacheValue raw t) (dnsCache (pending c))). keyed j \<and> validValue v \<and> 8 \<le> length v"
    using fit(1) k(1) by (fastforce simp: wf_entries_def dest: update_memD)
  then have "wf_entries (pending ?c)" using fit(1) by (simp add: wf_entries_def f distinct_update)
  moreover have "wf_layer keyDomain (pending ?c) (vDomain (baseView B ip c))" using fit(2) unfolding wf_layer_def f addr .
  ultimately have fits: "fits (pending ?c) (baseView B ip c)" by (simp add: fits_def)
  note step = pending_step [OF inv f(1-3) fits]
  show "cache_inv B ip ?c ph" using step(1) .
  show "seen B ip ?c = (seen B ip c)\<lparr>vDNS := (vDNS (seen B ip c))(k \<mapsto> (raw, timeUnix t * second))\<rparr>"
    unfolding step(2) using entryMessage_value [OF t]
    by (auto simp: seen_def viewOver_def layerLoad_def layerDomain_def layerDNS_def f addr AList.update_conv' fun_eq_iff)
qed

lemma queueRDRC_step:
  assumes inv: "cache_inv B ip c ph" and k: "keyed k"
  shows "cache_inv B ip (queueRDRC c k) ph" "seen B ip (queueRDRC c k) = seen B ip c"
proof -
  let ?c = "queueRDRC c k"
  have f: "cacheID ?c = cacheID c" "DB ?c = DB c" "writing ?c = writing c" "dnsCache (pending ?c) = dnsCache (pending c)"
    "fakeIPDomain (pending ?c) = fakeIPDomain (pending c)" "fakeIPAddress4 (pending ?c) = fakeIPAddress4 (pending c)"
    "fakeIPAddress6 (pending ?c) = fakeIPAddress6 (pending c)" "fakeIPMetadata (pending ?c) = fakeIPMetadata (pending c)"
    "rdrc (pending ?c) = (if map_of (rdrc (pending c)) k \<noteq> None then rdrc (pending c) else AList.update k () (rdrc (pending c)))"
    by (simp_all add: queueRDRC_def)
  have fit: "wf_entries (pending c)" "wf_layer keyDomain (pending c) (vDomain (baseView B ip c))"
    using inv by (simp_all add: cache_inv_def fits_def)
  have "\<forall>(j, v) \<in> set (AList.update k () (rdrc (pending c))). keyed j"
    using fit(1) k by (fastforce simp: wf_entries_def dest: update_memD)
  then have "wf_entries (pending ?c)" using fit(1) by (simp add: wf_entries_def f distinct_update)
  then have fits: "fits (pending ?c) (baseView B ip c)"
    using fit(2) view_cong(2) [OF f(4-7)] by (simp add: fits_def)
  note step = pending_step [OF inv f(1-3) fits]
  show "cache_inv B ip ?c ph" "seen B ip ?c = seen B ip c"
    using step view_cong(1) [OF f(4-7)] by (simp_all add: seen_def)
qed

lemma saveMetadata_step:
  assumes inv: "cache_inv B ip c ph" and m: "plainMetadata m"
  shows "cache_inv B ip (FakeIPSaveMetadataAsync c m) ph" "seen B ip (FakeIPSaveMetadataAsync c m) = seen B ip c"
proof -
  let ?c = "FakeIPSaveMetadataAsync c m"
  have f: "cacheID ?c = cacheID c" "DB ?c = DB c" "writing ?c = writing c" "dnsCache (pending ?c) = dnsCache (pending c)"
    "fakeIPDomain (pending ?c) = fakeIPDomain (pending c)" "fakeIPAddress4 (pending ?c) = fakeIPAddress4 (pending c)"
    "fakeIPAddress6 (pending ?c) = fakeIPAddress6 (pending c)" "fakeIPMetadata (pending ?c) = Some m"
    "rdrc (pending ?c) = rdrc (pending c)"
    by (simp_all add: FakeIPSaveMetadataAsync_def Let_def)
  have "fits (pending c) (baseView B ip c)" using inv by (simp add: cache_inv_def)
  then have fits: "fits (pending ?c) (baseView B ip c)"
    using m view_cong(2) [OF f(4-7)] by (simp add: fits_def wf_entries_def f)
  note step = pending_step [OF inv f(1-3) fits]
  show "cache_inv B ip ?c ph" "seen B ip ?c = seen B ip c"
    using step view_cong(1) [OF f(4-7)] by (simp_all add: seen_def)
qed

section \<open>The parts of a flush\<close>

lemma Flush_begin_step:
  assumes inv: "cache_inv B ip c Idle" and c': "Flush_begin c = Some c'"
  shows "cache_inv B ip c' Taken" "seen B ip c' = seen B ip c"
proof -
  have eq: "c' = c\<lparr>writing := Some (pending c), pending := newPendingWrites\<rparr>"
    using c' by (auto simp: Flush_begin_def split: if_splits)
  have none: "writing c = None" using inv by (auto simp: cache_inv_def split: option.splits)
  have same: "storedView B ip c' = storedView B ip c" "proper_id c' = proper_id c" "db_shape B c' = db_shape B c"
    using stored_cong [of c' c] by (simp_all add: eq)
  have base: "baseView B ip c = storedView B ip c" "baseView B ip c' = viewOver (pending c) (storedView B ip c)"
    using none unfolding baseView_def same(1) by (simp_all add: eq)
  show "cache_inv B ip c' Taken"
    using inv unfolding cache_inv_def base same by (simp add: eq none)
  show "seen B ip c' = seen B ip c" unfolding seen_def base by (simp add: eq)
qed

lemma viewOver_idem: "viewOver p (viewOver p V) = viewOver p V"
  by (auto simp: viewOver_def layerLoad_def layerDomain_def layerDNS_def fun_eq_iff split: option.splits)

lemma fits_over:
  assumes "fits p V" shows "fits p (viewOver p V)"
proof -
  have w: "wf_layer keyDomain p (vDomain V)" using assms by (simp add: fits_def)
  have "wf_layer keyDomain p (layerDomain p (vDomain V))"
    unfolding wf_layer_def
  proof (intro conjI allI impI)
    fix d v a
    assume l: "layerDomain p (vDomain V) d v = Some a"
    show "map_of (fakeIPDomain p) a \<noteq> None" if "fakeIPAddress p d v \<noteq> None"
      using that l wf_layerD(5) [OF w, of d v a] by (auto simp: layerDomain_def validAddress_Some)
    show "fakeIPAddress p d v \<noteq> None" if "map_of (fakeIPDomain p) a \<noteq> None"
      using that l wf_layerD(7) [OF w, of d v a] by (auto simp: layerDomain_def split: option.splits)
  qed (use wf_layerD [OF w] in blast)+
  then show ?thesis using assms by (simp add: fits_def viewOver_def)
qed

text \<open>A committed write: the database now shows what the writes in progress say.\<close>

lemma Flush_write_step:
  assumes laws: "bolt_laws B" "addrFromIP_laws ip" and inv: "cache_inv B ip c Taken"
    and r: "runOutcome r = TxCommit" "reorders (runOrder r)"
  shows "fst (Flush_write B r c)" "cache_inv B ip (snd (Flush_write B r c)) (Written True)"
    "same_view (seen B ip (snd (Flush_write B r c))) (seen B ip c)"
proof -
  obtain w where w: "writing c = Some w" "fits w (storedView B ip c)"
    using inv by (auto simp: cache_inv_def split: option.splits)
  have base: "proper_id c" "db_shape B c (DB c)" "matched (dbLoad B (DB c)) (dbLoadDomain B ip (DB c))"
    "fits (pending c) (viewOver w (storedView B ip c))"
    using inv w(1) by (simp_all add: cache_inv_def baseView_def)
  obtain db where run: "writePending B c (runNow r) (runOrder r w) (DB c) = Some db" and shape: "db_shape B c db"
    and load: "\<And>b. plain b \<Longrightarrow> dbLoad B db b = layerLoad w (dbLoad B (DB c)) b"
    and dom: "dbLoadDomain B ip db = layerDomain w (dbLoadDomain B ip (DB c))"
    and dns: "\<And>k. entryOf B c bucketDNSCache db k =
        (case map_of (dnsCache w) k of Some v \<Rightarrow> Some v | None \<Rightarrow> entryOf B c bucketDNSCache (DB c) k)"
    by (rule writePending_ok [OF laws base(1,2,3) _ _ r(2), of w])
      (use w(2) in \<open>auto simp: fits_def storedView_def\<close>)
  let ?c = "c\<lparr>DB := db\<rparr>"
  have step: "Flush_write B r c = (True, ?c)" using w(1) run r(1) by (simp add: Flush_write_def dbUpdate_def)
  have long: "8 \<le> length v" if "map_of (dnsCache w) k = Some v" for k v
    using w(2) map_of_SomeD [OF that] by (auto simp: fits_def wf_entries_def)
  have new: "same_view (storedView B ip ?c) (viewOver w (storedView B ip c))"
    using load dom dns long stored_cong(4) [of ?c c B]
    by (auto simp: same_view_def storedView_def viewOver_def layerDNS_def fun_eq_iff split: option.splits) force+
  have "matched (dbLoad B db) (dbLoadDomain B ip db)"
    using layer_matched [OF base(3), of keyDomain w] w(2) load dom
    unfolding matched_def by (auto simp: fits_def storedView_def)
  moreover have "fits w (storedView B ip ?c)" using fits_same [OF new] fits_over [OF w(2)] by simp
  moreover have over: "same_view (viewOver w (storedView B ip ?c)) (storedView B ip ?c)"
    using viewOver_same [OF new, of w] new by (simp add: viewOver_idem same_view_def)
  moreover have "fits (pending c) (viewOver w (storedView B ip ?c))"
    using fits_same [OF same_view_trans [OF over new]] base(4) by simp
  ultimately have "cache_inv B ip ?c (Written True)"
    using base shape w(1) stored_cong [of ?c c] by (simp add: cache_inv_def baseView_def)
  moreover have "same_view (seen B ip ?c) (seen B ip c)"
    using viewOver_same [OF same_view_trans [OF over new]] w(1) by (simp add: seen_def baseView_def)
  ultimately show "fst (Flush_write B r c)" "cache_inv B ip (snd (Flush_write B r c)) (Written True)"
    "same_view (seen B ip (snd (Flush_write B r c))) (seen B ip c)" by (simp_all add: step)
qed

lemma Flush_end_step:
  assumes inv: "cache_inv B ip c (Written True)"
  shows "cache_inv B ip (Flush_end r True c) Idle" "same_view (seen B ip (Flush_end r True c)) (seen B ip c)"
proof -
  obtain w where w: "writing c = Some w" "same_view (viewOver w (storedView B ip c)) (storedView B ip c)"
    using inv by (auto simp: cache_inv_def split: option.splits)
  let ?c = "c\<lparr>writing := None\<rparr>"
  have step: "Flush_end r True c = ?c" using w(1) by (simp add: Flush_end_def)
  note cong = stored_cong [of ?c c, simplified]
  have "fits (pending c) (storedView B ip c)" using inv w fits_same [OF w(2)] by (simp add: cache_inv_def baseView_def)
  then have "cache_inv B ip ?c Idle" using inv cong by (simp add: cache_inv_def baseView_def)
  moreover have "same_view (seen B ip ?c) (seen B ip c)"
    using same_view_sym [OF viewOver_same [OF w(2)]] cong(1) w(1) by (simp add: seen_def baseView_def)
  ultimately show "cache_inv B ip (Flush_end r True c) Idle" "same_view (seen B ip (Flush_end r True c)) (seen B ip c)"
    by (simp_all add: step)
qed

end
