(* ===== verification/CacheProps.thy ===== *)
theory CacheProps
  imports CacheRun
begin

text \<open>
  What the cache file promises: its readers see the writes in their order,
  whatever a flush is doing meanwhile; FakeIP pairs kept in it are as good as
  pairs kept in memory; pending writes are counted exactly and a timer is
  set for them; and what a failed flush loses.
\<close>

section \<open>Resetting FakeIP\<close>

definition fakeipBuckets :: "bytes set" where
  "fakeipBuckets = {bucketFakeIP, bucketFakeIPDomain4, bucketFakeIPDomain6}"

lemma deleteFakeIPBuckets_ok:
  assumes B: "bolt_laws B" and shape: "fakeip_shape B db"
  obtains db' where "deleteFakeIPBuckets B db = Some db'" "\<And>q. dbHas B db' q \<Longrightarrow> dbHas B db q"
    "\<And>b k. b \<in> fakeipBuckets \<Longrightarrow> \<not> dbHas B db' [b] \<and> dbGet B db' [b] k = None"
    "\<And>q. q \<noteq> [] \<Longrightarrow> hd q \<notin> fakeipBuckets \<Longrightarrow> dbHas B db' q = dbHas B db q \<and> (\<forall>k. dbGet B db' q k = dbGet B db q k)"
proof -
  let ?f = "\<lambda>(bucket :: bytes) db. case dbDeleteBucket B db [bucket] of
         Inr db' \<Rightarrow> Some db' | Inl ErrBucketNotFound \<Rightarrow> Some db | Inl _ \<Rightarrow> None"
  have one: "\<exists>db'. ?f b d = Some db' \<and> (\<forall>q. dbHas B db' q \<longrightarrow> dbHas B d q) \<and> \<not> dbHas B db' [b] \<and>
      (\<forall>q. q \<noteq> [] \<longrightarrow> hd q \<noteq> b \<longrightarrow> dbHas B db' q = dbHas B d q \<and> (\<forall>k. dbGet B db' q k = dbGet B d q k))" for b d
  proof (cases "dbHas B d [b]")
    case True
    then obtain d' where d': "dbDeleteBucket B d [b] = Inr d'" using bolt_bucket(9) [OF B] by blast
    have "take (length [b]) q = [b] \<longleftrightarrow> q \<noteq> [] \<and> hd q = b" for q by (cases q) auto
    then show ?thesis using d' bolt_bucket(10,11) [OF B d'] by (intro exI [of _ d']) auto
  next
    case False
    then show ?thesis using bolt_bucket(8) [OF B False] by (intro exI [of _ d]) auto
  qed
  obtain d1 where 1: "?f bucketFakeIP db = Some d1" "\<And>q. dbHas B d1 q \<Longrightarrow> dbHas B db q" "\<not> dbHas B d1 [bucketFakeIP]"
    "\<And>q. q \<noteq> [] \<Longrightarrow> hd q \<noteq> bucketFakeIP \<Longrightarrow> dbHas B d1 q = dbHas B db q \<and> (\<forall>k. dbGet B d1 q k = dbGet B db q k)"
    using one [of db bucketFakeIP] by auto
  obtain d2 where 2: "?f bucketFakeIPDomain4 d1 = Some d2" "\<And>q. dbHas B d2 q \<Longrightarrow> dbHas B d1 q" "\<not> dbHas B d2 [bucketFakeIPDomain4]"
    "\<And>q. q \<noteq> [] \<Longrightarrow> hd q \<noteq> bucketFakeIPDomain4 \<Longrightarrow> dbHas B d2 q = dbHas B d1 q \<and> (\<forall>k. dbGet B d2 q k = dbGet B d1 q k)"
    using one [of d1 bucketFakeIPDomain4] by auto
  obtain d3 where 3: "?f bucketFakeIPDomain6 d2 = Some d3" "\<And>q. dbHas B d3 q \<Longrightarrow> dbHas B d2 q" "\<not> dbHas B d3 [bucketFakeIPDomain6]"
    "\<And>q. q \<noteq> [] \<Longrightarrow> hd q \<noteq> bucketFakeIPDomain6 \<Longrightarrow> dbHas B d3 q = dbHas B d2 q \<and> (\<forall>k. dbGet B d3 q k = dbGet B d2 q k)"
    using one [of d2 bucketFakeIPDomain6] by auto
  have gone: "\<not> dbHas B d3 [b]" if "b \<in> fakeipBuckets" for b
    using that 1(3) 2(2,3) 3(2,3) by (auto simp: fakeipBuckets_def)
  show ?thesis
  proof (rule that [of d3])
    show "deleteFakeIPBuckets B db = Some d3" using 1(1) 2(1) 3(1) by (simp add: deleteFakeIPBuckets_def)
    show "dbHas B db q" if "dbHas B d3 q" for q using that 1(2) 2(2) 3(2) by blast
    show "\<not> dbHas B d3 [b] \<and> dbGet B d3 [b] k = None" if "b \<in> fakeipBuckets" for b k
      using gone [OF that] bolt_bucket(2) [OF B gone [OF that]] by simp
    show "dbHas B d3 q = dbHas B db q \<and> (\<forall>k. dbGet B d3 q k = dbGet B db q k)" if "q \<noteq> []" "hd q \<notin> fakeipBuckets" for q
      using that 1(4) [of q] 2(4) [of q] 3(4) [of q] by (auto simp: fakeipBuckets_def)
  qed
qed

lemma FakeIPReset_step:
  assumes laws: "bolt_laws B" "addrFromIP_laws ip" and inv: "cache_inv B ip c Idle" and r: "runOutcome r = TxCommit"
  shows "fst (FakeIPReset B r c)" "cache_inv B ip (snd (FakeIPReset B r c)) Idle"
    "same_view (seen B ip (snd (FakeIPReset B r c))) ((seen B ip c)\<lparr>vLoad := Map.empty, vDomain := \<lambda>_ _. None\<rparr>)"
proof -
  have none: "writing c = None" and base: "proper_id c" "db_shape B c (DB c)" "wf_entries (pending c)"
    using inv by (auto simp: cache_inv_def fits_def split: option.splits)
  have shape: "fakeip_shape B (DB c)" "cache_shape B c bucketDNSCache (DB c)" "cache_shape B c bucketRDRC (DB c)"
    using base(2) by (simp_all add: db_shape_def)
  obtain db where del: "deleteFakeIPBuckets B (DB c) = Some db" and mono: "\<And>q. dbHas B db q \<Longrightarrow> dbHas B (DB c) q"
    and gone: "\<And>b k. b \<in> fakeipBuckets \<Longrightarrow> \<not> dbHas B db [b] \<and> dbGet B db [b] k = None"
    and keep: "\<And>q. q \<noteq> [] \<Longrightarrow> hd q \<notin> fakeipBuckets \<Longrightarrow> dbHas B db q = dbHas B (DB c) q \<and> (\<forall>k. dbGet B db q k = dbGet B (DB c) q k)"
    by (rule deleteFakeIPBuckets_ok [OF laws(1) shape(1)]; rule that)
  define c' where "c' = snd (FakeIPReset B r c)"
  have c': "cacheID c' = cacheID c" "DB c' = db" "writing c' = None" "dnsCache (pending c') = dnsCache (pending c)"
    "rdrc (pending c') = rdrc (pending c)" "fakeIPDomain (pending c') = []" "fakeIPMetadata (pending c') = None"
    "fakeIPAddress4 (pending c') = Map.empty" "fakeIPAddress6 (pending c') = Map.empty" and ok: "fst (FakeIPReset B r c)"
    using none del r by (simp_all add: c'_def FakeIPReset_def Let_def dbUpdate_def)
  have far: "q \<noteq> []" "hd q \<notin> fakeipBuckets" if "q = cachePath c b @ s \<or> cacheID c = Some (hd q) \<and> q \<noteq> []" "b \<in> {bucketDNSCache, bucketRDRC}" for q b s
    using that id_names [OF base(1)] by (auto simp: cachePath_def fakeipBuckets_def split: option.splits)
  have cache: "cache_shape B c b db" "entryOf B c b db = entryOf B c b (DB c)"
    if "b \<in> {bucketDNSCache, bucketRDRC}" "cache_shape B c b (DB c)" for b
  proof -
    have k: "dbHas B db (cachePath c b @ s) = dbHas B (DB c) (cachePath c b @ s)"
      "dbGet B db (cachePath c b @ s) k = dbGet B (DB c) (cachePath c b @ s) k" for s k
      using keep [OF far [of "cachePath c b @ s" b s]] that(1) by auto
    have kid: "dbHas B db [cid] = dbHas B (DB c) [cid]" "dbGet B db [cid] k = dbGet B (DB c) [cid] k" if "cacheID c = Some cid" for cid k
      using keep [OF far [of "[cid]" b]] that \<open>b \<in> {bucketDNSCache, bucketRDRC}\<close> by auto
    show "cache_shape B c b db"
      using that(2) k(1) k(2) [of "[]"] k(1) [of "[]"] kid unfolding cache_shape_def by simp
    show "entryOf B c b db = entryOf B c b (DB c)" by (simp add: entryOf_def k(2) fun_eq_iff)
  qed
  have nested: "\<not> dbHas B db [b, k]" if "b \<in> fakeipBuckets" for b k
    using mono [of "[b, k]"] shape(1) that by (auto simp: fakeip_shape_def fakeipBuckets_def)
  have fake: "fakeip_shape B db" "dbLoad B db = Map.empty" "dbLoadDomain B ip db = (\<lambda>_ _. None)"
    using gone nested
    by (simp_all add: fakeip_shape_def domainPath_def dbLoad_def dbLoadDomain_def fakeipBuckets_def fun_eq_iff)
  have stored: "storedView B ip c' = (storedView B ip c)\<lparr>vLoad := Map.empty, vDomain := \<lambda>_ _. None\<rparr>"
    using cache(2) [OF _ shape(2)] stored_cong(4) [OF c'(1)] by (simp add: storedView_def c' fake)
  have addr: "fakeIPAddress (pending c') = (\<lambda>_ _. None)" by (simp add: fakeIPAddress_def c' fun_eq_iff)
  have "fits (pending c') (storedView B ip c')"
    using base(3) by (simp add: fits_def wf_entries_def wf_layer_def c' addr)
  then show inv': "cache_inv B ip (snd (FakeIPReset B r c)) Idle"
    unfolding c'_def [symmetric]
    using base(1) stored_cong [OF c'(1)] fake cache [OF _ shape(2)] cache [OF _ shape(3)]
    by (simp add: cache_inv_def baseView_def c' db_shape_def matched_def)
  show "fst (FakeIPReset B r c)" using ok .
  show "same_view (seen B ip (snd (FakeIPReset B r c))) ((seen B ip c)\<lparr>vLoad := Map.empty, vDomain := \<lambda>_ _. None\<rparr>)"
    unfolding c'_def [symmetric]
    by (simp add: same_view_def seen_def baseView_def c' none stored viewOver_def layerLoad_def layerDomain_def addr
        layerDNS_def fun_eq_iff)
qed

section \<open>A whole flush\<close>

lemma Flush_step:
  assumes laws: "bolt_laws B" "addrFromIP_laws ip" and inv: "cache_inv B ip c Idle"
    and r: "runOutcome r = TxCommit" "reorders (runOrder r)"
  shows "cache_inv B ip (Flush B r c) Idle" "same_view (seen B ip (Flush B r c)) (seen B ip c)"
proof -
  have "cache_inv B ip (Flush B r c) Idle \<and> same_view (seen B ip (Flush B r c)) (seen B ip c)"
  proof (cases "Flush_begin c")
    case None
    then show ?thesis using inv by (simp add: Flush_def)
  next
    case (Some c1)
    note 1 = Flush_begin_step [OF inv Some]
    note 2 = Flush_write_step [OF laws 1(1) r]
    note 3 = Flush_end_step [OF 2(2), of r]
    have "Flush B r c = Flush_end r True (snd (Flush_write B r c1))"
      using Some 2(1) by (cases "Flush_write B r c1") (simp add: Flush_def)
    then show ?thesis using 3 2(3) 1(2) same_view_trans by metis
  qed
  then show "cache_inv B ip (Flush B r c) Idle" "same_view (seen B ip (Flush B r c)) (seen B ip c)" by blast+
qed

section \<open>The contract of a FakeIP storage\<close>

lemma cache_inv_emptied:
  assumes B: "bolt_laws B" and inv: "cache_inv B ip c Idle"
  shows "cache_inv B ip (c\<lparr>DB := dbEmpty B\<rparr>) Idle"
proof -
  let ?c = "c\<lparr>DB := dbEmpty B\<rparr>"
  have none: "writing c = None" and fit: "fits (pending c) (baseView B ip c)" and id: "proper_id c"
    using inv by (auto simp: cache_inv_def split: option.splits)
  have e: "\<not> dbHas B (dbEmpty B) q" "dbGet B (dbEmpty B) q k = None" for q k
    using bolt_bucket(1,2) [OF B] by blast+
  have "wf_layer keyDomain (pending c) (\<lambda>_ _. None)"
    using fit wf_layer_nothing unfolding fits_def by blast
  moreover have "dbLoad B (dbEmpty B) = Map.empty" "dbLoadDomain B ip (dbEmpty B) = (\<lambda>_ _. None)"
    by (simp_all add: dbLoad_def dbLoadDomain_def e fun_eq_iff)
  ultimately show ?thesis
    using fit id none stored_cong [of ?c c, simplified]
    by (simp add: cache_inv_def db_shape_def fakeip_shape_def cache_shape_def e matched_def baseView_def storedView_def fits_def)
qed

lemma cacheFile_storage:
  assumes laws: "bolt_laws B" "addrFromIP_laws ip" and r: "runOutcome r = TxCommit" "reorders (runOrder r)"
  shows "fakeip_storage (cacheFileStorage B ip r) (\<lambda>c. cache_inv B ip c Idle) keyDomain plain"
proof
  note see = FakeIP_seen [OF laws]
  fix st :: "'a CacheFile" and d v6 a b d' m
  assume inv: "cache_inv B ip st Idle"
  show "stLoad (cacheFileStorage B ip r) st a = Some d \<and> Is4 a = (\<not> v6)"
    if "stLoadDomain (cacheFileStorage B ip r) st d v6 = Some a"
    using that matchedD(2,3) [OF seen_matched(1) [OF inv]] by (auto simp: cacheFileStorage_def see)
  show "cache_inv B ip (stStoreAsync (cacheFileStorage B ip r) st a d) Idle"
    "stLoadDomain (cacheFileStorage B ip r) (stStoreAsync (cacheFileStorage B ip r) st a d) d' v6 =
      (if v6 = (\<not> Is4 a) then if d' = d then Some a else if stLoad (cacheFileStorage B ip r) st a = Some d' then None
         else stLoadDomain (cacheFileStorage B ip r) st d' v6
       else stLoadDomain (cacheFileStorage B ip r) st d' v6)"
    if "plain a" "keyDomain d" "stLoadDomain (cacheFileStorage B ip r) st d (\<not> Is4 a) = None"
    using queueFakeIP_step [OF laws inv that(1,2)] that(3) by (auto simp: cacheFileStorage_def see viewStore_def)
  show "stLoad (cacheFileStorage B ip r) (stStoreAsync (cacheFileStorage B ip r) st a d) b =
      (if b = a then Some d else stLoad (cacheFileStorage B ip r) st b)"
    if "plain a" "keyDomain d" "stLoadDomain (cacheFileStorage B ip r) st d (\<not> Is4 a) = None" "plain b"
    using queueFakeIP_step [OF laws inv that(1,2)] that(3) by (auto simp: cacheFileStorage_def see viewStore_def)
  have saved: "cache_inv B ip (Flush B r (FakeIPSaveMetadataAsync st m)) Idle"
    "same_view (seen B ip (Flush B r (FakeIPSaveMetadataAsync st m))) (seen B ip st)" if "plainMetadata m"
    using saveMetadata_step [OF inv that] Flush_step [OF laws _ r] by (metis (no_types))+
  show "fst (stSaveMetadata (cacheFileStorage B ip r) st m)" if "plainMetadata m"
    by (simp add: cacheFileStorage_def FakeIPSaveMetadata_def)
  show "cache_inv B ip (snd (stSaveMetadata (cacheFileStorage B ip r) st m)) Idle" if "plainMetadata m"
    using saved [OF that] by (simp add: cacheFileStorage_def FakeIPSaveMetadata_def)
  show "stLoad (cacheFileStorage B ip r) (snd (stSaveMetadata (cacheFileStorage B ip r) st m)) b =
      stLoad (cacheFileStorage B ip r) st b" if "plainMetadata m" "plain b"
    using saved [OF that(1)] that(2) by (simp add: cacheFileStorage_def FakeIPSaveMetadata_def see same_view_def)
  show "stLoadDomain (cacheFileStorage B ip r) (snd (stSaveMetadata (cacheFileStorage B ip r) st m)) =
      stLoadDomain (cacheFileStorage B ip r) st" if "plainMetadata m"
    using saved [OF that] by (simp add: cacheFileStorage_def FakeIPSaveMetadata_def see same_view_def)
  show "cache_inv B ip (f st m) Idle" if "stSaveMetadataAsync (cacheFileStorage B ip r) = Some f" "plainMetadata m" for f
    using that saveMetadata_step(1) [OF inv] by (simp add: cacheFileStorage_def)
  show "cache_inv B ip (snd (stMetadata (cacheFileStorage B ip r) st)) Idle"
    using inv cache_inv_emptied [OF laws(1) inv]
    by (auto simp: cacheFileStorage_def CacheFile_FakeIPMetadata_def split: option.splits sum.splits unmarshal_error.splits)
  note reset = FakeIPReset_step [OF laws inv r(1)]
  show "cache_inv B ip (snd (stReset (cacheFileStorage B ip r) st)) Idle" using reset(2) by (simp add: cacheFileStorage_def)
  show "stLoad (cacheFileStorage B ip r) (snd (stReset (cacheFileStorage B ip r) st)) a = None" if "plain a"
    using reset(3) that by (simp add: cacheFileStorage_def see same_view_def)
  show "stLoadDomain (cacheFileStorage B ip r) (snd (stReset (cacheFileStorage B ip r) st)) d v6 = None"
    using reset(3) by (simp add: cacheFileStorage_def see same_view_def)
next
  fix f and st :: "'a CacheFile" and m
  assume f: "stSaveMetadataAsync (cacheFileStorage B ip r) = Some f"
  let ?c = "FakeIPSaveMetadataAsync st m"
  have g: "DB ?c = DB st" "writing ?c = writing st" "fakeIPDomain (pending ?c) = fakeIPDomain (pending st)"
    "fakeIPAddress4 (pending ?c) = fakeIPAddress4 (pending st)" "fakeIPAddress6 (pending ?c) = fakeIPAddress6 (pending st)"
    by (simp_all add: FakeIPSaveMetadataAsync_def Let_def)
  have same: "FakeIPLoad B (FakeIPSaveMetadataAsync st m) = FakeIPLoad B st"
    "FakeIPLoadDomain B ip (FakeIPSaveMetadataAsync st m) = FakeIPLoadDomain B ip st"
    unfolding FakeIPLoad_def FakeIPLoadDomain_def fakeIPAddress_def g by (rule refl)+
  show "stLoad (cacheFileStorage B ip r) (f st m) = stLoad (cacheFileStorage B ip r) st"
    "stLoadDomain (cacheFileStorage B ip r) (f st m) = stLoadDomain (cacheFileStorage B ip r) st"
    using f same by (simp_all add: cacheFileStorage_def)
qed

section \<open>A new cache file\<close>

lemma newCacheFile_fields [simp]:
  "DB (newCacheFile options db) = db" "pending (newCacheFile options db) = newPendingWrites" "writing (newCacheFile options db) = None"
  "cacheID (newCacheFile options db) = (if CacheID options \<noteq> [] then Some (0 # str_bytes (CacheID options)) else None)"
  by (simp_all add: newCacheFile_def)

lemma cache_inv_new:
  assumes B: "bolt_laws B" shows "cache_inv B ip (newCacheFile options (dbEmpty B)) Idle"
proof -
  have e: "\<not> dbHas B (dbEmpty B) q" "dbGet B (dbEmpty B) q k = None" for q k
    using bolt_bucket(1,2) [OF B] by blast+
  have "dbLoad B (dbEmpty B) = Map.empty" "dbLoadDomain B ip (dbEmpty B) = (\<lambda>_ _. None)"
    by (simp_all add: dbLoad_def dbLoadDomain_def e fun_eq_iff)
  then show ?thesis
    by (simp add: cache_inv_def proper_id_def db_shape_def fakeip_shape_def cache_shape_def e matched_def)
qed


text \<open>An instance of the parameters, on the database in memory.\<close>

definition exampleIP :: "bytes \<Rightarrow> Addr" where
  "exampleIP bs = (if length bs = 4 then AddrFrom4 bs else if length bs = 16 then AddrFrom16 bs else AddrZero)"

definition exampleRun :: flushRun where
  "exampleRun = \<lparr>runOutcome = TxCommit, runNow = 0, runOrder = (\<lambda>p. p)\<rparr>"

definition exampleFile :: "mapdb CacheFile" where
  "exampleFile = newCacheFile \<lparr>CacheID = ''x'', StoreFakeIP = True, StoreDNS = True, BufferSize = 0,
     FlushInterval = 60, StoreRDRC = False, RDRCTimeout = 0\<rparr>
     (dbEmpty mapBolt)"

lemma exampleIP_laws: "addrFromIP_laws exampleIP"
proof -
  have "exampleIP (AsSlice a) = a" if "plain a" for a
  proof (cases a)
    case (Addr6 v z)
    then show ?thesis
      using that unat_u128_less [of v] by (simp add: plain_def exampleIP_def AddrFrom16_def be_uint_be_bytes)
  qed (use that in \<open>auto simp: plain_def exampleIP_def AddrFrom4_def\<close>)
  then show ?thesis by (simp add: addrFromIP_laws_def exampleIP_def)
qed

lemma exampleRun_simps: "runOutcome exampleRun = TxCommit" "reorders (runOrder exampleRun)"
  by (simp_all add: exampleRun_def reorders_def)

lemma exampleFile_inv: "cache_inv mapBolt exampleIP exampleFile Idle" "pending exampleFile = newPendingWrites"
  "DB exampleFile = dbEmpty mapBolt" "writing exampleFile = None"
  by (simp_all add: exampleFile_def cache_inv_new mapBolt_laws)


section \<open>Readers see the writes in order\<close>

text \<open>
  Runs of a cache file whose transactions commit, with the view a reader should
  have: calls add writes, and the three parts of a flush come between them at
  any point. Only the calls change the view.
\<close>

inductive cache_runs :: "'d bolt \<Rightarrow> (bytes \<Rightarrow> Addr) \<Rightarrow> 'd CacheFile \<Rightarrow> phase \<Rightarrow> cacheView \<Rightarrow> bool"
  for B ip where
  opened: "cache_inv B ip c Idle \<Longrightarrow> pending c = newPendingWrites \<Longrightarrow> cache_runs B ip c Idle (storedView B ip c)"
| pair: "cache_runs B ip c ph V \<Longrightarrow> plain a \<Longrightarrow> keyDomain d \<Longrightarrow> vDomain V d (\<not> Is4 a) = None \<Longrightarrow>
    cache_runs B ip (queueFakeIP B c a d) ph (viewStore V a d)"
| dns: "cache_runs B ip c ph V \<Longrightarrow> keyed k \<Longrightarrow> length raw \<le> 65535 \<Longrightarrow> - (2 ^ 63) \<le> timeUnix t \<Longrightarrow> timeUnix t < 2 ^ 63 \<Longrightarrow>
    cache_runs B ip (queueDNSCache c k raw t) ph (V\<lparr>vDNS := (vDNS V)(k \<mapsto> (raw, timeUnix t * second))\<rparr>)"
| rejected: "cache_runs B ip c ph V \<Longrightarrow> keyed k \<Longrightarrow> cache_runs B ip (queueRDRC c k) ph V"
| metadata: "cache_runs B ip c ph V \<Longrightarrow> plainMetadata m \<Longrightarrow> cache_runs B ip (FakeIPSaveMetadataAsync c m) ph V"
| reset: "cache_runs B ip c Idle V \<Longrightarrow> runOutcome r = TxCommit \<Longrightarrow>
    cache_runs B ip (snd (FakeIPReset B r c)) Idle (V\<lparr>vLoad := Map.empty, vDomain := \<lambda>_ _. None\<rparr>)"
| taken: "cache_runs B ip c Idle V \<Longrightarrow> Flush_begin c = Some c' \<Longrightarrow> cache_runs B ip c' Taken V"
| commit: "cache_runs B ip c Taken V \<Longrightarrow> runOutcome r = TxCommit \<Longrightarrow> reorders (runOrder r) \<Longrightarrow>
    cache_runs B ip (snd (Flush_write B r c)) (Written (fst (Flush_write B r c))) V"
| finish: "cache_runs B ip c (Written ok) V \<Longrightarrow> cache_runs B ip (Flush_end r ok c) Idle V"

lemma viewStore_same: "plain a \<Longrightarrow> same_view V W \<Longrightarrow> same_view (viewStore V a d) (viewStore W a d)"
  by (auto simp: same_view_def viewStore_def fun_eq_iff)

lemma cache_runs_inv:
  assumes "cache_runs B ip c ph V" "bolt_laws B" "addrFromIP_laws ip"
  shows "cache_inv B ip c ph \<and> same_view (seen B ip c) V \<and> ph \<noteq> Written False"
  using assms
proof (induction rule: cache_runs.induct)
  case (opened c)
  then have "writing c = None" by (auto simp: cache_inv_def split: option.splits)
  then show ?case using opened by (simp add: seen_def baseView_def)
next
  case (pair c ph V a d)
  then have inv: "cache_inv B ip c ph" "same_view (seen B ip c) V" "ph \<noteq> Written False" by auto
  then have "vDomain (seen B ip c) d (\<not> Is4 a) = None" using pair.hyps(4) by (simp add: same_view_def)
  then show ?case
    using queueFakeIP_step [OF pair.prems inv(1) pair.hyps(2,3)] viewStore_same [OF pair.hyps(2) inv(2)] inv(3) by simp
next
  case (dns c ph V k raw t)
  then have inv: "cache_inv B ip c ph" "same_view (seen B ip c) V" "ph \<noteq> Written False" by auto
  then show ?case using queueDNS_step [OF inv(1) dns.hyps(2-5)] by (simp add: same_view_def)
next
  case (rejected c ph V k)
  then show ?case using queueRDRC_step by metis
next
  case (metadata c ph V m)
  then show ?case using saveMetadata_step by metis
next
  case (reset c V r)
  then have inv: "cache_inv B ip c Idle" "same_view (seen B ip c) V" by auto
  then show ?case using FakeIPReset_step [OF reset.prems inv(1) reset.hyps(2)] by (simp add: same_view_def)
next
  case (taken c V c')
  then show ?case using Flush_begin_step by (metis phase.distinct(5))
next
  case (commit c V r)
  then have inv: "cache_inv B ip c Taken" "same_view (seen B ip c) V" by auto
  note w = Flush_write_step [OF commit.prems inv(1) commit.hyps(2,3)]
  then show ?case using same_view_trans [OF w(3) inv(2)] by simp
next
  case (finish c ok V r)
  then have inv: "cache_inv B ip c (Written True)" "ok" "same_view (seen B ip c) V" by auto
  then show ?case using Flush_end_step [OF inv(1), of r] same_view_trans by auto
qed

text \<open>
  C19. A flush is invisible to readers. In every run of a cache file whose
  transactions commit, at every moment, also between the parts of a flush and
  with writes queued meanwhile, \<^verbatim>\<open>FakeIPLoad\<close>, \<^verbatim>\<open>FakeIPLoadDomain\<close> and
  \<^verbatim>\<open>LoadDNSCache\<close> give what the sequence of calls alone determines: the last write
  of a key, wherever it is kept at the time.
\<close>

theorem cachefile_readers:
  assumes "bolt_laws B" "addrFromIP_laws ip" "cache_runs B ip c ph V"
  shows "(\<forall>a. plain a \<longrightarrow> FakeIPLoad B c a = vLoad V a) \<and> FakeIPLoadDomain B ip c = vDomain V \<and> LoadDNSCache B c = vDNS V"
proof -
  have inv: "cache_inv B ip c ph" "same_view (seen B ip c) V" using cache_runs_inv [OF assms(3,1,2)] by auto
  have "cache_shape B c bucketDNSCache (DB c)" using inv(1) by (simp add: cache_inv_def db_shape_def)
  then show ?thesis
    using inv(2) LoadDNSCache_seen [OF assms(1)] FakeIP_seen [OF assms(1,2)] by (auto simp: same_view_def)
qed

theorem cachefile_readers_witness:
  "\<exists>c V. cache_runs mapBolt exampleIP c Taken V \<and> fakeIPDomain (pending c) = [] \<and>
     FakeIPLoadDomain mapBolt exampleIP c ''a.org'' False = Some (Addr4 5) \<and>
     LoadDNSCache mapBolt c \<lparr>TransportName = ''t'', QuestionName = ''a'', KeyQType = 1\<rparr> = Some ([7], 0)"
proof -
  let ?k = "\<lparr>TransportName = ''t'', QuestionName = ''a'', KeyQType = 1\<rparr>"
  let ?c1 = "queueFakeIP mapBolt exampleFile (Addr4 5) ''a.org''" and ?V = "storedView mapBolt exampleIP exampleFile"
  have "vDomain ?V ''a.org'' False = None"
    using bolt_bucket(1,2) [OF mapBolt_laws] by (simp add: storedView_def dbLoadDomain_def exampleFile_inv)
  then have 1: "cache_runs mapBolt exampleIP ?c1 Idle (viewStore ?V (Addr4 5) ''a.org'')"
    using cache_runs.opened [OF exampleFile_inv(1,2)] by (intro cache_runs.pair) (auto simp: plain_def keyDomain_def)
  have "pendingCount (pending ?c1) = 1"
    by (simp add: queueFakeIP_def enqueueLocked_def Let_def setAddress_def exampleFile_inv split: option.splits)
  then obtain c2 where c2: "Flush_begin ?c1 = Some c2" "pending c2 = newPendingWrites" by (simp add: Flush_begin_def)
  have 3: "cache_runs mapBolt exampleIP (queueDNSCache c2 ?k [7] 0) Taken
      ((viewStore ?V (Addr4 5) ''a.org'')\<lparr>vDNS := (vDNS (viewStore ?V (Addr4 5) ''a.org''))(?k \<mapsto> ([7], timeUnix 0 * second))\<rparr>)"
    by (rule cache_runs.dns [OF cache_runs.taken [OF 1 c2(1)]]) (simp_all add: keyed_def timeUnix_def)
  have "fakeIPDomain (pending (queueDNSCache c2 ?k [7] 0)) = []" by (simp add: queueDNSCache_def Let_def c2)
  then show ?thesis
    using 3 cachefile_readers [OF mapBolt_laws exampleIP_laws 3]
    by (intro exI conjI) (auto simp: viewStore_def timeUnix_def)
qed

end
