(* ===== verification/CacheFlush.thy ===== *)
theory CacheFlush
  imports CacheProps
begin

text \<open>
  The queue of the cache file under every outcome of its transactions: its
  count is the number of its entries, a flush is due whenever there are any,
  and a flush that fails keeps the DNS entries and the rejected queries for
  their readers.
\<close>

section \<open>The count of pending writes\<close>

definition entryCount :: "pendingWrites \<Rightarrow> nat" where
  "entryCount p = length (dnsCache p) + length (rdrc p) + length (fakeIPDomain p) + (if fakeIPMetadata p = None then 0 else 1)"

definition counted :: "pendingWrites \<Rightarrow> bool" where
  "counted p \<longleftrightarrow> pendingCount p = int (entryCount p) \<and>
     distinct (map fst (dnsCache p)) \<and> distinct (map fst (rdrc p)) \<and> distinct (map fst (fakeIPDomain p))"

definition due :: "'d CacheFile \<Rightarrow> bool \<Rightarrow> bool" where
  "due c waiting \<longleftrightarrow> (0 < flushInterval c \<longrightarrow> 0 < pendingCount (pending c) \<longrightarrow> flushTimer c \<or> waiting)"

lemma length_update: "length (AList.update k v xs) = (if map_of xs k = None then Suc (length xs) else length xs)"
  by (induction xs) auto

lemma length_delete: "distinct (map fst xs) \<Longrightarrow> map_of xs k \<noteq> None \<Longrightarrow> length xs = Suc (length (AList.delete k xs))"
proof (induction xs)
  case (Cons x xs)
  then show ?case by (cases "fst x = k") (auto simp: delete_id)
qed simp

lemma counted_new: "counted newPendingWrites"
  by (simp add: counted_def entryCount_def newPendingWrites_def)

lemma enqueue_counted:
  assumes "pendingCount (pending c) + (if added then 1 else 0) = int (entryCount (pending c))"
    and "distinct (map fst (dnsCache (pending c)))" "distinct (map fst (rdrc (pending c)))"
      "distinct (map fst (fakeIPDomain (pending c)))"
  shows "counted (pending (enqueueLocked c added d))"
  using assms by (auto simp: enqueueLocked_def Let_def counted_def entryCount_def split: if_splits)

lemma enqueue_due: "due c w \<Longrightarrow> 0 \<le> pendingCount (pending c) \<Longrightarrow> due (enqueueLocked c added d) w"
  by (auto simp: enqueueLocked_def Let_def due_def)

lemma queueFakeIP_counted: "counted (pending c) \<Longrightarrow> counted (pending (queueFakeIP B c a d))"
  unfolding queueFakeIP_def Let_def
  by (rule enqueue_counted)
    (auto simp: counted_def entryCount_def setAddress_def length_update distinct_update split: option.splits)

lemma queueDNSCache_counted: "counted (pending c) \<Longrightarrow> counted (pending (queueDNSCache c k raw t))"
  unfolding queueDNSCache_def Let_def
  by (rule enqueue_counted) (auto simp: counted_def entryCount_def length_update distinct_update)

lemma queueRDRC_counted: "counted (pending c) \<Longrightarrow> counted (pending (queueRDRC c k))"
proof (cases "map_of (rdrc (pending c)) k")
  case None
  assume "counted (pending c)"
  then have "counted (pending (enqueueLocked (c\<lparr>pending := (pending c)\<lparr>rdrc := AList.update k () (rdrc (pending c))\<rparr>\<rparr>) True
      (int (length (QuestionName k)))))"
    using None by (intro enqueue_counted) (auto simp: counted_def entryCount_def length_update distinct_update)
  then show ?thesis using None by (simp add: queueRDRC_def)
qed (simp add: queueRDRC_def)

lemma FakeIPSaveMetadataAsync_counted: "counted (pending c) \<Longrightarrow> counted (pending (FakeIPSaveMetadataAsync c m))"
  unfolding FakeIPSaveMetadataAsync_def Let_def
  by (rule enqueue_counted) (auto simp: counted_def entryCount_def)

lemma queue_due:
  assumes "due c w" "counted (pending c)"
  shows "due (queueFakeIP B c a d) w" "due (queueDNSCache c k raw t) w" "due (queueRDRC c k) w"
    "due (FakeIPSaveMetadataAsync c m) w"
proof -
  have *: "due (c\<lparr>pending := p\<rparr>) w" "0 \<le> pendingCount p" if "pendingCount p = pendingCount (pending c)" for p
    using assms that by (auto simp: due_def counted_def)
  show "due (queueFakeIP B c a d) w" "due (queueDNSCache c k raw t) w" "due (queueRDRC c k) w"
    "due (FakeIPSaveMetadataAsync c m) w"
    unfolding queueFakeIP_def queueDNSCache_def queueRDRC_def FakeIPSaveMetadataAsync_def Let_def
    using assms(1) by (auto intro!: enqueue_due * simp: setAddress_def * split: option.splits)
qed

lemma removal_counted:
  assumes "counted (pending c)"
  shows "counted (pending (snd (FakeIPReset B r c)))" "counted (pending (DeleteDNSCache B t c k raw))"
    "counted (pending (snd (ClearDNSCache B t c)))" "counted (pending (clearRDRC B t c))"
proof -
  show "counted (pending (DeleteDNSCache B t c k raw))"
  proof (cases "map_of (dnsCache (pending c)) k")
    case (Some v)
    then show ?thesis
      using assms length_delete [of "dnsCache (pending c)" k]
      by (auto simp: DeleteDNSCache_def Let_def counted_def entryCount_def distinct_delete split: prod.splits)
  qed (use assms in \<open>auto simp: DeleteDNSCache_def Let_def split: prod.splits\<close>)
qed (use assms in \<open>auto simp: FakeIPReset_def ClearDNSCache_def clearRDRC_def Let_def counted_def entryCount_def split: prod.splits\<close>)

lemma removal_due:
  assumes "due c w"
  shows "due (snd (FakeIPReset B r c)) w" "due (DeleteDNSCache B t c k raw) w"
    "due (snd (ClearDNSCache B t c)) w" "due (clearRDRC B t c) w"
  using assms
  by (auto simp: FakeIPReset_def DeleteDNSCache_def ClearDNSCache_def clearRDRC_def Let_def due_def
      split: prod.splits option.splits)

lemma fold_counted:
  assumes "counted p"
  shows "counted (fold restoreDNS es p)" "counted (fold restoreRDRC ks p)" "counted (fold restoreFakeIP ps p)"
    "counted (restoreMetadata m p)"
proof -
  show "counted (fold restoreDNS es p)"
    using assms by (induction es arbitrary: p)
      (auto simp: restoreDNS_def counted_def entryCount_def length_update distinct_update split: prod.splits)
  show "counted (fold restoreRDRC ks p)"
    using assms by (induction ks arbitrary: p)
      (auto simp: restoreRDRC_def counted_def entryCount_def length_update distinct_update split: prod.splits)
  show "counted (fold restoreFakeIP ps p)"
    using assms by (induction ps arbitrary: p)
      (auto simp: restoreFakeIP_def setAddress_def counted_def entryCount_def length_update distinct_update split: prod.splits)
  show "counted (restoreMetadata m p)"
    using assms by (auto simp: restoreMetadata_def counted_def entryCount_def)
qed

lemma restore_counted:
  assumes "counted (pending c)"
  shows "counted (pending (restorePendingLocked w c))" "due c b \<Longrightarrow> due (restorePendingLocked w c) b"
proof -
  show "counted (pending (restorePendingLocked w c))"
    using assms by (simp add: restorePendingLocked_def Let_def fold_counted)
  show "due (restorePendingLocked w c) b" if "due c b"
    using that assms by (auto simp: restorePendingLocked_def Let_def due_def counted_def)
qed

lemma Flush_write_kept: "counted (pending (snd (Flush_write B r c))) = counted (pending c)" "due (snd (Flush_write B r c)) w = due c w"
  by (auto simp: Flush_write_def due_def split: option.splits prod.splits)

lemma Flush_end_kept:
  assumes "counted (pending c)" "due c w"
  shows "counted (pending (Flush_end r ok c))" "due (Flush_end r ok c) w"
proof -
  have *: "due (d\<lparr>writing := None\<rparr>) w = due d w" for d :: "'a CacheFile" by (simp add: due_def)
  show "counted (pending (Flush_end r ok c))" "due (Flush_end r ok c) w"
    using assms restore_counted by (auto simp: Flush_end_def * split: option.splits)
qed

section \<open>Flushes in time\<close>

text \<open>
  Runs of a cache file with any outcome of its transactions. The third
  argument is whether the flush loop has received its timer or signal and is
  about to call \<^verbatim>\<open>Flush\<close>; a flush that begins may be the loop's or another
  caller's. The calls that hold the flush lock come between flushes.
\<close>

inductive flush_runs :: "'d bolt \<Rightarrow> 'd CacheFile \<Rightarrow> phase \<Rightarrow> bool \<Rightarrow> bool" for B where
  opened: "flush_runs B (newCacheFile options db) Idle False"
| pair: "flush_runs B c ph w \<Longrightarrow> flush_runs B (queueFakeIP B c a d) ph w"
| dns: "flush_runs B c ph w \<Longrightarrow> flush_runs B (queueDNSCache c k raw t) ph w"
| rejected: "flush_runs B c ph w \<Longrightarrow> flush_runs B (queueRDRC c k) ph w"
| metadata: "flush_runs B c ph w \<Longrightarrow> flush_runs B (FakeIPSaveMetadataAsync c m) ph w"
| reset: "flush_runs B c Idle w \<Longrightarrow> flush_runs B (snd (FakeIPReset B r c)) Idle w"
| deleteDNS: "flush_runs B c Idle w \<Longrightarrow> flush_runs B (DeleteDNSCache B t c k raw) Idle w"
| clearDNS: "flush_runs B c Idle w \<Longrightarrow> flush_runs B (snd (ClearDNSCache B t c)) Idle w"
| clearRejected: "flush_runs B c Idle w \<Longrightarrow> flush_runs B (clearRDRC B t c) Idle w"
| timer: "flush_runs B c ph False \<Longrightarrow> flushTimer c \<Longrightarrow> flush_runs B (c\<lparr>flushTimer := False\<rparr>) ph True"
| signal: "flush_runs B c ph False \<Longrightarrow> flushSignal c \<Longrightarrow> flush_runs B (c\<lparr>flushSignal := False\<rparr>) ph True"
| nothing: "flush_runs B c Idle w \<Longrightarrow> Flush_begin c = None \<Longrightarrow> flush_runs B c Idle False"
| taken: "flush_runs B c Idle w \<Longrightarrow> Flush_begin c = Some c' \<Longrightarrow> w' \<longrightarrow> w \<Longrightarrow> flush_runs B c' Taken w'"
| wrote: "flush_runs B c Taken w \<Longrightarrow> Flush_write B r c = (ok, c') \<Longrightarrow> flush_runs B c' (Written ok) w"
| finish: "flush_runs B c (Written ok) w \<Longrightarrow> flush_runs B (Flush_end r ok c) Idle w"

lemma flush_runs_inv: "flush_runs B c ph w \<Longrightarrow> counted (pending c) \<and> due c w"
proof (induction rule: flush_runs.induct)
  case (opened options db)
  then show ?case by (simp add: counted_new) (simp add: due_def newPendingWrites_def)
next
  case (wrote c w r ok c')
  then show ?case using Flush_write_kept [of B r c] by simp
next
  case (taken c w c' w')
  then have "c' = c\<lparr>writing := Some (pending c), pending := newPendingWrites\<rparr>" by (simp add: Flush_begin_def split: if_splits)
  then show ?case by (simp add: counted_new) (simp add: due_def newPendingWrites_def)
next
  case (nothing c w)
  then show ?case by (auto simp: Flush_begin_def due_def split: if_splits)
qed (auto simp: queueFakeIP_counted queueDNSCache_counted queueRDRC_counted FakeIPSaveMetadataAsync_counted queue_due
    removal_counted removal_due Flush_end_kept, auto simp: due_def)

text \<open>
  C21. Whatever calls and flushes came before, failed ones included: while a
  flush interval is set and any write is pending, the flush timer is running
  or the flush loop is about to flush, and a flush that begins then is not
  skipped but takes all pending writes.
\<close>

theorem pending_gets_flushed:
  assumes "flush_runs B c ph waiting" "0 < flushInterval c"
    and "dnsCache (pending c) \<noteq> [] \<or> rdrc (pending c) \<noteq> [] \<or> fakeIPDomain (pending c) \<noteq> [] \<or> fakeIPMetadata (pending c) \<noteq> None"
  shows "(flushTimer c \<or> waiting) \<and>
    Flush_begin c = Some (c\<lparr>writing := Some (pending c), pending := newPendingWrites\<rparr>)"
proof -
  have "0 < entryCount (pending c)" using assms(3) by (auto simp: entryCount_def)
  then have "0 < pendingCount (pending c)" using flush_runs_inv [OF assms(1)] by (simp add: counted_def)
  then show ?thesis using flush_runs_inv [OF assms(1)] assms(2) by (auto simp: due_def Flush_begin_def)
qed

theorem pending_gets_flushed_witness:
  "\<exists>c. flush_runs mapBolt c Idle False \<and> fakeIPDomain (pending c) = [(Addr4 5, ''a.org'')] \<and> flushTimer c \<and>
     (\<exists>c'. Flush_begin c = Some c' \<and> pending c' = newPendingWrites)"
proof -
  let ?c1 = "queueFakeIP mapBolt exampleFile (Addr4 5) ''a.org''"
  let ?c2 = "snd (Flush_write mapBolt (exampleRun\<lparr>runOutcome := TxFail\<rparr>) (the (Flush_begin ?c1)))"
  let ?c3 = "Flush_end (exampleRun\<lparr>runOutcome := TxFail\<rparr>) False ?c2"
  have p: "pending ?c1 = \<lparr>dnsCache = [], rdrc = [], fakeIPDomain = [(Addr4 5, ''a.org'')],
      fakeIPAddress4 = [''a.org'' \<mapsto> Addr4 5], fakeIPAddress6 = Map.empty, fakeIPMetadata = None, pendingCount = 1, pendingSize = 5\<rparr>"
    using exampleFile_inv(2-4) bolt_bucket(1) [OF mapBolt_laws]
    by (simp add: queueFakeIP_def enqueueLocked_def Let_def setAddress_def FakeIPLoad_def newPendingWrites_def)
  have f: "flushInterval ?c1 = 60"
    by (simp add: queueFakeIP_def enqueueLocked_def Let_def exampleFile_def newCacheFile_def)
  have "flush_runs mapBolt ?c1 Idle False"
    unfolding exampleFile_def by (intro flush_runs.pair flush_runs.opened)
  moreover have b: "Flush_begin ?c1 = Some (?c1\<lparr>writing := Some (pending ?c1), pending := newPendingWrites\<rparr>)"
    using p by (simp add: Flush_begin_def)
  ultimately have "flush_runs mapBolt (the (Flush_begin ?c1)) Taken False" by (auto intro: flush_runs.taken)
  moreover have w: "Flush_write mapBolt (exampleRun\<lparr>runOutcome := TxFail\<rparr>) (the (Flush_begin ?c1)) = (False, ?c2)"
    using b by (simp add: Flush_write_def dbUpdate_def)
  ultimately have run: "flush_runs mapBolt ?c3 Idle False" by (blast intro: flush_runs.wrote flush_runs.finish)
  have d: "fakeIPDomain (pending ?c3) = [(Addr4 5, ''a.org'')]" "flushInterval ?c3 = 60"
    using b p f by (simp_all add: Flush_write_def dbUpdate_def Flush_end_def exampleRun_def restorePendingLocked_def Let_def
      newPendingWrites_def restoreFakeIP_def fakeIPAddress_def setAddress_def restoreMetadata_def)
  then show ?thesis using pending_gets_flushed [OF run] run by (intro exI [of _ ?c3]) auto
qed

section \<open>Flushes that fail\<close>

lemma restoreDNS_fold:
  "map_of (dnsCache (fold restoreDNS es p)) k = (case map_of (dnsCache p) k of Some v \<Rightarrow> Some v | None \<Rightarrow> map_of es k)"
proof (induction es arbitrary: p)
  case (Cons e es)
  then show ?case by (cases e) (auto simp: restoreDNS_def update_conv' split: option.splits)
qed (simp split: option.splits)

lemma restoreRDRC_fold:
  "map_of (rdrc (fold restoreRDRC es p)) k = (case map_of (rdrc p) k of Some v \<Rightarrow> Some v | None \<Rightarrow> map_of es k)"
proof (induction es arbitrary: p)
  case (Cons e es)
  then show ?case by (cases e) (auto simp: restoreRDRC_def update_conv' split: option.splits)
qed (simp split: option.splits)

lemma restore_others [simp]:
  "rdrc (fold restoreDNS es p) = rdrc p" "dnsCache (fold restoreRDRC ks p) = dnsCache p"
  "dnsCache (fold restoreFakeIP ps p) = dnsCache p" "rdrc (fold restoreFakeIP ps p) = rdrc p"
  "dnsCache (restoreMetadata m p) = dnsCache p" "rdrc (restoreMetadata m p) = rdrc p"
proof -
  show "rdrc (fold restoreDNS es p) = rdrc p" by (induction es arbitrary: p) (auto simp: restoreDNS_def)
  show "dnsCache (fold restoreRDRC ks p) = dnsCache p" by (induction ks arbitrary: p) (auto simp: restoreRDRC_def)
  show "dnsCache (fold restoreFakeIP ps p) = dnsCache p"
    by (induction ps arbitrary: p) (auto simp: restoreFakeIP_def setAddress_def)
  show "rdrc (fold restoreFakeIP ps p) = rdrc p"
    by (induction ps arbitrary: p) (auto simp: restoreFakeIP_def setAddress_def)
qed (simp_all add: restoreMetadata_def)

lemma restored_maps:
  "map_of (dnsCache (pending (restorePendingLocked w c))) k =
     (case map_of (dnsCache (pending c)) k of Some v \<Rightarrow> Some v | None \<Rightarrow> map_of (dnsCache w) k)"
  "map_of (rdrc (pending (restorePendingLocked w c))) k =
     (case map_of (rdrc (pending c)) k of Some v \<Rightarrow> Some v | None \<Rightarrow> map_of (rdrc w) k)"
  "DB (restorePendingLocked w c) = DB c" "cacheID (restorePendingLocked w c) = cacheID c"
  by (simp_all add: restorePendingLocked_def Let_def restoreDNS_fold restoreRDRC_fold)

lemma writing_kept [simp]:
  "writing (queueFakeIP B c a d) = writing c" "writing (queueDNSCache c k raw t) = writing c"
  "writing (queueRDRC c k) = writing c" "writing (FakeIPSaveMetadataAsync c m) = writing c"
  "writing (snd (FakeIPReset B r c)) = writing c" "writing (DeleteDNSCache B u c k raw) = writing c"
  "writing (snd (ClearDNSCache B u c)) = writing c" "writing (clearRDRC B u c) = writing c"
  "writing (snd (Flush_write B r c)) = writing c"
  by (auto simp: queueFakeIP_def queueDNSCache_def queueRDRC_def FakeIPSaveMetadataAsync_def FakeIPReset_def
      DeleteDNSCache_def ClearDNSCache_def clearRDRC_def Flush_write_def enqueueLocked_def Let_def
      split: prod.splits option.splits)

lemma flush_runs_writing: "flush_runs B c ph w \<Longrightarrow> writing c = Some p \<Longrightarrow> counted p"
proof (induction rule: flush_runs.induct)
  case (taken c w c' w')
  then show ?case using flush_runs_inv [OF taken(1)] by (auto simp: Flush_begin_def split: if_splits)
next
  case (wrote c w r ok c')
  then show ?case using writing_kept(9) [of B r c] by simp
next
  case (finish c ok w r)
  then show ?case by (auto simp: Flush_end_def split: option.splits)
qed auto

text \<open>
  C22. A flush whose transaction fails loses no DNS entry and no rejected
  query: in every run, ending such a flush changes nothing for the readers of
  either cache, whatever was queued while it was under way and in whatever
  order its entries are taken back.
\<close>

theorem failed_flush_keeps_entries:
  assumes "flush_runs B c (Written False) w" "reorders (runOrder r)"
  shows "LoadDNSCache B (Flush_end r False c) k = LoadDNSCache B c k \<and> LoadRDRC B now (Flush_end r False c) k = LoadRDRC B now c k"
proof (cases "writing c")
  case (Some p)
  have "counted p" by (rule flush_runs_writing [OF assms(1) Some])
  then have "map_of (dnsCache (runOrder r p)) = map_of (dnsCache p)" "map_of (rdrc (runOrder r p)) = map_of (rdrc p)"
    using assms(2) mset_alist(2) by (auto simp: counted_def reorders_def)
  then show ?thesis
    using Some by (auto simp: Flush_end_def LoadDNSCache_def LoadRDRC_def bucketPath_def restored_maps split: option.splits)
qed (simp add: Flush_end_def)

theorem failed_flush_keeps_entries_witness:
  "\<exists>c k. flush_runs mapBolt c (Written False) False \<and> writing c \<noteq> None \<and>
     LoadDNSCache mapBolt (Flush_end exampleRun False c) k = Some ([7], 0)"
proof -
  let ?k = "\<lparr>TransportName = ''t'', QuestionName = ''a'', KeyQType = 1\<rparr>"
  let ?c1 = "queueDNSCache exampleFile ?k [7] 0"
  let ?r = "exampleRun\<lparr>runOutcome := TxFail\<rparr>"
  let ?c2 = "?c1\<lparr>writing := Some (pending ?c1), pending := newPendingWrites\<rparr>"
  have p: "dnsCache (pending ?c1) = [(?k, cacheValue [7] 0)]" "pendingCount (pending ?c1) = 1"
    using exampleFile_inv(2) by (simp_all add: queueDNSCache_def enqueueLocked_def Let_def newPendingWrites_def)
  have "flush_runs mapBolt ?c1 Idle False" unfolding exampleFile_def by (intro flush_runs.dns flush_runs.opened)
  moreover have "Flush_begin ?c1 = Some ?c2" using p by (simp add: Flush_begin_def)
  ultimately have "flush_runs mapBolt ?c2 Taken False" by (auto intro: flush_runs.taken)
  moreover have "Flush_write mapBolt ?r ?c2 = (False, ?c2)" by (simp add: Flush_write_def dbUpdate_def)
  ultimately have run: "flush_runs mapBolt ?c2 (Written False) False" by (rule flush_runs.wrote)
  have "LoadDNSCache mapBolt ?c2 ?k = Some (entryMessage (cacheValue [7] 0))"
    using p by (simp add: LoadDNSCache_def newPendingWrites_def)
  then have "LoadDNSCache mapBolt ?c2 ?k = Some ([7], 0)"
    by (simp add: entryMessage_def cacheValue_def be_int64_def timeUnix_def int64_be_def Let_def be_uint_be_bytes)
  then show ?thesis
    using failed_flush_keeps_entries [OF run exampleRun_simps(2), of ?k] run by (intro exI [of _ ?c2] exI [of _ ?k]) simp
qed

text \<open>
  C26. FakeIP pairs do not survive a failed flush as they were: where an
  address changes from a stored domain to another, the mark that the old
  domain has lost it is not taken back. Before the flush the old domain has no
  address; after it has failed, the old domain leads to what is stored again,
  while the address leads to the new domain.
\<close>

theorem failed_flush_revives_domain:
  assumes "pending c = newPendingWrites" "writing c = None" "Is4 a" "FakeIPLoad B c a = Some old" "old \<noteq> new"
    and "runOutcome r = TxFail" "reorders (runOrder r)"
  shows "let moved = queueFakeIP B c a new; failed = Flush B r moved in
     FakeIPLoadDomain B ip moved old False = None \<and>
     FakeIPLoadDomain B ip failed old False = FakeIPLoadDomain B ip c old False \<and>
     FakeIPLoadDomain B ip failed new False = Some a \<and> FakeIPLoad B failed a = Some new"
proof -
  let ?p = "\<lparr>dnsCache = [], rdrc = [], fakeIPDomain = [(a, new)], fakeIPAddress4 = [old \<mapsto> AddrZero, new \<mapsto> a],
      fakeIPAddress6 = Map.empty, fakeIPMetadata = None, pendingCount = 1, pendingSize = int (length new)\<rparr>"
  let ?moved = "queueFakeIP B c a new" and ?failed = "Flush B r (queueFakeIP B c a new)"
  have valid: "AddrIsValid a" using assms(3) by (cases a) simp_all
  have kept: "DB ?moved = DB c" "writing ?moved = None" "pending ?moved = ?p"
    using assms(1-5) by (auto simp: queueFakeIP_def enqueueLocked_def Let_def newPendingWrites_def setAddress_def)
  have "dnsCache (runOrder r ?p) = []" "rdrc (runOrder r ?p) = []" "fakeIPDomain (runOrder r ?p) = [(a, new)]"
    "fakeIPMetadata (runOrder r ?p) = None"
    using assms(7) [unfolded reorders_def, THEN spec, of ?p] by simp_all
  then have "pending ?failed = ?p\<lparr>fakeIPAddress4 := [new \<mapsto> a]\<rparr>" "DB ?failed = DB c" "writing ?failed = None"
    using kept assms(3,6)
    by (simp_all add: Flush_def Flush_begin_def Flush_write_def Flush_end_def dbUpdate_def restorePendingLocked_def Let_def
        newPendingWrites_def restoreFakeIP_def restoreMetadata_def fakeIPAddress_def setAddress_def)
  then show ?thesis
    using kept assms valid by (simp add: Let_def FakeIPLoadDomain_def FakeIPLoad_def fakeIPAddress_def newPendingWrites_def validAddress_def)
qed

definition exampleStored :: "mapdb CacheFile" where
  "exampleStored = exampleFile\<lparr>DB := \<lparr>mdBuckets = [[bucketFakeIP], [bucketFakeIPDomain4]],
     mdKeys = [(([bucketFakeIP], [0, 0, 0, 5]), str_bytes ''old.org''), (([bucketFakeIPDomain4], str_bytes ''old.org''), [0, 0, 0, 5])]\<rparr>\<rparr>"

theorem failed_flush_revives_domain_witness:
  "FakeIPLoadDomain mapBolt exampleIP
     (Flush mapBolt (exampleRun\<lparr>runOutcome := TxFail\<rparr>) (queueFakeIP mapBolt exampleStored (Addr4 5) ''new.org'')) ''old.org'' False =
   Some (Addr4 5)"
proof -
  have bytes: "be_bytes 4 5 = [0, 0, 0, 5]" "AddrFrom4 [0, 0, 0, 5] = Addr4 5" by code_simp+
  have load: "FakeIPLoad mapBolt exampleStored (Addr4 5) = Some ''old.org''"
    by (simp add: FakeIPLoad_def exampleStored_def mapBolt_def mapHas_def mapGet_def exampleFile_inv newPendingWrites_def bytes)
  have domain: "FakeIPLoadDomain mapBolt exampleIP exampleStored ''old.org'' False = Some (Addr4 5)"
    by (simp add: FakeIPLoadDomain_def exampleStored_def mapBolt_def mapHas_def mapGet_def exampleFile_inv newPendingWrites_def
        fakeIPAddress_def validAddress_def exampleIP_def bytes)
  show ?thesis
    using failed_flush_revives_domain [OF _ _ _ load, of "''new.org''" "exampleRun\<lparr>runOutcome := TxFail\<rparr>" exampleIP] domain
    by (simp add: Let_def exampleStored_def exampleFile_inv exampleRun_def reorders_def)
qed

end
