(* ===== verification/CacheClean.thy ===== *)
theory CacheClean
  imports CacheFlush
begin

text \<open>
  Removing entries of the cache file: the clean-up of expired entries, and the
  deletion of one DNS entry.
\<close>

section \<open>Clean-up\<close>

lemma deleteKeys_ok:
  assumes B: "bolt_laws B" and "dbHas B db p" "\<forall>k. \<not> dbHas B db (p @ [k])"
  shows "\<exists>db'. foldTx (\<lambda>k d. dbDelete B d p k) ks db = Some db' \<and> dbHas B db' = dbHas B db \<and>
    (\<forall>q j. dbGet B db' q j = (if q = p \<and> j \<in> set ks then None else dbGet B db q j))"
  using assms(2,3)
proof (induction ks arbitrary: db)
  case (Cons k ks)
  obtain db1 where 1: "dbDelete B db p k = Some db1" using bolt_key(5) [OF B Cons.prems(1)] Cons.prems(2) by blast
  have h: "dbHas B db1 = dbHas B db" using bolt_key(6) [OF B 1] by blast
  obtain db2 where 2: "foldTx (\<lambda>k d. dbDelete B d p k) ks db1 = Some db2" "dbHas B db2 = dbHas B db1"
    "\<forall>q j. dbGet B db2 q j = (if q = p \<and> j \<in> set ks then None else dbGet B db1 q j)"
    using Cons.IH [of db1] Cons.prems h by auto
  then show ?case using 1 h bolt_key(7) [OF B 1] by (intro exI [of _ db2]) auto
qed simp

definition cleaned :: "'d bolt \<Rightarrow> (bytes \<Rightarrow> bool) \<Rightarrow> bucket_path set \<Rightarrow> 'd \<Rightarrow> 'd \<Rightarrow> bool" where
  "cleaned B expired ps db db' \<longleftrightarrow> dbHas B db' = dbHas B db \<and>
     (\<forall>q j. dbGet B db' q j = (case dbGet B db q j of Some v \<Rightarrow> if q \<in> ps \<and> expired v then None else Some v | None \<Rightarrow> None))"

lemma cleanTransport_ok:
  assumes B: "bolt_laws B" and "dbHas B db (path @ [name])" "\<forall>k. \<not> dbHas B db (path @ [name, k])"
  shows "\<exists>e db'. cleanTransport B expired path name db = Some (e, db') \<and> cleaned B expired {path @ [name]} db db' \<and>
    (e \<longrightarrow> (\<forall>j. dbGet B db' (path @ [name]) j = None))"
proof -
  let ?p = "path @ [name]" and ?ks = "map fst (filter (\<lambda>(k, v). expired v) (dbForEach B db (path @ [name])))"
  have none: "dbForEachBucket B db ?p = []"
    using bolt_iterate(2) [OF B, of _ db ?p] assms(3) by (cases "dbForEachBucket B db ?p") auto
  obtain db' where 1: "foldTx (\<lambda>k d. dbDelete B d ?p k) ?ks db = Some db'" "dbHas B db' = dbHas B db"
    "\<forall>q j. dbGet B db' q j = (if q = ?p \<and> j \<in> set ?ks then None else dbGet B db q j)"
    using deleteKeys_ok [OF B assms(2), of ?ks] assms(3) by auto
  have "j \<in> set ?ks \<longleftrightarrow> (\<exists>v. dbGet B db ?p j = Some v \<and> expired v)" for j
    unfolding bolt_iterate(1) [OF B, symmetric] by force
  then have "cleaned B expired {?p} db db'" using 1(2,3) by (auto simp: cleaned_def split: option.splits)
  moreover have "\<forall>j. dbGet B db' ?p j = None" if "dbForEach B db' ?p = []"
  proof
    show "dbGet B db' ?p j = None" for j using bolt_iterate(1) [OF B, of j _ db' ?p] that by (cases "dbGet B db' ?p j") auto
  qed
  ultimately show ?thesis using 1(1) none by (auto simp: cleanTransport_def Let_def)
qed

lemma cleaned_trans:
  "cleaned B expired P d0 d1 \<Longrightarrow> cleaned B expired Q d1 d2 \<Longrightarrow> cleaned B expired (P \<union> Q) d0 d2"
  by (auto simp: cleaned_def split: option.splits)

lemma cleaned_none: "cleaned B expired P d0 d1 \<Longrightarrow> dbGet B d0 q j = None \<Longrightarrow> dbGet B d1 q j = None"
  by (simp add: cleaned_def)

lemma cleanTransports_ok:
  assumes B: "bolt_laws B" and "\<forall>n \<in> set names. dbHas B db (path @ [n])" "\<forall>n k. \<not> dbHas B db (path @ [n, k])" "distinct names"
  shows "\<exists>es db'. cleanTransports B expired path names db = Some (es, db') \<and>
    cleaned B expired ((\<lambda>n. path @ [n]) ` set names) db db' \<and> distinct es \<and> set es \<subseteq> set names \<and>
    (\<forall>n \<in> set es. \<forall>j. dbGet B db' (path @ [n]) j = None)"
  using assms(2-)
proof (induction names arbitrary: db)
  case Nil
  then show ?case by (simp add: cleaned_def split: option.splits)
next
  case (Cons n names)
  obtain e db1 where 1: "cleanTransport B expired path n db = Some (e, db1)" "cleaned B expired {path @ [n]} db db1"
    "e \<longrightarrow> (\<forall>j. dbGet B db1 (path @ [n]) j = None)"
    using cleanTransport_ok [OF B, of db path n expired] Cons.prems by auto
  have h: "dbHas B db1 = dbHas B db" using 1(2) by (simp add: cleaned_def)
  obtain es db2 where 2: "cleanTransports B expired path names db1 = Some (es, db2)"
    "cleaned B expired ((\<lambda>n. path @ [n]) ` set names) db1 db2" "distinct es" "set es \<subseteq> set names"
    "\<forall>n \<in> set es. \<forall>j. dbGet B db2 (path @ [n]) j = None"
    using Cons.IH [of db1] Cons.prems h by auto
  show ?case
    using 1(1,3) 2 cleaned_trans [OF 1(2) 2(2)] cleaned_none [OF 2(2)] Cons.prems(3) by (cases e) auto
qed

lemma deleteBuckets_ok:
  assumes B: "bolt_laws B" and "\<forall>n \<in> set es. dbHas B db (path @ [n])" "distinct es"
    "\<forall>n \<in> set es. \<forall>j. dbGet B db (path @ [n]) j = None"
  shows "\<exists>db'. foldTx (\<lambda>name d. case dbDeleteBucket B d (path @ [name]) of Inr d' \<Rightarrow> Some d' | Inl _ \<Rightarrow> None) es db = Some db' \<and>
    (\<forall>q. length q \<le> length path \<longrightarrow> dbHas B db' q = dbHas B db q) \<and>
    (\<forall>q. dbHas B db' q \<longrightarrow> dbHas B db q) \<and>
    (\<forall>q j. length q \<le> Suc (length path) \<longrightarrow> dbGet B db' q j = dbGet B db q j)"
  using assms(2-)
proof (induction es arbitrary: db)
  case (Cons n es)
  obtain db1 where 1: "dbDeleteBucket B db (path @ [n]) = Inr db1" using bolt_bucket(9) [OF B] Cons.prems(1) by fastforce
  note h = bolt_bucket(10,11) [OF B 1]
  have get: "dbGet B db1 q j = dbGet B db q j" if "length q \<le> Suc (length path)" for q j
    using that Cons.prems(3) by (auto simp: h)
  have has: "\<forall>m \<in> set es. dbHas B db1 (path @ [m])" and prem: "distinct es" "\<forall>m \<in> set es. \<forall>j. dbGet B db1 (path @ [m]) j = None"
    using Cons.prems by (auto simp: h)
  obtain db2 where "foldTx (\<lambda>name d. case dbDeleteBucket B d (path @ [name]) of Inr d' \<Rightarrow> Some d' | Inl _ \<Rightarrow> None) es db1 = Some db2"
    "\<forall>q. length q \<le> length path \<longrightarrow> dbHas B db2 q = dbHas B db1 q" "\<forall>q. dbHas B db2 q \<longrightarrow> dbHas B db1 q"
    "\<forall>q j. length q \<le> Suc (length path) \<longrightarrow> dbGet B db2 q j = dbGet B db1 q j"
    using Cons.IH [of db1] has prem by blast
  moreover have "take (Suc (length path)) q \<noteq> path @ [n]" if "length q \<le> length path" for q
    using that by (auto dest: arg_cong [where f = length])
  ultimately show ?case using 1 get h(1) by (intro exI [of _ db2]) auto
qed simp

lemma bucketPath_shape:
  "cache_shape B c bucket (DB c) \<Longrightarrow>
     bucketPath B c bucket = (if dbHas B (DB c) (cachePath c bucket) then Some (cachePath c bucket) else None)"
  by (auto simp: bucketPath_def cachePath_def cache_shape_def split: option.splits)

lemma cleanupBucket_ok:
  assumes B: "bolt_laws B" and shape: "cache_shape B c bucket (DB c)"
  shows "\<exists>db'. cleanupBucket B expired (bucketPath B c bucket) (DB c) = Some db' \<and> cache_shape B c bucket db' \<and>
    (\<forall>k. entryOf B c bucket db' k =
      (case entryOf B c bucket (DB c) k of Some v \<Rightarrow> if expired v then None else Some v | None \<Rightarrow> None))"
proof (cases "dbHas B (DB c) (cachePath c bucket)")
  case False
  then have "entryOf B c bucket (DB c) k = None" for k
    using shape bolt_bucket(2) [OF B] unfolding entryOf_def cache_shape_def by blast
  then show ?thesis using False shape by (simp add: bucketPath_shape cleanupBucket_def)
next
  case True
  let ?p = "cachePath c bucket" and ?names = "dbForEachBucket B (DB c) (cachePath c bucket)"
  have names: "n \<in> set ?names \<longleftrightarrow> dbHas B (DB c) (?p @ [n])" for n by (rule bolt_iterate(2) [OF B])
  have nested: "\<forall>n k. \<not> dbHas B (DB c) (?p @ [n, k])" using shape by (simp add: cache_shape_def)
  obtain es db1 where 1: "cleanTransports B expired ?p ?names (DB c) = Some (es, db1)"
    "cleaned B expired ((\<lambda>n. ?p @ [n]) ` set ?names) (DB c) db1" "distinct es" "set es \<subseteq> set ?names"
    "\<forall>n \<in> set es. \<forall>j. dbGet B db1 (?p @ [n]) j = None"
    using cleanTransports_ok [OF B _ nested bolt_iterate(3) [OF B]] names by blast
  have h1: "dbHas B db1 = dbHas B (DB c)" using 1(2) by (simp add: cleaned_def)
  have has1: "\<forall>n \<in> set es. dbHas B db1 (?p @ [n])" using 1(4) names unfolding h1 by blast
  obtain db2 where 2: "foldTx (\<lambda>name d. case dbDeleteBucket B d (?p @ [name]) of Inr d' \<Rightarrow> Some d' | Inl _ \<Rightarrow> None) es db1 = Some db2"
    "\<forall>q. length q \<le> length ?p \<longrightarrow> dbHas B db2 q = dbHas B db1 q" "\<forall>q. dbHas B db2 q \<longrightarrow> dbHas B db1 q"
    "\<forall>q j. length q \<le> Suc (length ?p) \<longrightarrow> dbGet B db2 q j = dbGet B db1 q j"
    using deleteBuckets_ok [OF B has1 1(3,5)] by blast
  have "cache_shape B c bucket db2"
    using shape 1(2) 2(2-4) by (auto simp: cache_shape_def cleaned_def cachePath_def split: option.splits)
  moreover have "entryOf B c bucket db2 k =
      (case entryOf B c bucket (DB c) k of Some v \<Rightarrow> if expired v then None else Some v | None \<Rightarrow> None)" for k
  proof (cases "dbGet B (DB c) (?p @ [str_bytes (TransportName k)]) (cacheKeyBytes k)")
    case None
    then show ?thesis using 2(4) cleaned_none [OF 1(2)] by (simp add: entryOf_def)
  next
    case (Some v)
    then have "str_bytes (TransportName k) \<in> set ?names" using names bolt_bucket(2) [OF B] by fastforce
    then show ?thesis using Some 2(4) 1(2) by (auto simp: entryOf_def cleaned_def)
  qed
  ultimately show ?thesis using 1(1) 2(1) True shape by (simp add: bucketPath_shape cleanupBucket_def)
qed

lemma LoadDNSCache_entry:
  assumes "bolt_laws B" "cache_shape B c bucketDNSCache (DB c)"
  shows "LoadDNSCache B c k = (case map_of (dnsCache (pending c)) k of
        Some content \<Rightarrow> Some (entryMessage content)
      | None \<Rightarrow> (case Option.bind (writing c) (\<lambda>w. map_of (dnsCache w) k) of
             Some content \<Rightarrow> Some (entryMessage content)
           | None \<Rightarrow> (case entryOf B c bucketDNSCache (DB c) k of
                       None \<Rightarrow> None | Some v \<Rightarrow> if length v < 8 then None else Some (entryMessage v))))"
  unfolding LoadDNSCache_def bucketPath_entry [OF assms, symmetric] by (auto split: option.splits)

lemma LoadRDRC_entry:
  assumes "bolt_laws B" "cache_shape B c bucketRDRC (DB c)"
  shows "LoadRDRC B now c k \<longleftrightarrow> map_of (rdrc (pending c)) k \<noteq> None \<or> Option.bind (writing c) (\<lambda>w. map_of (rdrc w) k) \<noteq> None \<or>
     (\<exists>v. entryOf B c bucketRDRC (DB c) k = Some v \<and> 8 \<le> length v \<and> now < int64_be (take 8 v) * second)"
  unfolding LoadRDRC_def bucketPath_entry [OF assms, symmetric] by (auto split: option.splits)

text \<open>
  C25. The clean-up of the DNS cache removes what has expired and nothing else:
  an entry that is queued stays; a stored one is gone afterwards exactly where
  expiry is not disabled and its time, with the optimistic timeout, has passed.
\<close>

theorem cleanupDNSCache_exact:
  assumes "bolt_laws B" "cache_shape B c bucketDNSCache (DB c)"
  shows "LoadDNSCache B (cleanupDNSCache B TxCommit now c) k =
    (if map_of (dnsCache (pending c)) k \<noteq> None \<or> Option.bind (writing c) (\<lambda>w. map_of (dnsCache w) k) \<noteq> None then LoadDNSCache B c k
     else (case LoadDNSCache B c k of
             None \<Rightarrow> None
           | Some (raw, expireAt) \<Rightarrow>
               if \<not> disableExpire c \<and> now > expireAt + optimisticTimeout c then None else Some (raw, expireAt)))"
proof -
  obtain db' where 1: "cleanupBucket B (dnsExpired c now) (bucketPath B c bucketDNSCache) (DB c) = Some db'"
    "cache_shape B c bucketDNSCache db'" "\<forall>k. entryOf B c bucketDNSCache db' k =
      (case entryOf B c bucketDNSCache (DB c) k of Some v \<Rightarrow> if dnsExpired c now v then None else Some v | None \<Rightarrow> None)"
    using cleanupBucket_ok [OF assms] by blast
  then have c': "cleanupDNSCache B TxCommit now c = c\<lparr>DB := db'\<rparr>" by (simp add: cleanupDNSCache_def dbUpdate_def)
  have same: "cache_shape B (c\<lparr>DB := db'\<rparr>) = cache_shape B c" "entryOf B (c\<lparr>DB := db'\<rparr>) = entryOf B c"
    by (intro ext; simp add: cache_shape_def entryOf_def cachePath_def)+
  show ?thesis
    unfolding c' LoadDNSCache_entry [OF assms]
    using LoadDNSCache_entry [OF assms(1), of "c\<lparr>DB := db'\<rparr>" k] 1(2,3)
    by (auto simp: same dnsExpired_def entryMessage_def split: option.splits)
qed

text \<open>
  The clean-up of rejected queries is invisible: at any later time a query
  counts as rejected after it exactly if it would have without it.
\<close>

lemma cleanupRDRC_invisible:
  assumes "bolt_laws B" "cache_shape B c bucketRDRC (DB c)" "now \<le> later"
  shows "LoadRDRC B later (cleanupRDRC B TxCommit now c) k = LoadRDRC B later c k"
proof -
  obtain db' where 1: "cleanupBucket B (rdrcExpired now) (bucketPath B c bucketRDRC) (DB c) = Some db'"
    "cache_shape B c bucketRDRC db'" "\<forall>k. entryOf B c bucketRDRC db' k =
      (case entryOf B c bucketRDRC (DB c) k of Some v \<Rightarrow> if rdrcExpired now v then None else Some v | None \<Rightarrow> None)"
    using cleanupBucket_ok [OF assms(1,2)] by blast
  then have c': "cleanupRDRC B TxCommit now c = c\<lparr>DB := db'\<rparr>" by (simp add: cleanupRDRC_def dbUpdate_def)
  have same: "cache_shape B (c\<lparr>DB := db'\<rparr>) = cache_shape B c" "entryOf B (c\<lparr>DB := db'\<rparr>) = entryOf B c"
    by (intro ext; simp add: cache_shape_def entryOf_def cachePath_def)+
  show ?thesis
    unfolding c' LoadRDRC_entry [OF assms(1,2)]
    using LoadRDRC_entry [OF assms(1), of "c\<lparr>DB := db'\<rparr>" later k] 1(2,3) assms(3)
    by (auto simp: same rdrcExpired_def split: option.splits if_splits)
qed

section \<open>Deleting one entry\<close>

lemma deleteDNSEntry_ok:
  assumes B: "bolt_laws B" and shape: "cache_shape B c bucketDNSCache (DB c)"
  shows "\<exists>db'. deleteDNSEntry B c key raw (DB c) = Some db' \<and> cache_shape B c bucketDNSCache db' \<and>
    (\<forall>k. entryOf B c bucketDNSCache db' k =
      (case entryOf B c bucketDNSCache (DB c) k of
         Some v \<Rightarrow> if k = key \<and> 8 \<le> length v \<and> drop 8 v = raw then None else Some v | None \<Rightarrow> None))"
proof -
  let ?p = "cachePath c bucketDNSCache" let ?t = "str_bytes (TransportName key)"
  have entry: "deleteDNSEntry B c key raw (DB c) = (case entryOf B c bucketDNSCache (DB c) key of
        None \<Rightarrow> Some (DB c)
      | Some v \<Rightarrow> if length v < 8 \<or> drop 8 v \<noteq> raw then Some (DB c) else dbDelete B (DB c) (?p @ [?t]) (cacheKeyBytes key))"
    unfolding bucketPath_entry [OF assms, symmetric] deleteDNSEntry_def by (auto simp: bucketPath_shape [OF shape])
  show ?thesis
  proof (cases "\<exists>v. entryOf B c bucketDNSCache (DB c) key = Some v \<and> 8 \<le> length v \<and> drop 8 v = raw")
    case False
    then show ?thesis using shape entry by (auto split: option.splits)
  next
    case True
    then have has: "dbHas B (DB c) (?p @ [?t])" using bolt_bucket(2) [OF B] by (fastforce simp: entryOf_def)
    have "\<not> dbHas B (DB c) ((?p @ [?t]) @ [cacheKeyBytes key])" using shape by (simp add: cache_shape_def)
    then obtain db' where 1: "dbDelete B (DB c) (?p @ [?t]) (cacheKeyBytes key) = Some db'"
      using bolt_key(5) [OF B has] by blast
    note h = bolt_key(6,7) [OF B 1]
    have "cache_shape B c bucketDNSCache db'" using shape by (auto simp: cache_shape_def h)
    moreover have "entryOf B c bucketDNSCache db' k = (if k = key then None else entryOf B c bucketDNSCache (DB c) k)" for k
      using cacheKeyBytes_inj [of k key] by (auto simp: entryOf_def h)
    ultimately show ?thesis using True 1 entry by (auto split: option.splits)
  qed
qed

text \<open>
  C24. Deleting a DNS entry between flushes: afterwards the key does not lead
  to the deleted message, an entry that held another message is as it was,
  and so are all other keys.
\<close>

theorem DeleteDNSCache_deletes:
  assumes "bolt_laws B" "cache_shape B c bucketDNSCache (DB c)" "writing c = None"
    and "\<forall>(k, v) \<in> set (dnsCache (pending c)). 8 \<le> length v"
  shows "map_option fst (LoadDNSCache B (DeleteDNSCache B TxCommit c key raw) key) \<noteq> Some raw \<and>
    (\<forall>k. k \<noteq> key \<or> map_option fst (LoadDNSCache B c k) \<noteq> Some raw \<longrightarrow>
      LoadDNSCache B (DeleteDNSCache B TxCommit c key raw) k = LoadDNSCache B c k)"
proof -
  obtain db' where 1: "deleteDNSEntry B c key raw (DB c) = Some db'" "cache_shape B c bucketDNSCache db'"
    "\<forall>k. entryOf B c bucketDNSCache db' k = (case entryOf B c bucketDNSCache (DB c) k of
         Some v \<Rightarrow> if k = key \<and> 8 \<le> length v \<and> drop 8 v = raw then None else Some v | None \<Rightarrow> None)"
    using deleteDNSEntry_ok [OF assms(1,2)] by blast
  have same: "cache_shape B (c\<lparr>pending := p, DB := db'\<rparr>) = cache_shape B c" "entryOf B (c\<lparr>pending := p, DB := db'\<rparr>) = entryOf B c" for p
    by (intro ext; simp add: cache_shape_def entryOf_def cachePath_def)+
  note old = LoadDNSCache_entry [OF assms(1,2)]
  have new: "LoadDNSCache B (c\<lparr>pending := p, DB := db'\<rparr>) k = (case map_of (dnsCache p) k of
        Some content \<Rightarrow> Some (entryMessage content)
      | None \<Rightarrow> (case entryOf B c bucketDNSCache db' k of
                   None \<Rightarrow> None | Some v \<Rightarrow> if length v < 8 then None else Some (entryMessage v)))" for p k
    using LoadDNSCache_entry [OF assms(1), of "c\<lparr>pending := p, DB := db'\<rparr>" k] 1(2) assms(3)
    by (auto simp: same split: option.splits)
  show ?thesis
  proof (cases "map_of (dnsCache (pending c)) key")
    case None
    then have "DeleteDNSCache B TxCommit c key raw = c\<lparr>pending := pending c, DB := db'\<rparr>"
      using 1(1) by (simp add: DeleteDNSCache_def dbUpdate_def Let_def)
    then show ?thesis using new [of "pending c"] old 1(3) None assms(3)
      by (auto simp: entryMessage_def split: option.splits if_splits)
  next
    case (Some v)
    then have len: "8 \<le> length v" using assms(4) by (auto dest: map_of_SomeD)
    show ?thesis
    proof (cases "drop 8 v = raw")
      case False
      then show ?thesis using Some old by (auto simp: DeleteDNSCache_def Let_def entryMessage_def)
    next
      case True
      let ?p = "(pending c)\<lparr>dnsCache := AList.delete key (dnsCache (pending c)), pendingCount := pendingCount (pending c) - 1,
         pendingSize := pendingSize (pending c) - (int (length (QuestionName key)) + int (length v))\<rparr>"
      have "DeleteDNSCache B TxCommit c key raw = c\<lparr>pending := ?p, DB := db'\<rparr>"
        using 1(1) Some len True by (simp add: DeleteDNSCache_def dbUpdate_def Let_def)
      then show ?thesis using new [of ?p] old 1(3) Some assms(3) True
        by (auto simp: entryMessage_def delete_conv' split: option.splits if_splits)
    qed
  qed
qed

section \<open>Buckets of older versions\<close>

lemma tryDeleteBucket_has:
  assumes "bolt_laws B" "p \<noteq> []"
  shows "dbHas B (tryDeleteBucket B p db) q \<longleftrightarrow> dbHas B db q \<and> (dbHas B db p \<longrightarrow> take (length p) q \<noteq> p)"
proof (cases "dbHas B db p")
  case True
  then obtain db' where "dbDeleteBucket B db p = Inr db'" using bolt_bucket(9) [OF assms(1)] by blast
  then show ?thesis using True bolt_bucket(10) [OF assms(1)] by (simp add: tryDeleteBucket_def)
next
  case False
  then show ?thesis using bolt_bucket(8) [OF assms(1)] by (simp add: tryDeleteBucket_def)
qed

definition knownBucket :: "bytes \<Rightarrow> bool" where
  "knownBucket name \<longleftrightarrow> name \<in> set bucketNameList \<or> take (length fakeipBucketPrefix) name = str_bytes fakeipBucketPrefix"

lemma removeObsolete1_has:
  assumes B: "bolt_laws B"
  shows "dbHas B (removeObsolete1 B nested n db) [m] \<longleftrightarrow> dbHas B db [m] \<and> \<not> (m = n \<and> take 1 n \<noteq> [0] \<and> \<not> knownBucket n)"
    and "take 1 m = [0] \<Longrightarrow> k \<noteq> m \<Longrightarrow> dbHas B (removeObsolete1 B nested n db) [m, k] \<longleftrightarrow> dbHas B db [m, k]"
proof -
  have inner: "dbHas B (fold (\<lambda>k d. if k \<notin> set bucketNameList then tryDeleteBucket B [n, n] d else d) ks d) [m] = dbHas B d [m]"
    "k \<noteq> m \<Longrightarrow> dbHas B (fold (\<lambda>k d. if k \<notin> set bucketNameList then tryDeleteBucket B [n, n] d else d) ks d) [m, k] = dbHas B d [m, k]"
    for ks d by (induction ks arbitrary: d) (auto simp: tryDeleteBucket_has [OF B])
  show "dbHas B (removeObsolete1 B nested n db) [m] \<longleftrightarrow> dbHas B db [m] \<and> \<not> (m = n \<and> take 1 n \<noteq> [0] \<and> \<not> knownBucket n)"
    using inner(1) by (auto simp: removeObsolete1_def knownBucket_def tryDeleteBucket_has [OF B])
  show "dbHas B (removeObsolete1 B nested n db) [m, k] \<longleftrightarrow> dbHas B db [m, k]" if "take 1 m = [0]" "k \<noteq> m"
    using inner(2) that by (auto simp: removeObsolete1_def tryDeleteBucket_has [OF B])
qed

text \<open>
  C27. The start removes exactly the top-level buckets of unknown name among
  those it meets. Below the bucket of a cache identifier it removes none, known
  or not: what it asks to delete there is a bucket with the identifier's own
  name, not the one it has found.
\<close>

theorem removeObsolete_effect:
  assumes "bolt_laws B"
  shows "(dbHas B (removeObsolete B names nested db) [name] \<longleftrightarrow>
      dbHas B db [name] \<and> \<not> (name \<in> set names \<and> take 1 name \<noteq> [0] \<and> \<not> knownBucket name)) \<and>
    (\<forall>cid k. take 1 cid = [0] \<and> k \<noteq> cid \<longrightarrow>
      dbHas B (removeObsolete B names nested db) [cid, k] = dbHas B db [cid, k])"
  unfolding removeObsolete_def
  by (induction names arbitrary: db) (auto simp: removeObsolete1_has [OF assms])

theorem removeObsolete_effect_witness:
  "let db = \<lparr>mdBuckets = [[[0, 1]], [[0, 1], str_bytes ''old''], [str_bytes ''old''], [bucketMode]], mdKeys = []\<rparr>;
       db' = removeObsolete mapBolt [[0, 1], str_bytes ''old'', bucketMode] (\<lambda>n. if n = [0, 1] then [str_bytes ''old''] else []) db
   in \<not> dbHas mapBolt db' [str_bytes ''old''] \<and> dbHas mapBolt db' [bucketMode] \<and> dbHas mapBolt db' [[0, 1], str_bytes ''old'']"
proof -
  let ?db = "\<lparr>mdBuckets = [[[0, 1]], [[0, 1], str_bytes ''old''], [str_bytes ''old''], [bucketMode]], mdKeys = []\<rparr>"
  have names: "take 1 (str_bytes ''old'') \<noteq> [0]" "\<not> knownBucket (str_bytes ''old'')" "str_bytes ''old'' \<noteq> [0, 1]" "knownBucket bucketMode"
    by code_simp+
  show ?thesis
    using removeObsolete_effect [OF mapBolt_laws, of "[[0, 1], str_bytes ''old'', bucketMode]" "\<lambda>n. if n = [0, 1] then [str_bytes ''old''] else []" ?db]
      names
    by (simp add: Let_def mapBolt_def mapHas_def)
qed

section \<open>Instances\<close>

lemma exampleFile_shape: "cache_shape mapBolt (queueDNSCache exampleFile k raw t) bucket (DB (queueDNSCache exampleFile k raw t))"
  "cache_shape mapBolt exampleFile bucket (DB exampleFile)"
  using bolt_bucket(1,2) [OF mapBolt_laws]
  by (simp_all add: cache_shape_def exampleFile_inv queueDNSCache_def enqueueLocked_def Let_def)

theorem DeleteDNSCache_deletes_witness:
  "let k = \<lparr>TransportName = ''t'', QuestionName = ''a'', KeyQType = 1\<rparr>; c = queueDNSCache exampleFile k [7] 0 in
   LoadDNSCache mapBolt c k = Some ([7], 0) \<and> LoadDNSCache mapBolt (DeleteDNSCache mapBolt TxCommit c k [8]) k = Some ([7], 0) \<and>
   map_option fst (LoadDNSCache mapBolt (DeleteDNSCache mapBolt TxCommit c k [7]) k) \<noteq> Some [7]"
proof -
  let ?k = "\<lparr>TransportName = ''t'', QuestionName = ''a'', KeyQType = 1\<rparr>" let ?c = "queueDNSCache exampleFile ?k [7] 0"
  have p: "dnsCache (pending ?c) = [(?k, cacheValue [7] 0)]" "writing ?c = None"
    using exampleFile_inv by (simp_all add: queueDNSCache_def enqueueLocked_def Let_def newPendingWrites_def)
  then have load: "LoadDNSCache mapBolt ?c ?k = Some ([7], 0)" by (simp add: LoadDNSCache_def entryMessage_value timeUnix_def)
  have len: "\<forall>(k, v) \<in> set (dnsCache (pending ?c)). 8 \<le> length v" using p by (simp add: cacheValue_def be_int64_def)
  show ?thesis
    using DeleteDNSCache_deletes [OF mapBolt_laws exampleFile_shape(1) p(2) len, of ?k] load by (simp add: Let_def)
qed

text \<open>A stored entry of each cache that expires at 100 seconds.\<close>

definition exampleKey :: saveCacheKey where
  "exampleKey = \<lparr>TransportName = ''t'', QuestionName = ''a'', KeyQType = 1\<rparr>"

definition exampleCached :: "mapdb CacheFile" where
  "exampleCached =
     (let path = cachePath exampleFile; t = str_bytes ''t'' in
      exampleFile\<lparr>DB := \<lparr>mdBuckets = [take 1 (path bucketRDRC), path bucketRDRC, path bucketDNSCache, path bucketRDRC @ [t], path bucketDNSCache @ [t]],
        mdKeys = [((path bucketRDRC @ [t], cacheKeyBytes exampleKey), be_int64 100),
                  ((path bucketDNSCache @ [t], cacheKeyBytes exampleKey), cacheValue [7] (100 * second))]\<rparr>\<rparr>)"

lemma exampleCached_shape:
  "cache_shape mapBolt exampleCached bucketDNSCache (DB exampleCached)" "cache_shape mapBolt exampleCached bucketRDRC (DB exampleCached)"
  "pending exampleCached = newPendingWrites" "writing exampleCached = None" "disableExpire exampleCached = False"
  "optimisticTimeout exampleCached = 0"
  by (auto simp: cache_shape_def exampleCached_def cachePath_def exampleFile_def newCacheFile_def mapBolt_def mapHas_def mapGet_def
      bucketDNSCache_def bucketRDRC_def str_bytes_def Let_def)

lemma exampleCached_entries:
  "entryOf mapBolt exampleCached bucketDNSCache (DB exampleCached) exampleKey = Some (cacheValue [7] (100 * second))"
  "entryOf mapBolt exampleCached bucketRDRC (DB exampleCached) exampleKey = Some (be_int64 100)"
  by (auto simp: entryOf_def exampleCached_def cachePath_def exampleFile_def newCacheFile_def mapBolt_def mapHas_def mapGet_def
      bucketDNSCache_def bucketRDRC_def str_bytes_def Let_def exampleKey_def)

theorem cleanupDNSCache_exact_witness:
  "LoadDNSCache mapBolt (cleanupDNSCache mapBolt TxCommit (100 * second) exampleCached) exampleKey = Some ([7], 100 * second) \<and>
   LoadDNSCache mapBolt (cleanupDNSCache mapBolt TxCommit (101 * second) exampleCached) exampleKey = None"
proof -
  have "LoadDNSCache mapBolt exampleCached exampleKey = Some ([7], 100 * second)"
    using LoadDNSCache_entry [OF mapBolt_laws exampleCached_shape(1)] exampleCached_shape(3,4) exampleCached_entries(1)
      entryMessage_value [of "100 * second" "[7]"]
    by (simp add: newPendingWrites_def timeUnix_def second_def cacheValue_def be_int64_def)
  then show ?thesis
    using cleanupDNSCache_exact [OF mapBolt_laws exampleCached_shape(1), of "100 * second" exampleKey]
      cleanupDNSCache_exact [OF mapBolt_laws exampleCached_shape(1), of "101 * second" exampleKey] exampleCached_shape(3-6)
    by (simp add: newPendingWrites_def second_def)
qed

end
