(* ===== verification/CacheValues.thy ===== *)
theory CacheValues
  imports CacheClean SavedBinary
begin

text \<open>
  The single values of the cache file: the selection and expansion of groups,
  the mode, and saved rule sets, dashboards and subscriptions.
\<close>

section \<open>Saved content\<close>

definition loadSaved :: "nat \<Rightarrow> 'd bolt \<Rightarrow> 'd CacheFile \<Rightarrow> bytes \<Rightarrow> string \<Rightarrow> saved_error + SavedBinary" where
  "loadSaved maxAlloc B c bucket tag =
     (case loadValue B c bucket tag of
        None \<Rightarrow> Inl SavedError
      | Some setBinary \<Rightarrow> if length setBinary = 0 then Inl SavedError else SavedBinary_UnmarshalBinary maxAlloc setBinary)"

text \<open>Where reading panics, the transaction takes the file for corrupted and replaces the database.\<close>

definition viewSaved :: "'d bolt \<Rightarrow> 'd CacheFile \<Rightarrow> saved_error + SavedBinary \<Rightarrow> SavedBinary option \<times> 'd CacheFile" where
  "viewSaved B c result =
     (case result of
        Inr savedSet \<Rightarrow> (Some savedSet, c)
      | Inl SavedError \<Rightarrow> (None, c)
      | Inl SavedPanic \<Rightarrow> (None, c\<lparr>DB := dbEmpty B\<rparr>))"

definition LoadRuleSet :: "nat \<Rightarrow> 'd bolt \<Rightarrow> 'd CacheFile \<Rightarrow> string \<Rightarrow> SavedBinary option \<times> 'd CacheFile" where
  "LoadRuleSet maxAlloc B c tag = viewSaved B c (loadSaved maxAlloc B c bucketRuleSet tag)"

definition SaveRuleSet :: "(nat \<Rightarrow> bytes) \<Rightarrow> 'd bolt \<Rightarrow> tx_outcome \<Rightarrow> 'd CacheFile \<Rightarrow> string \<Rightarrow> SavedBinary \<Rightarrow> bool \<times> 'd CacheFile" where
  "SaveRuleSet W B outcome c tag s = storeValue B outcome c bucketRuleSet tag (SavedBinary_MarshalBinary W s)"

definition LoadExternalUI :: "nat \<Rightarrow> 'd bolt \<Rightarrow> 'd CacheFile \<Rightarrow> string \<Rightarrow> SavedBinary option \<times> 'd CacheFile" where
  "LoadExternalUI maxAlloc B c tag = viewSaved B c (loadSaved maxAlloc B c bucketExternalUI tag)"

definition SaveExternalUI :: "(nat \<Rightarrow> bytes) \<Rightarrow> 'd bolt \<Rightarrow> tx_outcome \<Rightarrow> 'd CacheFile \<Rightarrow> string \<Rightarrow> SavedBinary \<Rightarrow> bool \<times> 'd CacheFile" where
  "SaveExternalUI W B outcome c tag info = storeValue B outcome c bucketExternalUI tag (SavedBinary_MarshalBinary W info)"

text \<open>Subscriptions use the database directly, so nothing stops a panic: \<open>None\<close>.\<close>

definition LoadSubscription :: "nat \<Rightarrow> 'd bolt \<Rightarrow> 'd CacheFile \<Rightarrow> string \<Rightarrow> SavedBinary option option" where
  "LoadSubscription maxAlloc B c tag =
     (case loadSaved maxAlloc B c bucketOutboundProvider tag of
        Inr savedSet \<Rightarrow> Some (Some savedSet)
      | Inl SavedError \<Rightarrow> Some None
      | Inl SavedPanic \<Rightarrow> None)"

definition SaveSubscription :: "(nat \<Rightarrow> bytes) \<Rightarrow> 'd bolt \<Rightarrow> tx_outcome \<Rightarrow> 'd CacheFile \<Rightarrow> string \<Rightarrow> SavedBinary \<Rightarrow> (bool \<times> 'd CacheFile) option" where
  "SaveSubscription W B outcome c tag sub =
     (if outcome = TxCorrupted then None
      else Some (storeValue B outcome c bucketOutboundProvider tag (SavedBinary_MarshalBinary W sub)))"

section \<open>Storing a value\<close>

text \<open>The database can take a value under the key: neither its bucket nor its key has another use.\<close>

definition storable :: "'d bolt \<Rightarrow> 'd CacheFile \<Rightarrow> bytes \<Rightarrow> string \<Rightarrow> bool" where
  "storable B c bucket key \<longleftrightarrow>
     proper_id c \<and> (\<forall>cid. cacheID c = Some cid \<longrightarrow> dbGet B (DB c) [cid] bucket = None) \<and>
     \<not> dbHas B (DB c) (cachePath c bucket @ [str_bytes key]) \<and> key \<noteq> [] \<and> length key \<le> 32768"

lemma storeValue_ok:
  assumes B: "bolt_laws B" and b: "bucket \<noteq> []" and s: "storable B c bucket key" and v: "validValue content"
  obtains db' where "storeValue B TxCommit c bucket key content = (True, c\<lparr>DB := db'\<rparr>)"
    "\<And>q j. dbGet B db' q j = (if q = cachePath c bucket \<and> j = str_bytes key then Some content else dbGet B (DB c) q j)"
    "\<And>q. dbHas B db' q \<longleftrightarrow> q \<in> bucketRoots c bucket \<or> dbHas B (DB c) q"
proof -
  obtain db1 where 1: "createBucketPath B c bucket (DB c) = Some (cachePath c bucket, db1)"
    "\<And>q k. dbGet B db1 q k = dbGet B (DB c) q k" "\<And>q. dbHas B db1 q \<longleftrightarrow> q \<in> bucketRoots c bucket \<or> dbHas B (DB c) q"
  proof (cases "cacheID c")
    case None
    obtain db1 where 1: "dbCreate B (DB c) [bucket] = Some db1" using bolt_bucket(4) [OF B b] by blast
    show ?thesis
      using None 1 bolt_bucket(6,7) [OF B 1]
      by (intro that [of db1]) (auto simp: createBucketPath_def cachePath_def bucketRoots_def)
  next
    case (Some cid)
    then have cid: "cid \<noteq> []" using s by (simp add: storable_def proper_id_def)
    obtain db1 where 1: "dbCreate B (DB c) [cid] = Some db1" using bolt_bucket(4) [OF B cid] by blast
    note h1 = bolt_bucket(6,7) [OF B 1]
    have "dbGet B db1 [cid] bucket = None" using s Some by (simp add: h1 storable_def)
    then obtain db2 where 2: "dbCreate B db1 [cid, bucket] = Some db2"
      using bolt_bucket(5) [OF B b, of "[cid]" db1] h1 by auto
    show ?thesis
      using Some 1 2 h1 bolt_bucket(6,7) [OF B 2]
      by (intro that [of db2]) (auto simp: createBucketPath_def cachePath_def bucketRoots_def)
  qed
  have has: "dbHas B db1 (cachePath c bucket)" by (simp add: 1 bucketRoots_def)
  have free: "\<not> dbHas B db1 (cachePath c bucket @ [str_bytes key])"
    using s by (auto simp: 1 storable_def bucketRoots_def cachePath_def split: option.splits)
  have k: "validKey (str_bytes key)" using s by (simp add: storable_def validKey_def)
  obtain db2 where 2: "dbPut B db1 (cachePath c bucket) (str_bytes key) content = Some db2"
    using bolt_key(2) [OF B has free k v] by blast
  show ?thesis
    using 1 2 bolt_key(3,4) [OF B 2] by (intro that [of db2]) (auto simp: storeValue_def dbUpdate_def)
qed

text \<open>What values read after a store: the stored one under its own bucket and key, the others as they were.\<close>

lemma loadValue_get:
  assumes "bolt_laws B" "\<forall>cid. cacheID c = Some cid \<longrightarrow> dbHas B (DB c) [cid, bucket] \<longrightarrow> dbHas B (DB c) [cid]"
  shows "loadValue B c bucket key = dbGet B (DB c) (cachePath c bucket) (str_bytes key)"
  using assms(2) bolt_bucket(2) [OF assms(1), of "DB c" "cachePath c bucket"]
  by (auto simp: loadValue_def bucketPath_def cachePath_def split: option.splits)

definition nested_ok :: "'d bolt \<Rightarrow> 'd CacheFile \<Rightarrow> bool" where
  "nested_ok B c \<longleftrightarrow> (\<forall>cid b. cacheID c = Some cid \<longrightarrow> dbHas B (DB c) [cid, b] \<longrightarrow> dbHas B (DB c) [cid])"

lemma storeValue_load:
  assumes "bolt_laws B" "bucket \<noteq> []" "storable B c bucket key" "validValue content" "nested_ok B c"
    and r: "storeValue B TxCommit c bucket key content = (ok, c')"
  shows "ok" "loadValue B c' other k = (if other = bucket \<and> k = key then Some content else loadValue B c other k)"
    "dbGet B (DB c') [bucketMode] m = (if cachePath c bucket = [bucketMode] \<and> m = str_bytes key then Some content else dbGet B (DB c) [bucketMode] m)"
    "dbHas B (DB c) [bucketMode] \<Longrightarrow> dbHas B (DB c') [bucketMode]" "cacheID c' = cacheID c" "nested_ok B c'"
proof -
  obtain db' where 1: "storeValue B TxCommit c bucket key content = (True, c\<lparr>DB := db'\<rparr>)"
    "\<And>q j. dbGet B db' q j = (if q = cachePath c bucket \<and> j = str_bytes key then Some content else dbGet B (DB c) q j)"
    "\<And>q. dbHas B db' q \<longleftrightarrow> q \<in> bucketRoots c bucket \<or> dbHas B (DB c) q"
    by (rule storeValue_ok [OF assms(1-4)]; rule that)
  have c': "ok" "c' = c\<lparr>DB := db'\<rparr>" using 1(1) r by simp_all
  have path: "cachePath c other = cachePath c bucket \<longleftrightarrow> other = bucket" "cachePath (c\<lparr>DB := db'\<rparr>) other = cachePath c other" for other
    by (auto simp: cachePath_def split: option.splits)
  have nested: "nested_ok B c'" using assms(5) by (auto simp: nested_ok_def c' 1 bucketRoots_def cachePath_def split: option.splits)
  have "loadValue B d b k = dbGet B (DB d) (cachePath d b) (str_bytes k)" if "nested_ok B d" for d b k
    using loadValue_get [OF assms(1), of d b k] that by (auto simp: nested_ok_def)
  then show "loadValue B c' other k = (if other = bucket \<and> k = key then Some content else loadValue B c other k)"
    using nested assms(5) by (simp add: c' path 1(2))
  show "ok" "cacheID c' = cacheID c" "nested_ok B c'" using c' nested by simp_all
  show "dbGet B (DB c') [bucketMode] m = (if cachePath c bucket = [bucketMode] \<and> m = str_bytes key then Some content else dbGet B (DB c) [bucketMode] m)"
    "dbHas B (DB c) [bucketMode] \<Longrightarrow> dbHas B (DB c') [bucketMode]"
    by (auto simp: c' 1)
qed

lemma bucket_names_distinct:
  "distinct [bucketSelected, bucketExpand, bucketMode, bucketRuleSet, bucketExternalUI, bucketOutboundProvider]"
  "[] \<notin> set [bucketSelected, bucketExpand, bucketMode, bucketRuleSet, bucketExternalUI, bucketOutboundProvider]"
  by code_simp+

lemma loadSaved_kept:
  "loadValue B c' bucket tag = loadValue B c bucket tag \<Longrightarrow> fst (viewSaved B c' (loadSaved n B c' bucket tag)) = fst (viewSaved B c (loadSaved n B c bucket tag))"
  by (simp add: loadSaved_def viewSaved_def split: sum.splits saved_error.splits)

lemma saveRuleSet_load:
  assumes "varint_laws W" "bolt_laws B" "nested_ok B c" "storable B c bucketRuleSet tag" "validValue (SavedBinary_MarshalBinary W s)"
    and "hash_ok (Hash s)" "16 \<le> maxAlloc" "- (2 ^ 63) \<le> timeUnix (LastUpdated s)" "timeUnix (LastUpdated s) < 2 ^ 63"
  shows "\<exists>c'. SaveRuleSet W B TxCommit c tag s = (True, c') \<and>
    LoadRuleSet maxAlloc B c' tag = (Some (s\<lparr>LastUpdated := timeUnix (LastUpdated s) * second\<rparr>), c') \<and>
    (\<forall>t. t \<noteq> tag \<longrightarrow> fst (LoadRuleSet maxAlloc B c' t) = fst (LoadRuleSet maxAlloc B c t)) \<and>
    LoadSelected B c' = LoadSelected B c \<and> LoadGroupExpand B c' = LoadGroupExpand B c \<and> nested_ok B c'"
proof -
  obtain ok c' where r: "SaveRuleSet W B TxCommit c tag s = (ok, c')" by fastforce
  have names: "bucketRuleSet \<noteq> []" "bucketSelected \<noteq> bucketRuleSet" "bucketExpand \<noteq> bucketRuleSet"
    using bucket_names_distinct by auto
  note load = storeValue_load(1,2,6) [OF assms(2) names(1) assms(4,5,3) r [unfolded SaveRuleSet_def]]
  have len: "length (Content s) < 2 ^ 64" "length (LastEtag s) < 2 ^ 64" "length (URLHash s) < 2 ^ 64"
    using assms(5) by (auto simp: validValue_def SavedBinary_MarshalBinary_def Let_def)
  have "SavedBinary_MarshalBinary W s \<noteq> []" by (simp add: SavedBinary_MarshalBinary_def Let_def)
  then have "loadSaved maxAlloc B c' bucketRuleSet tag = Inr (s\<lparr>LastUpdated := timeUnix (LastUpdated s) * second\<rparr>)"
    using load(2) [of bucketRuleSet tag] SavedBinary_roundtrip_nothing [OF assms(1,6,7) len assms(8,9)] by (simp add: loadSaved_def)
  moreover have "fst (LoadRuleSet maxAlloc B c' t) = fst (LoadRuleSet maxAlloc B c t)" if "t \<noteq> tag" for t
    unfolding LoadRuleSet_def by (rule loadSaved_kept) (use load(2) that in simp)
  moreover have "LoadSelected B c' = LoadSelected B c" "LoadGroupExpand B c' = LoadGroupExpand B c"
    using load(2) names by (auto simp: LoadSelected_def LoadGroupExpand_def fun_eq_iff)
  ultimately show ?thesis using r load(1,3) by (auto simp: LoadRuleSet_def viewSaved_def)
qed

text \<open>
  A saved rule set is loaded as it was saved, its time to the second, and
  saving it changes no other rule set and none of the values of groups.
\<close>

lemma rule_set_saved:
  assumes "varint_laws W" "bolt_laws B" "nested_ok B c" "storable B c bucketRuleSet tag" "validValue (SavedBinary_MarshalBinary W s)"
    and "hash_ok (Hash s)" "16 \<le> maxAlloc" "- (2 ^ 63) \<le> timeUnix (LastUpdated s)" "timeUnix (LastUpdated s) < 2 ^ 63"
  shows "\<exists>c'. SaveRuleSet W B TxCommit c tag s = (True, c') \<and>
    LoadRuleSet maxAlloc B c' tag = (Some (s\<lparr>LastUpdated := timeUnix (LastUpdated s) * second\<rparr>), c') \<and>
    (\<forall>t. t \<noteq> tag \<longrightarrow> fst (LoadRuleSet maxAlloc B c' t) = fst (LoadRuleSet maxAlloc B c t)) \<and>
    LoadSelected B c' = LoadSelected B c \<and> LoadGroupExpand B c' = LoadGroupExpand B c"
  using saveRuleSet_load [OF assms] by blast

text \<open>
  The selection and the expansion of a group are kept apart: storing one
  for a group changes it for that group only and leaves the other alone.
\<close>

lemma group_values:
  assumes "bolt_laws B" "nested_ok B c" "storable B c bucketSelected tag" "storable B c bucketExpand tag" "validValue (str_bytes selected)"
  shows "(let (ok, c') = StoreSelected B TxCommit c tag selected in
      ok \<and> LoadSelected B c' = (LoadSelected B c)(tag := selected) \<and> LoadGroupExpand B c' = LoadGroupExpand B c) \<and>
    (let (ok, c') = StoreGroupExpand B TxCommit c tag isExpand in
      ok \<and> LoadGroupExpand B c' = (LoadGroupExpand B c)(tag \<mapsto> isExpand) \<and> LoadSelected B c' = LoadSelected B c)"
proof -
  have names: "bucketSelected \<noteq> []" "bucketExpand \<noteq> []" "bucketSelected \<noteq> bucketExpand" using bucket_names_distinct by auto
  obtain ok1 c1 where 1: "StoreSelected B TxCommit c tag selected = (ok1, c1)" by fastforce
  obtain ok2 c2 where 2: "StoreGroupExpand B TxCommit c tag isExpand = (ok2, c2)" by fastforce
  have flag: "validValue (if isExpand then [1] else [0])" by (simp add: validValue_def)
  note l1 = storeValue_load(1,2) [OF assms(1) names(1) assms(3,5,2) 1 [unfolded StoreSelected_def]]
  note l2 = storeValue_load(1,2) [OF assms(1) names(2) assms(4) flag assms(2) 2 [unfolded StoreGroupExpand_def]]
  show ?thesis
    unfolding 1 2 using l1 l2 names(3)
    by (auto simp: LoadSelected_def LoadGroupExpand_def fun_eq_iff)
qed

section \<open>Instances\<close>

lemma exampleFile_storable:
  "nested_ok mapBolt exampleFile" "key \<noteq> [] \<Longrightarrow> length key \<le> 32768 \<Longrightarrow> storable mapBolt exampleFile bucket key"
  using bolt_bucket(1,2) [OF mapBolt_laws] exampleFile_inv(1,3)
  by (simp_all add: nested_ok_def storable_def cache_inv_def exampleFile_inv)

definition exampleSaved :: SavedBinary where
  "exampleSaved = \<lparr>Hash = \<lparr>md5 = replicate 16 9\<rparr>, Content = [1, 2], LastUpdated = 5 * second, LastEtag = ''e'', URLHash = [3]\<rparr>"

end
