(* ===== verification/RuleSetProps.thy ===== *)
theory RuleSetProps
  imports SRSMatch RuleConfig CacheValues
begin

text \<open>
  Properties of the rule sets of the router: what they publish is well formed,
  a failed update leaves them alone, and what a remote set fetched is restored
  from the cache file after a restart.
\<close>

section \<open>Rules a set publishes\<close>

text \<open>What can happen to a set, whichever goroutine does it.\<close>

inductive set_step :: "('m, 'a) loader \<Rightarrow> 'c abstractRuleSet \<Rightarrow> 'c abstractRuleSet \<Rightarrow> bool" for L where
  inline: "set_step L s (snd (reloadRules L rules s))"
| load: "loadBytes L content s = Some (r, t) \<Longrightarrow> set_step L s t"
| updated: "set_step L s (setUpdatedTime now s)"
| increase: "set_step L s (IncRef s)"
| decrease: "DecRef s = Some t \<Longrightarrow> set_step L s t"
| cleanup: "set_step L s (Cleanup s)"
| close: "set_step L s (clearRules s)"
| register: "set_step L s (snd (RegisterCallback callback s))"
| unregister: "set_step L s (UnregisterCallback element s)"

definition publishes_wf :: "'c abstractRuleSet \<Rightarrow> bool" where
  "publishes_wf s \<longleftrightarrow> list_all (\<lambda>r. wf_rule r \<and> no_rule_set r) (rsRules s) \<and>
     (rsSnapshot s = None \<or> rsSnapshot s = Some (rsRules s))"

lemma wf_buildRules:
  "buildRules L i options = Inr rules \<Longrightarrow> list_all (\<lambda>r. wf_rule r \<and> no_rule_set r) rules"
proof (induction options arbitrary: i rules)
  case (Cons opts rest)
  then show ?case using wf_NewHeadlessRule(1) by (auto split: sum.splits)
qed simp

lemma publishes_reload: "publishes_wf s \<Longrightarrow> publishes_wf (snd (reloadRules L rules s))"
  by (auto simp: reloadRules_def publishes_wf_def Let_def dest: wf_buildRules split: sum.splits)

lemma loadBytesE:
  assumes "loadBytes L content s = Some (r, t)"
  obtains (undecoded) e where "r = Inl e" "t = s"
  | (decoded) rules where "decodeRuleSet L (rsFormat s) content = Some (Inr rules)" "reloadRules L rules s = (r, t)"
proof (cases "decodeRuleSet L (rsFormat s) content")
  case (Some d)
  then show ?thesis using assms that by (cases d) (auto simp: loadBytes_def)
qed (use assms in \<open>simp add: loadBytes_def\<close>)

lemma publishes_step: "set_step L s t \<Longrightarrow> publishes_wf s \<Longrightarrow> publishes_wf t"
proof (induction rule: set_step.induct)
  case (inline s rules)
  then show ?case by (rule publishes_reload)
next
  case (load content s r t)
  then show ?case by (metis loadBytesE publishes_reload snd_conv)
qed (auto simp: publishes_wf_def setUpdatedTime_def IncRef_def DecRef_def Cleanup_def clearRules_def
    RegisterCallback_def UnregisterCallback_def split: if_splits)

text \<open>
  C11. Whatever happens to a rule set, the rules it publishes are well-formed
  rules that name no rule set themselves, so that matching a set never leads
  back to a set.
\<close>

theorem published_rules_well_formed:
  assumes "(set_step L)\<^sup>*\<^sup>* (newAbstractRuleSet tag options path) s"
  shows "list_all (\<lambda>r. wf_rule r \<and> no_rule_set r) (loadRules s)"
proof -
  have "publishes_wf s"
    using assms
    by (induction rule: rtranclp_induct) (simp add: publishes_wf_def newAbstractRuleSet_def, rule publishes_step)
  then show ?thesis by (auto simp: publishes_wf_def loadRules_def split: option.splits)
qed

section \<open>Failed updates\<close>

lemma failed_load: "loadBytes L content s = Some (Inl e, t) \<Longrightarrow> t = s"
  by (erule loadBytesE) (auto simp: reloadRules_def Let_def split: sum.splits if_splits)

text \<open>
  C10. An update of a remote set that fails changes nothing, neither the rules in
  force nor what is saved, unless it is only the saving that failed.
\<close>

theorem failed_update_keeps_set:
  assumes "RemoteRuleSet_Update L X response now s w = Some (Inl e, t, v)" "e \<noteq> SaveFailed"
  shows "t = s \<and> v = w"
proof -
  have f: "fetchGuarded L X response now s w = Some (Inl e, t, v)"
  proof (cases "fetchGuarded L X response now s w")
    case (Some p)
    obtain r t' v' where "p = (r, t', v')" by (cases p)
    then show ?thesis using Some assms(1) by (cases r) (auto simp: RemoteRuleSet_Update_def)
  qed (use assms(1) in \<open>simp add: RemoteRuleSet_Update_def\<close>)
  show ?thesis
  proof (cases "rrUpdating s")
    case True
    then show ?thesis using f by (simp add: fetchGuarded_def)
  next
    case False
    then obtain t' where t': "fetch L X response now (s\<lparr>rrUpdating := True\<rparr>) w = Some (Inl e, t', v)" "t = t'\<lparr>rrUpdating := False\<rparr>"
      using f by (auto simp: fetchGuarded_def)
    then have "t' = s\<lparr>rrUpdating := True\<rparr> \<and> v = w"
      using assms(2) by (auto simp: fetch_def Let_def split: option.splits if_splits sum.splits prod.splits dest: failed_load)
    then show ?thesis using t'(2) False by simp
  qed
qed

section \<open>Restoring after a restart\<close>

text \<open>The content a set without a file of its own leaves in the cache file.\<close>

definition fetched :: "'c RemoteRuleSet \<Rightarrow> int \<Rightarrow> bytes \<Rightarrow> SavedBinary" where
  "fetched s now content = \<lparr>Hash = \<lparr>md5 = replicate 16 0\<rparr>, Content = content, LastUpdated = now,
     LastEtag = rrLastEtag s, URLHash = rrURLHash s\<rparr>"

text \<open>
  What a remote set needs of the cache file: content that was saved is loaded
  as it was, its time to the second, while the file stays usable.
\<close>

locale rule_set_store =
  fixes X :: "'w outside" and usable :: "'w \<Rightarrow> bool" and fits :: "'w \<Rightarrow> string \<Rightarrow> SavedBinary \<Rightarrow> bool"
  assumes cached: "hasCacheFile X"
    and saved: "usable w \<Longrightarrow> fits w tag b \<Longrightarrow> \<exists>w'. oSaveRuleSet X w tag b = (True, w') \<and> usable w' \<and>
      oLoadRuleSet X w' tag = (Some (b\<lparr>LastUpdated := timeUnix (LastUpdated b) * second\<rparr>), w')"
begin

lemma fetch_saves:
  assumes f: "fetch L X (Some \<lparr>statusCode = 200, etagHeader = etag, responseBody = Some content\<rparr>) now s w = Some (Inr cs, t, v)"
    and ok: "rsPath s = []" "usable w" "fits w (rsTag s) (fetched (s\<lparr>rrLastEtag := if etag = [] then rrLastEtag s else etag\<rparr>) now content)"
  obtains rules where "decodeRuleSet L (rsFormat s) content = Some (Inr rules)"
    "reloadRules L rules s = (Inr cs, t\<lparr>rsLastUpdated := rsLastUpdated s, rrLastEtag := rrLastEtag s\<rparr>)"
    "rsLastUpdated t = now" "rrURLHash t = rrURLHash s" "rsTag t = rsTag s"
    "oLoadRuleSet X v (rsTag s) = (Some ((fetched t now content)\<lparr>LastUpdated := timeUnix now * second\<rparr>), v)"
proof -
  obtain s1 where load: "loadBytes L content s = Some (Inr cs, s1)"
  proof (cases "loadBytes L content s")
    case (Some p)
    obtain res s1 where p: "p = (res, s1)" by (cases p)
    show ?thesis
    proof (cases res)
      case (Inr cs')
      then have "cs' = cs" using f Some p by (auto simp: fetch_def Let_def split: prod.split_asm if_split_asm)
      then show ?thesis using that Some p Inr by blast
    qed (use f Some p in \<open>simp add: fetch_def\<close>)
  qed (use f in \<open>simp add: fetch_def\<close>)
  then obtain rules where rules: "decodeRuleSet L (rsFormat s) content = Some (Inr rules)" "reloadRules L rules s = (Inr cs, s1)"
    by (auto elim: loadBytesE)
  then have kept: "rsPath s1 = []" "rsTag s1 = rsTag s" "rrURLHash s1 = rrURLHash s" "rsLastUpdated s1 = rsLastUpdated s" "rrLastEtag s1 = rrLastEtag s"
    using ok(1) by (auto simp: reloadRules_def Let_def split: sum.splits if_splits)
  define s2 where "s2 = setUpdatedTime now (if etag \<noteq> [] then s1\<lparr>rrLastEtag := etag\<rparr> else s1)"
  have s2: "rrLastEtag s2 = (if etag = [] then rrLastEtag s else etag)" "rsPath s2 = []" "rsTag s2 = rsTag s" "rrURLHash s2 = rrURLHash s" "rsLastUpdated s2 = now"
    using kept by (simp_all add: s2_def setUpdatedTime_def)
  have undone: "s1 = s2\<lparr>rsLastUpdated := rsLastUpdated s, rrLastEtag := rrLastEtag s\<rparr>"
    using kept by (cases s1) (simp add: s2_def setUpdatedTime_def)
  have "fetched s2 now content = fetched (s\<lparr>rrLastEtag := if etag = [] then rrLastEtag s else etag\<rparr>) now content"
    using s2 by (simp add: fetched_def)
  then obtain w' where w': "oSaveRuleSet X w (rsTag s) (fetched s2 now content) = (True, w')"
    "oLoadRuleSet X w' (rsTag s) = (Some ((fetched s2 now content)\<lparr>LastUpdated := timeUnix now * second\<rparr>), w')"
    using saved [OF ok(2,3)] by (auto simp: fetched_def)
  have "saveFetched X now content s2 w = (True, s2, w')"
    using cached s2(2-4) w'(1) by (simp add: saveFetched_def fetched_def)
  then have "t = s2" "v = w'" using f load by (auto simp: fetch_def s2_def Let_def cong: if_cong)
  then show ?thesis using that [OF rules(1)] rules(2) s2 undone w'(2) by simp
qed

lemma restored:
  assumes dec: "decodeRuleSet L (rsFormat s) content = Some (Inr rules)" and load: "reloadRules L rules s = (Inr cs, t)"
    and saved_as: "oLoadRuleSet X v (rsTag s) = (Some b, v)" "Content b = content" "content \<noteq> []"
    and n: "rsPath n = []" "rsTag n = rsTag s" "rsFormat n = rsFormat s"
  shows "URLHash b = rrURLHash n \<Longrightarrow>
      \<exists>cs' n'. loadCacheFile L X n v = Some (Inr True, cs', n', v) \<and> loadRules n' = loadRules t \<and>
        rsMetadata n' = rsMetadata t \<and> rsLastUpdated n' = LastUpdated b \<and> rrLastEtag n' = LastEtag b"
    and "URLHash b \<noteq> [] \<Longrightarrow> URLHash b \<noteq> rrURLHash n \<Longrightarrow> loadCacheFile L X n v = Some (Inr False, [], n, v)"
proof -
  obtain built where built: "buildRules L 0 rules = Inr built" "validateRuleSetMetadataUpdate L (rsTag s) (buildRuleSetMetadata rules)"
    "loadRules t = built" "rsMetadata t = buildRuleSetMetadata rules"
    using load by (auto simp: reloadRules_def Let_def loadRules_def split: sum.splits if_splits)
  show "\<exists>cs' n'. loadCacheFile L X n v = Some (Inr True, cs', n', v) \<and> loadRules n' = loadRules t \<and>
        rsMetadata n' = rsMetadata t \<and> rsLastUpdated n' = LastUpdated b \<and> rrLastEtag n' = LastEtag b"
    if "URLHash b = rrURLHash n"
    using cached saved_as n that dec built
    by (simp add: loadCacheFile_def cachedContent_def loadBytes_def reloadRules_def loadRules_def setUpdatedTime_def)
  show "loadCacheFile L X n v = Some (Inr False, [], n, v)" if "URLHash b \<noteq> []" "URLHash b \<noteq> rrURLHash n"
    using cached saved_as n that by (simp add: loadCacheFile_def)
qed

lemma fetched_restored:
  assumes f: "fetch L X (Some \<lparr>statusCode = 200, etagHeader = etag, responseBody = Some content\<rparr>) now s w = Some (Inr cs, t, v)"
    and ok: "rsPath s = []" "usable w" "fits w (rsTag s) (fetched (s\<lparr>rrLastEtag := if etag = [] then rrLastEtag s else etag\<rparr>) now content)"
    and n: "content \<noteq> []" "rsPath n = []" "rsTag n = rsTag s" "rsFormat n = rsFormat s"
  shows "rrURLHash n = rrURLHash s \<Longrightarrow>
      \<exists>cs' n'. loadCacheFile L X n v = Some (Inr True, cs', n', v) \<and> loadRules n' = loadRules t \<and>
        rsMetadata n' = rsMetadata t \<and> rsLastUpdated n' = timeUnix now * second \<and> rrLastEtag n' = rrLastEtag t"
    and "rrURLHash s \<noteq> [] \<Longrightarrow> rrURLHash n \<noteq> rrURLHash s \<Longrightarrow> loadCacheFile L X n v = Some (Inr False, [], n, v)"
proof -
  obtain rules where *: "decodeRuleSet L (rsFormat s) content = Some (Inr rules)"
    "reloadRules L rules s = (Inr cs, t\<lparr>rsLastUpdated := rsLastUpdated s, rrLastEtag := rrLastEtag s\<rparr>)"
    "rsLastUpdated t = now" "rrURLHash t = rrURLHash s" "rsTag t = rsTag s"
    "oLoadRuleSet X v (rsTag s) = (Some ((fetched t now content)\<lparr>LastUpdated := timeUnix now * second\<rparr>), v)"
    using fetch_saves [OF f ok] by blast
  have same: "loadRules (t\<lparr>rsLastUpdated := x, rrLastEtag := y\<rparr>) = loadRules t" for x y
    by (simp add: loadRules_def split: option.split)
  note again = restored [OF *(1,2,6) _ n]
  show "\<exists>cs' n'. loadCacheFile L X n v = Some (Inr True, cs', n', v) \<and> loadRules n' = loadRules t \<and>
        rsMetadata n' = rsMetadata t \<and> rsLastUpdated n' = timeUnix now * second \<and> rrLastEtag n' = rrLastEtag t"
    if "rrURLHash n = rrURLHash s"
    using again(1) that *(4) by (simp add: fetched_def same)
  show "loadCacheFile L X n v = Some (Inr False, [], n, v)" if "rrURLHash s \<noteq> []" "rrURLHash n \<noteq> rrURLHash s"
    using again(2) that *(4) by (simp add: fetched_def)
qed

end

text \<open>The cache file of the program, with transactions that commit and no other files.\<close>

definition cacheOutside ::
  "(nat \<Rightarrow> bytes) \<Rightarrow> 'd bolt \<Rightarrow> nat \<Rightarrow> (bytes \<Rightarrow> HashType) \<Rightarrow> 'd CacheFile outside" where
  "cacheOutside W B maxAlloc makeHash =
     \<lparr>hasCacheFile = True, oLoadRuleSet = LoadRuleSet maxAlloc B, oSaveRuleSet = SaveRuleSet W B TxCommit,
      oStat = (\<lambda>_ _. StatMissing), oReadFile = (\<lambda>_ _. None), oWriteFile = (\<lambda>w _ _. (False, w)), oMakeHash = makeHash\<rparr>"

definition cacheUsable :: "(nat \<Rightarrow> bytes) \<Rightarrow> 'd bolt \<Rightarrow> nat \<Rightarrow> 'd CacheFile \<Rightarrow> bool" where
  "cacheUsable W B maxAlloc c \<longleftrightarrow> varint_laws W \<and> bolt_laws B \<and> 16 \<le> maxAlloc \<and> nested_ok B c"

definition cacheFits :: "(nat \<Rightarrow> bytes) \<Rightarrow> 'd bolt \<Rightarrow> 'd CacheFile \<Rightarrow> string \<Rightarrow> SavedBinary \<Rightarrow> bool" where
  "cacheFits W B c tag b \<longleftrightarrow> storable B c bucketRuleSet tag \<and> validValue (SavedBinary_MarshalBinary W b) \<and>
     hash_ok (Hash b) \<and> - (2 ^ 63) \<le> timeUnix (LastUpdated b) \<and> timeUnix (LastUpdated b) < 2 ^ 63"

interpretation cacheStore: rule_set_store "cacheOutside W B maxAlloc makeHash" "cacheUsable W B maxAlloc" "cacheFits W B"
  for W :: "nat \<Rightarrow> bytes" and B :: "'d bolt" and maxAlloc makeHash
proof unfold_locales
  show "hasCacheFile (cacheOutside W B maxAlloc makeHash)" by (simp add: cacheOutside_def)
  fix c tag b assume "cacheUsable W B maxAlloc c" "cacheFits W B c tag b"
  then show "\<exists>w'. oSaveRuleSet (cacheOutside W B maxAlloc makeHash) c tag b = (True, w') \<and> cacheUsable W B maxAlloc w' \<and>
      oLoadRuleSet (cacheOutside W B maxAlloc makeHash) w' tag = (Some (b\<lparr>LastUpdated := timeUnix (LastUpdated b) * second\<rparr>), w')"
    using saveRuleSet_load [of W B c tag b maxAlloc] by (auto simp: cacheOutside_def cacheUsable_def cacheFits_def)
qed

text \<open>
  C9. What a remote set fetched is there after a restart: a set with the same
  tag, format and URL restores the same rules and metadata from the cache file,
  with the entity tag and the time, to the second, of the download, while a set
  of another URL restores nothing and stays as it is.
\<close>

theorem fetched_set_restored:
  assumes "fetch L (cacheOutside W B maxAlloc h) (Some \<lparr>statusCode = 200, etagHeader = etag, responseBody = Some content\<rparr>) now s c = Some (Inr cs, t, c')"
    and "rsPath s = []" "cacheUsable W B maxAlloc c"
    and "cacheFits W B c (rsTag s) (fetched (s\<lparr>rrLastEtag := if etag = [] then rrLastEtag s else etag\<rparr>) now content)"
    and "content \<noteq> []" "rsPath n = []" "rsTag n = rsTag s" "rsFormat n = rsFormat s" "rrURLHash s \<noteq> []"
  shows "if rrURLHash n = rrURLHash s
    then \<exists>cs' n'. loadCacheFile L (cacheOutside W B maxAlloc h) n c' = Some (Inr True, cs', n', c') \<and>
      loadRules n' = loadRules t \<and> rsMetadata n' = rsMetadata t \<and>
      rsLastUpdated n' = timeUnix now * second \<and> rrLastEtag n' = rrLastEtag t
    else loadCacheFile L (cacheOutside W B maxAlloc h) n c' = Some (Inr False, [], n, c')"
  using cacheStore.fetched_restored [OF assms(1-8)] assms(9) by simp

section \<open>Witnesses\<close>

definition portRules :: "HeadlessRuleOptions list" where
  "portRules = [HeadlessDefaultOptions (ruleOptionsZero\<lparr>opt_Port := [443]\<rparr>)]"

definition portLoader :: "(bool, bool) loader" where
  "portLoader = exampleLoader\<lparr>ldUnmarshalJSON := (\<lambda>_. Some (2, portRules))\<rparr>"

definition exampleOptions :: RuleSetOptions where
  "exampleOptions = \<lparr>rsoType = ''remote'', rsoFormat = ''source'', rsoPath = [], rsoInline = [],
     rsoURL = ''https://a.org/{tag}.json'', rsoInitialPath = [], rsoUpdateInterval = 0\<rparr>"

lemma portRules_build: "\<exists>rule. buildRules portLoader 0 portRules = Inr [rule]"
  by (simp add: portRules_def portLoader_def exampleLoader_def conditionsSet_def ruleOptionsZero_def NewDefaultHeadlessRule_def
      Let_def NewDefaultHeadlessRule_steps_def NewDefaultHeadlessRule_addressSteps_def processSteps_def networkSteps_def
      interfaceSteps_def add_def addE_def addOrRaw_def)

lemma portRules_load:
  assumes "rsFormat s = ''source''"
  obtains rule cs t where "loadBytes portLoader content s = Some (Inr cs, t)" "loadRules t = [rule]"
proof -
  obtain rule where "buildRules portLoader 0 portRules = Inr [rule]" using portRules_build by blast
  then show ?thesis
    using assms that by (simp add: loadBytes_def decodeRuleSet_def Upgrade_def reloadRules_def loadRules_def
        portLoader_def exampleLoader_def validateRuleSetMetadataUpdate_def word_le_nat_alt)
qed

theorem published_rules_well_formed_witness:
  "\<exists>rule t. set_step portLoader (newAbstractRuleSet ''geo'' exampleOptions [] :: unit abstractRuleSet) t \<and>
     loadRules t = [rule] \<and> wf_rule rule \<and> no_rule_set rule"
proof -
  let ?s = "newAbstractRuleSet ''geo'' exampleOptions [] :: unit abstractRuleSet"
  have "rsFormat ?s = ''source''" by (simp add: newAbstractRuleSet_def exampleOptions_def)
  then obtain rule cs t where t: "loadBytes portLoader [] ?s = Some (Inr cs, t)" "loadRules t = [rule]" by (rule portRules_load)
  then have step: "set_step portLoader ?s t" by (intro set_step.load)
  then have "list_all (\<lambda>r. wf_rule r \<and> no_rule_set r) (loadRules t)"
    by (intro published_rules_well_formed [of portLoader "''geo''" exampleOptions "[]"]) simp
  then show ?thesis using step t(2) by auto
qed

definition exampleRemote :: "string \<Rightarrow> unit RemoteRuleSet" where
  "exampleRemote url = abstractRuleSet.extend (newAbstractRuleSet ''geo'' exampleOptions [])
     (RemoteRuleSet.fields url (str_bytes url) [] second \<lparr>md5 = replicate 16 0\<rparr> [] False)"

lemma exampleRemote_simps [simp]:
  "rsPath (exampleRemote url) = []" "rsTag (exampleRemote url) = ''geo''" "rsFormat (exampleRemote url) = ''source''"
  "rrURLHash (exampleRemote url) = str_bytes url" "rrUpdating (exampleRemote url) = False" "rrLastEtag (exampleRemote url) = []"
  by (simp_all add: exampleRemote_def newAbstractRuleSet_def exampleOptions_def abstractRuleSet.defs RemoteRuleSet.defs)

theorem failed_update_keeps_set_witness:
  "RemoteRuleSet_Update portLoader (cacheOutside uvarint mapBolt 1000 (\<lambda>_. \<lparr>md5 = []\<rparr>))
     (Some \<lparr>statusCode = 500, etagHeader = [], responseBody = None\<rparr>) 7 (exampleRemote ''u'') exampleFile =
   Some (Inl (UnexpectedStatus 500), exampleRemote ''u'', exampleFile)"
proof -
  obtain t v where "RemoteRuleSet_Update portLoader (cacheOutside uvarint mapBolt 1000 (\<lambda>_. \<lparr>md5 = []\<rparr>))
     (Some \<lparr>statusCode = 500, etagHeader = [], responseBody = None\<rparr>) 7 (exampleRemote ''u'') exampleFile =
     Some (Inl (UnexpectedStatus 500), t, v)"
    by (simp add: RemoteRuleSet_Update_def fetchGuarded_def fetch_def)
  from this failed_update_keeps_set [OF this] show ?thesis by simp
qed

theorem fetched_set_restored_witness:
  "\<exists>cs t c n cs'. fetch portLoader (cacheOutside uvarint mapBolt 1000 (\<lambda>_. \<lparr>md5 = []\<rparr>))
       (Some \<lparr>statusCode = 200, etagHeader = ''e'', responseBody = Some [123]\<rparr>) (5 * second) (exampleRemote ''u'') exampleFile = Some (Inr cs, t, c) \<and>
     loadCacheFile portLoader (cacheOutside uvarint mapBolt 1000 (\<lambda>_. \<lparr>md5 = []\<rparr>)) (exampleRemote ''u'') c = Some (Inr True, cs', n, c) \<and>
     loadRules n = loadRules t \<and> length (loadRules n) = 1 \<and> rsLastUpdated n = 5 * second \<and> rrLastEtag n = ''e''"
proof -
  let ?X = "cacheOutside uvarint mapBolt 1000 (\<lambda>_. \<lparr>md5 = []\<rparr>)" and ?s = "exampleRemote ''u''"
  obtain rule cs t where t: "loadBytes portLoader [123] ?s = Some (Inr cs, t)" "loadRules t = [rule]"
    by (rule portRules_load [of ?s]) simp
  have kept: "rsPath t = []" using t(1) by (auto elim!: loadBytesE simp: reloadRules_def Let_def split: sum.splits if_splits)
  define t' where "t' = setUpdatedTime (5 * second) (t\<lparr>rrLastEtag := ''e''\<rparr>)"
  obtain c where f: "fetch portLoader ?X (Some \<lparr>statusCode = 200, etagHeader = ''e'', responseBody = Some [123]\<rparr>) (5 * second) ?s exampleFile = Some (Inr cs, t', c)"
    using t(1) kept by (auto simp: fetch_def saveFetched_def setUpdatedTime_def t'_def Let_def)
  have usable: "cacheUsable uvarint mapBolt 1000 exampleFile"
    using mapBolt_laws uvarint_laws exampleFile_storable(1) by (simp add: cacheUsable_def)
  have unix: "timeUnix (5 * second) = 5" by (simp add: timeUnix_def second_def)
  have fits: "cacheFits uvarint mapBolt exampleFile (rsTag ?s) (fetched (?s\<lparr>rrLastEtag := if ''e'' = [] then rrLastEtag ?s else ''e''\<rparr>) (5 * second) [123])"
    using exampleFile_storable(2)
    by (simp add: cacheFits_def fetched_def unix hash_ok_def validValue_def SavedBinary_MarshalBinary_def Let_def
        HashType_MarshalBinary_def uvarint_small be_int64_def)
  have "loadRules t' = [rule]" "rrLastEtag t' = ''e''"
    using t(2) by (simp_all add: t'_def setUpdatedTime_def loadRules_def split: option.splits)
  moreover from fetched_set_restored [OF f _ usable fits, of ?s]
  obtain cs' n where "loadCacheFile portLoader ?X ?s c = Some (Inr True, cs', n, c)" "loadRules n = loadRules t'"
    "rsLastUpdated n = timeUnix (5 * second) * second" "rrLastEtag n = rrLastEtag t'" by auto
  ultimately show ?thesis using f unix by auto
qed

end
