(* ===== verification/Geosite.thy ===== *)
theory Geosite
  imports RuleBuild "HOL-Library.List_Lexorder" "HOL-Library.Char_ord"
begin

text \<open>
  The geosite database of \<^verbatim>\<open>common/geosite\<close>: lists of domain items under codes, the
  file they are written to and read from, and their compilation to a rule. A
  map from codes to items is an association list; a file is its bytes.
\<close>

section \<open>Items and rules\<close>

record Item =
  ItemType :: u8
  ItemValue :: string

abbreviation RuleTypeDomain :: u8 where "RuleTypeDomain \<equiv> 0"
abbreviation RuleTypeDomainSuffix :: u8 where "RuleTypeDomainSuffix \<equiv> 1"
abbreviation RuleTypeDomainKeyword :: u8 where "RuleTypeDomainKeyword \<equiv> 2"
abbreviation RuleTypeDomainRegex :: u8 where "RuleTypeDomainRegex \<equiv> 3"

definition compileItem :: "Item \<Rightarrow> ruleOptions \<Rightarrow> ruleOptions" where
  "compileItem item rule =
     (if ItemType item = RuleTypeDomain then rule\<lparr>opt_Domain := opt_Domain rule @ [ItemValue item]\<rparr>
      else if ItemType item = RuleTypeDomainSuffix then rule\<lparr>opt_DomainSuffix := opt_DomainSuffix rule @ [ItemValue item]\<rparr>
      else if ItemType item = RuleTypeDomainKeyword then rule\<lparr>opt_DomainKeyword := opt_DomainKeyword rule @ [ItemValue item]\<rparr>
      else if ItemType item = RuleTypeDomainRegex then rule\<lparr>opt_DomainRegex := opt_DomainRegex rule @ [ItemValue item]\<rparr>
      else rule)"

definition Compile :: "Item list \<Rightarrow> ruleOptions" where
  "Compile code = fold compileItem code ruleOptionsZero"

definition mergeRule :: "ruleOptions \<Rightarrow> ruleOptions \<Rightarrow> ruleOptions" where
  "mergeRule subRule rule =
     rule\<lparr>opt_Domain := opt_Domain rule @ opt_Domain subRule,
          opt_DomainSuffix := opt_DomainSuffix rule @ opt_DomainSuffix subRule,
          opt_DomainKeyword := opt_DomainKeyword rule @ opt_DomainKeyword subRule,
          opt_DomainRegex := opt_DomainRegex rule @ opt_DomainRegex subRule\<rparr>"

definition Merge :: "ruleOptions list \<Rightarrow> ruleOptions" where
  "Merge rules = fold mergeRule rules ruleOptionsZero"

section \<open>Writing\<close>

definition writeString :: "(nat \<Rightarrow> bytes) \<Rightarrow> string \<Rightarrow> bytes" where
  "writeString W value = W (length value) @ str_bytes value"

definition writeItem :: "(nat \<Rightarrow> bytes) \<Rightarrow> Item \<Rightarrow> bytes" where
  "writeItem W item = ItemType item # writeString W (ItemValue item)"

fun writeCodes :: "(nat \<Rightarrow> bytes) \<Rightarrow> (string \<Rightarrow> Item list) \<Rightarrow> string list \<Rightarrow> bytes \<Rightarrow> (string \<Rightarrow> nat) \<Rightarrow> bytes \<times> (string \<Rightarrow> nat)" where
  "writeCodes W domains [] content index = (content, index)"
| "writeCodes W domains (code # keys) content index =
     writeCodes W domains keys (content @ concat (map (writeItem W) (domains code))) (index(code := length content))"

definition lookupItems :: "(string \<times> Item list) list \<Rightarrow> string \<Rightarrow> Item list" where
  "lookupItems domains code = (case map_of domains code of Some itemList \<Rightarrow> itemList | None \<Rightarrow> [])"

definition Geosite_Write :: "(nat \<Rightarrow> bytes) \<Rightarrow> (string \<times> Item list) list \<Rightarrow> bytes" where
  "Geosite_Write W domains =
     (let keys = sort (map fst domains);
          (content, index) = writeCodes W (lookupItems domains) keys [] (\<lambda>_. 0)
      in [0] @ W (length keys)
         @ concat (map (\<lambda>code. writeString W code @ W (index code) @ W (length (lookupItems domains code))) keys)
         @ content)"

section \<open>Reading\<close>

datatype geosite_error = GeositeEOF | UnknownVersion | InvalidEntry string | CodeNotExists string

definition readString :: "bytes \<Rightarrow> (string \<times> bytes) option" where
  "readString reader =
     (case read_uvarint reader of
        None \<Rightarrow> None
      | Some (n, rest) \<Rightarrow> map_option (apfst bytes_str) (split_at n rest))"

record Reader =
  readerFile :: bytes
  metadataIndex :: nat
  domainIndex :: "(string \<times> nat) list"
  domainLength :: "(string \<times> nat) list"

abbreviation MaxInt32 :: nat where
  "MaxInt32 \<equiv> 2 ^ 31 - 1"

definition readEntry :: "bytes \<Rightarrow> geosite_error + (string \<times> nat \<times> nat \<times> bytes)" where
  "readEntry reader =
     (case readString reader of
        None \<Rightarrow> Inl GeositeEOF
      | Some (code, rest1) \<Rightarrow>
     (case read_uvarint rest1 of
        None \<Rightarrow> Inl GeositeEOF
      | Some (codeIndex, rest2) \<Rightarrow>
     (case read_uvarint rest2 of
        None \<Rightarrow> Inl GeositeEOF
      | Some (codeLength, rest3) \<Rightarrow>
          if codeIndex > MaxInt32 \<or> codeLength > MaxInt32 then Inl (InvalidEntry code)
          else Inr (code, codeIndex, codeLength, rest3))))"

fun readEntries ::
  "nat \<Rightarrow> bytes \<Rightarrow> (string \<times> nat) list \<Rightarrow> (string \<times> nat) list \<Rightarrow> geosite_error + ((string \<times> nat) list \<times> (string \<times> nat) list \<times> bytes)" where
  "readEntries 0 reader indexes lengths = Inr (indexes, lengths, reader)"
| "readEntries (Suc n) reader indexes lengths =
     (case readEntry reader of
        Inl e \<Rightarrow> Inl e
      | Inr (code, codeIndex, codeLength, rest) \<Rightarrow>
          readEntries n rest (AList.update code codeIndex indexes) (AList.update code codeLength lengths))"

definition readMetadata :: "bytes \<Rightarrow> geosite_error + Reader" where
  "readMetadata file =
     (case file of
        [] \<Rightarrow> Inl GeositeEOF
      | version # rest \<Rightarrow>
          if version \<noteq> 0 then Inl UnknownVersion
          else (case read_uvarint rest of
                  None \<Rightarrow> Inl GeositeEOF
                | Some (entryLength, rest1) \<Rightarrow>
                    (case readEntries entryLength rest1 [] [] of
                       Inl e \<Rightarrow> Inl e
                     | Inr (indexes, lengths, rest2) \<Rightarrow>
                         Inr \<lparr>readerFile = file, metadataIndex = length file - length rest2,
                              domainIndex = indexes, domainLength = lengths\<rparr>)))"

definition NewReader :: "bytes \<Rightarrow> geosite_error + (Reader \<times> string list)" where
  "NewReader readSeeker =
     (case readMetadata readSeeker of Inl e \<Rightarrow> Inl e | Inr reader \<Rightarrow> Inr (reader, map fst (domainIndex reader)))"

fun readItems :: "nat \<Rightarrow> bytes \<Rightarrow> Item list option" where
  "readItems 0 reader = Some []"
| "readItems (Suc n) reader =
     (case reader of
        [] \<Rightarrow> None
      | typeByte # rest \<Rightarrow>
          (case readString rest of
             None \<Rightarrow> None
           | Some (value, rest1) \<Rightarrow> map_option ((#) \<lparr>ItemType = typeByte, ItemValue = value\<rparr>) (readItems n rest1)))"

definition Reader_Read :: "Reader \<Rightarrow> string \<Rightarrow> geosite_error + Item list" where
  "Reader_Read r code =
     (case map_of (domainIndex r) code of
        None \<Rightarrow> Inl (CodeNotExists code)
      | Some index \<Rightarrow>
          (case readItems (case map_of (domainLength r) code of Some n \<Rightarrow> n | None \<Rightarrow> 0)
                  (drop (metadataIndex r + index) (readerFile r)) of
             None \<Rightarrow> Inl GeositeEOF
           | Some itemList \<Rightarrow> Inr itemList))"

section \<open>Round trip\<close>

lemma readString_append: "varint_laws W \<Longrightarrow> length s < 2 ^ 64 \<Longrightarrow> readString (writeString W s @ rest) = Some (s, rest)"
  by (simp add: readString_def writeString_def varint_read)

lemma readItems_append:
  "varint_laws W \<Longrightarrow> \<forall>item \<in> set xs. length (ItemValue item) < 2 ^ 64 \<Longrightarrow>
   readItems (length xs) (concat (map (writeItem W) xs) @ rest) = Some xs"
  by (induction xs) (auto simp: writeItem_def readString_append)

lemma writeCodes_content: "fst (writeCodes W domains keys content index) = content @ concat (map (\<lambda>c. concat (map (writeItem W) (domains c))) keys)"
  by (induction keys arbitrary: content index) simp_all

lemma writeCodes_other: "code \<notin> set keys \<Longrightarrow> snd (writeCodes W domains keys content index) code = index code"
  by (induction keys arbitrary: content index) auto

lemma writeCodes_index:
  assumes "distinct keys" "code \<in> set keys"
  shows "snd (writeCodes W domains keys content index) code \<le> length (fst (writeCodes W domains keys content index)) \<and>
    (\<exists>rest. drop (snd (writeCodes W domains keys content index) code) (fst (writeCodes W domains keys content index)) =
      concat (map (writeItem W) (domains code)) @ rest)"
  using assms
proof (induction keys arbitrary: content index)
  case (Cons k keys)
  show ?case
  proof (cases "code = k")
    case True
    then have "snd (writeCodes W domains (k # keys) content index) code = length content"
      using Cons.prems by (simp add: writeCodes_other)
    then show ?thesis using True by (simp add: writeCodes_content)
  next
    case False
    then have "distinct keys" "code \<in> set keys" using Cons.prems by simp_all
    then show ?thesis unfolding writeCodes.simps by (rule Cons.IH)
  qed
qed simp

lemma readEntries_append:
  assumes W: "varint_laws W" and "\<forall>code \<in> set keys. length code < 2 ^ 64 \<and> index code \<le> MaxInt32 \<and> sz code \<le> MaxInt32"
  shows "readEntries (length keys) (concat (map (\<lambda>code. writeString W code @ W (index code) @ W (sz code)) keys) @ rest) ix ls =
    Inr (fold (\<lambda>c. AList.update c (index c)) keys ix, fold (\<lambda>c. AList.update c (sz c)) keys ls, rest)"
  using assms(2)
proof (induction keys arbitrary: ix ls)
  case (Cons k keys)
  then have "index k < 2 ^ 64" "sz k < 2 ^ 64" "index k \<le> MaxInt32" "sz k \<le> MaxInt32" "length k < 2 ^ 64"
    by auto
  then have "readEntry (writeString W k @ W (index k) @ W (sz k) @ r) = Inr (k, index k, sz k, r)" for r
    by (simp add: readEntry_def readString_append [OF W] varint_read [OF W])
  then show ?case using Cons by simp
qed simp

lemma map_of_fold_update:
  "map_of (fold (\<lambda>c. AList.update c (f c)) keys xs) k = (if k \<in> set keys then Some (f k) else map_of xs k)"
  by (induction keys arbitrary: xs) (auto simp: update_conv')

lemma fst_fold_update: "set (map fst (fold (\<lambda>c. AList.update c (f c)) keys xs)) = set keys \<union> set (map fst xs)"
  by (induction keys arbitrary: xs) (auto simp: dom_update)

lemma member_length: "x \<in> set xs \<Longrightarrow> length (f x) \<le> length (concat (map f xs))"
  by (induction xs) auto

lemma concat_map_length: "\<forall>x \<in> set xs. f x \<noteq> [] \<Longrightarrow> length xs \<le> length (concat (map f xs))"
proof (induction xs)
  case (Cons x xs)
  then have "1 \<le> length (f x)" by (cases "f x") auto
  then show ?case using Cons by simp
qed simp

lemma items_length:
  "length xs \<le> length (concat (map (writeItem W) xs))"
  "item \<in> set xs \<Longrightarrow> length (ItemValue item) \<le> length (concat (map (writeItem W) xs))"
  using concat_map_length [of xs "writeItem W"] member_length [of item xs "writeItem W"]
  by (auto simp: writeItem_def writeString_def)

text \<open>The layout of a written file: the header, an entry for every code, and the items.\<close>

lemma geosite_layout:
  assumes W: "varint_laws W" and "distinct (map fst domains)" "length (Geosite_Write W domains) \<le> MaxInt32"
  obtains keys look index content where
    "Geosite_Write W domains =
       0 # W (length keys) @ concat (map (\<lambda>code. writeString W code @ W (index code) @ W (length (look code))) keys) @ content"
    "set keys = fst ` set domains" "length keys < 2 ^ 64"
    "\<And>code. code \<in> set keys \<Longrightarrow> map_of domains code = Some (look code)"
    "\<And>code. code \<in> set keys \<Longrightarrow> \<exists>rest. drop (index code) content = concat (map (writeItem W) (look code)) @ rest"
    "\<And>code. code \<in> set keys \<Longrightarrow> length (concat (map (writeItem W) (look code))) \<le> MaxInt32"
    "\<And>code. code \<in> set keys \<Longrightarrow> index code \<le> MaxInt32 \<and> length code < 2 ^ 64 \<and> length (look code) \<le> MaxInt32"
proof -
  define keys where "keys = sort (map fst domains)"
  define look where "look = lookupItems domains"
  define content where "content = fst (writeCodes W look keys [] (\<lambda>_. 0))"
  define index where "index = snd (writeCodes W look keys [] (\<lambda>_. 0))"
  define entry where "entry = (\<lambda>code. writeString W code @ W (index code) @ W (length (look code)))"
  have written: "Geosite_Write W domains = 0 # W (length keys) @ concat (map entry keys) @ content"
    by (simp add: Geosite_Write_def Let_def keys_def look_def content_def index_def entry_def split: prod.splits)
  have keys: "distinct keys" "set keys = fst ` set domains" using assms(2) by (simp_all add: keys_def)
  have look: "map_of domains code = Some (look code)" if "code \<in> set keys" for code
    using that keys(2) by (auto simp: look_def lookupItems_def map_of_eq_None_iff split: option.splits)
  have index: "index code \<le> length content" "\<exists>rest. drop (index code) content = concat (map (writeItem W) (look code)) @ rest"
    if "code \<in> set keys" for code
    using writeCodes_index [OF keys(1) that, of W look "[]" "\<lambda>_. 0"] by (simp_all add: index_def content_def)
  have items: "length (concat (map (writeItem W) (look code))) \<le> MaxInt32" if key: "code \<in> set keys" for code
  proof -
    obtain rest where r: "drop (index code) content = concat (map (writeItem W) (look code)) @ rest"
      using index(2) [OF key] by blast
    have "length (concat (map (writeItem W) (look code))) \<le> length (drop (index code) content)" unfolding r by simp
    then show ?thesis using assms(3) by (simp add: written)
  qed
  have small: "index code \<le> MaxInt32 \<and> length code < 2 ^ 64 \<and> length (look code) \<le> MaxInt32" if "code \<in> set keys" for code
    using index(1) [OF that] member_length [OF that, of entry] items [OF that] items_length(1) [of "look code" W] assms(3)
    by (simp add: written entry_def writeString_def)
  have "\<forall>code \<in> set keys. entry code \<noteq> []"
    using small varint_nonempty [OF W] by (fastforce simp: entry_def)
  from concat_map_length [OF this] have "length keys < 2 ^ 64" using assms(3) by (simp add: written)
  then show thesis by (rule that [OF written [unfolded entry_def] keys(2) _ look index(2) items small])
qed

text \<open>
  C36. Every geosite file that is written can be read, as long as it is shorter
  than \<open>2^31\<close> bytes: its codes are those that were written, each code leads to
  its items in their order, and any other code is reported as missing.
\<close>

theorem geosite_roundtrip:
  assumes W: "varint_laws W" and "distinct (map fst domains)" "length (Geosite_Write W domains) \<le> MaxInt32"
  shows "\<exists>r codes. NewReader (Geosite_Write W domains) = Inr (r, codes) \<and> set codes = fst ` set domains \<and>
    (\<forall>code. Reader_Read r code = (case map_of domains code of Some xs \<Rightarrow> Inr xs | None \<Rightarrow> Inl (CodeNotExists code)))"
proof -
  obtain keys look index content where written: "Geosite_Write W domains =
       0 # W (length keys) @ concat (map (\<lambda>code. writeString W code @ W (index code) @ W (length (look code))) keys) @ content"
    and keys: "set keys = fst ` set domains" "length keys < 2 ^ 64"
    and look: "\<And>code. code \<in> set keys \<Longrightarrow> map_of domains code = Some (look code)"
    and index: "\<And>code. code \<in> set keys \<Longrightarrow> \<exists>rest. drop (index code) content = concat (map (writeItem W) (look code)) @ rest"
    and items: "\<And>code. code \<in> set keys \<Longrightarrow> length (concat (map (writeItem W) (look code))) \<le> MaxInt32"
    and small: "\<And>code. code \<in> set keys \<Longrightarrow> index code \<le> MaxInt32 \<and> length code < 2 ^ 64 \<and> length (look code) \<le> MaxInt32"
    by (rule geosite_layout [OF assms]) (rule that)
  let ?ix = "fold (\<lambda>c. AList.update c (index c)) keys []" and ?ls = "fold (\<lambda>c. AList.update c (length (look c))) keys []"
  have "readEntries (length keys) (concat (map (\<lambda>code. writeString W code @ W (index code) @ W (length (look code))) keys) @ content) [] []
      = Inr (?ix, ?ls, content)"
    by (rule readEntries_append [OF W]) (use small in auto)
  then have reader: "readMetadata (Geosite_Write W domains) = Inr \<lparr>readerFile = Geosite_Write W domains,
      metadataIndex = length (Geosite_Write W domains) - length content, domainIndex = ?ix, domainLength = ?ls\<rparr>" (is "_ = Inr ?r")
    using keys(2) by (simp add: readMetadata_def written varint_read [OF W])
  have "Reader_Read ?r code = (case map_of domains code of Some xs \<Rightarrow> Inr xs | None \<Rightarrow> Inl (CodeNotExists code))" for code
  proof (cases "code \<in> set keys")
    case True
    have "drop (metadataIndex ?r + index code) (Geosite_Write W domains) = drop (index code) content"
      by (simp add: written add.commute flip: drop_drop)
    moreover obtain rest where "drop (index code) content = concat (map (writeItem W) (look code)) @ rest" using index [OF True] by blast
    moreover have "readItems (length (look code)) (concat (map (writeItem W) (look code)) @ rest) = Some (look code)"
      by (rule readItems_append [OF W]) (use items [OF True] items_length(2) [where W = W] in \<open>fastforce\<close>)
    ultimately show ?thesis using True look by (simp add: Reader_Read_def map_of_fold_update)
  next
    case False
    then have "map_of domains code = None" using keys(1) by (simp add: map_of_eq_None_iff)
    then show ?thesis using False by (simp add: Reader_Read_def map_of_fold_update)
  qed
  then show ?thesis using reader keys(1) fst_fold_update [of index keys "[]"] by (auto simp: NewReader_def)
qed

text \<open>
  Merging rules compiled from lists of items gives the rule compiled from
  the lists joined together.
\<close>

lemma Merge_Compile: "Merge (map Compile codes) = Compile (concat codes)"
proof -
  have shift: "fold compileItem xs rule = mergeRule (Compile xs) rule" for xs rule
  proof (induction xs rule: rev_induct)
    case Nil
    then show ?case by (simp add: Compile_def mergeRule_def ruleOptionsZero_def)
  next
    case (snoc x xs)
    have "Compile (xs @ [x]) = compileItem x (Compile xs)" by (simp add: Compile_def)
    then show ?case using snoc by (auto simp: compileItem_def mergeRule_def)
  qed
  have "fold mergeRule (map Compile ls) rule = fold compileItem (concat ls) rule" for ls rule
    by (induction ls arbitrary: rule) (simp_all add: shift)
  then show ?thesis by (simp add: Merge_def Compile_def)
qed

theorem geosite_roundtrip_witness:
  "\<exists>r codes. NewReader (Geosite_Write uvarint [(''us'', [\<lparr>ItemType = 1, ItemValue = ''a.us''\<rparr>, \<lparr>ItemType = 0, ItemValue = ''b''\<rparr>])]) = Inr (r, codes) \<and>
     Reader_Read r ''us'' = Inr [\<lparr>ItemType = 1, ItemValue = ''a.us''\<rparr>, \<lparr>ItemType = 0, ItemValue = ''b''\<rparr>] \<and>
     Reader_Read r ''de'' = Inl (CodeNotExists ''de'')"
proof -
  let ?d = "[(''us'', [\<lparr>ItemType = 1, ItemValue = ''a.us''\<rparr>, \<lparr>ItemType = 0, ItemValue = ''b''\<rparr>])]"
  have "length (Geosite_Write uvarint ?d) \<le> 100"
    by (simp add: Geosite_Write_def writeString_def writeItem_def lookupItems_def uvarint_small)
  then have "length (Geosite_Write uvarint ?d) \<le> MaxInt32" by simp
  moreover have "distinct (map fst ?d)" by simp
  ultimately obtain r codes where r: "NewReader (Geosite_Write uvarint ?d) = Inr (r, codes) \<and> set codes = fst ` set ?d \<and>
      (\<forall>code. Reader_Read r code = (case map_of ?d code of Some xs \<Rightarrow> Inr xs | None \<Rightarrow> Inl (CodeNotExists code)))"
    using geosite_roundtrip [OF uvarint_laws] by blast
  then have "Reader_Read r ''us'' = (case map_of ?d ''us'' of Some xs \<Rightarrow> Inr xs | None \<Rightarrow> Inl (CodeNotExists ''us''))"
    "Reader_Read r ''de'' = (case map_of ?d ''de'' of Some xs \<Rightarrow> Inr xs | None \<Rightarrow> Inl (CodeNotExists ''de''))" by blast+
  then have "Reader_Read r ''us'' = Inr [\<lparr>ItemType = 1, ItemValue = ''a.us''\<rparr>, \<lparr>ItemType = 0, ItemValue = ''b''\<rparr>]"
    "Reader_Read r ''de'' = Inl (CodeNotExists ''de'')" by simp_all
  then show ?thesis using r by blast
qed

end
