(* ===== verification/TLSFragment.thy ===== *)
theory TLSFragment
  imports GoStd
begin

text \<open>
  \<^verbatim>\<open>common/tlsfragment\<close>: finding the server name in a TLS ClientHello, and splitting
  the first write of a connection inside it, into packets, into TLS records,
  or both. The list of public suffixes and the random numbers are parameters.
\<close>

unbundle bit_operations_syntax

section \<open>The server name of a ClientHello\<close>

abbreviation recordLayerHeaderLen :: nat where "recordLayerHeaderLen \<equiv> 5"
abbreviation handshakeHeaderLen :: nat where "handshakeHeaderLen \<equiv> 6"
abbreviation randomDataLen :: nat where "randomDataLen \<equiv> 32"
abbreviation sessionIDHeaderLen :: nat where "sessionIDHeaderLen \<equiv> 1"
abbreviation cipherSuiteHeaderLen :: nat where "cipherSuiteHeaderLen \<equiv> 2"
abbreviation compressMethodHeaderLen :: nat where "compressMethodHeaderLen \<equiv> 1"
abbreviation extensionsHeaderLen :: nat where "extensionsHeaderLen \<equiv> 2"
abbreviation extensionHeaderLen :: nat where "extensionHeaderLen \<equiv> 4"
abbreviation sniExtensionHeaderLen :: nat where "sniExtensionHeaderLen \<equiv> 5"
abbreviation contentType :: u8 where "contentType \<equiv> 22"
abbreviation handshakeType :: u8 where "handshakeType \<equiv> 1"
abbreviation sniExtensionType :: u16 where "sniExtensionType \<equiv> 0"
abbreviation sniNameDNSHostnameType :: u8 where "sniNameDNSHostnameType \<equiv> 0"
abbreviation tlsVersionBitmask :: u16 where "tlsVersionBitmask \<equiv> 0xFFFC"
abbreviation tls13 :: u16 where "tls13 \<equiv> 0x0304"

record MyServerName =
  NameIndex :: nat
  NameLength :: nat
  ServerName :: string
  ExtensionsListLengthIndex :: nat

text \<open>Two bytes at an index as a 16-bit number.\<close>

definition u16_at :: "bytes \<Rightarrow> nat \<Rightarrow> u16" where
  "u16_at bs i = word_of_nat (be_uint [bs ! i, bs ! Suc i])"

text \<open>
  The loop over the extensions. The step \<^verbatim>\<open>4+exLen\<close> is taken in 16 bits, the
  running index is not. The outer \<open>None\<close> is a loop that does not end.
\<close>

partial_function (option) extensionLoop :: "bytes \<Rightarrow> nat \<Rightarrow> MyServerName option option" where
  "extensionLoop exs currentIndex =
     (if exs = [] then Some None
      else if length exs < extensionHeaderLen then Some None
      else if length exs < extensionHeaderLen + unat (u16_at exs 2) then Some None
      else if u16_at exs 0 = sniExtensionType then
        (let sex = take (unat (u16_at exs 2)) (drop extensionHeaderLen exs) in
         if length sex < sniExtensionHeaderLen then Some None
         else if sex ! 2 \<noteq> sniNameDNSHostnameType then Some None
         else Some (Some \<lparr>NameIndex = currentIndex + extensionHeaderLen + sniExtensionHeaderLen,
                          NameLength = unat (u16_at sex 3), ServerName = bytes_str (drop sniExtensionHeaderLen sex),
                          ExtensionsListLengthIndex = 0\<rparr>))
      else extensionLoop (drop (unat (4 + u16_at exs 2)) exs) (currentIndex + (4 + unat (u16_at exs 2))))"

declare extensionLoop.simps [code]

definition indexTLSServerNameFromExtensions :: "bytes \<Rightarrow> MyServerName option option" where
  "indexTLSServerNameFromExtensions exs =
     (if length exs = 0 then Some None
      else if length exs < extensionsHeaderLen then Some None
      else if length (drop extensionsHeaderLen exs) < unat (u16_at exs 0) then Some None
      else extensionLoop (drop extensionsHeaderLen exs) extensionsHeaderLen)"

definition indexTLSServerNameFromHandshake :: "bytes \<Rightarrow> MyServerName option option" where
  "indexTLSServerNameFromHandshake handshake =
     (if length handshake < handshakeHeaderLen + randomDataLen + sessionIDHeaderLen then Some None
      else if handshake ! 0 \<noteq> handshakeType then Some None
      else if length (drop 4 handshake) \<noteq> be_uint (take 3 (drop 1 handshake)) then Some None
      else if u16_at handshake 4 AND tlsVersionBitmask \<noteq> 0x0300 \<and> u16_at handshake 4 \<noteq> tls13 then Some None
      else
        (let currentIndex = handshakeHeaderLen + randomDataLen + sessionIDHeaderLen + unat (handshake ! 38) in
         if length handshake < currentIndex then Some None
         else
           (let cipherSuites = drop currentIndex handshake in
            if length cipherSuites < cipherSuiteHeaderLen then Some None
            else
              (let csLen = unat (u16_at cipherSuites 0) in
               if length cipherSuites < cipherSuiteHeaderLen + csLen + compressMethodHeaderLen then Some None
               else
                 (let compressMethodLen = unat (cipherSuites ! (cipherSuiteHeaderLen + csLen));
                      currentIndex = currentIndex + (cipherSuiteHeaderLen + csLen + compressMethodHeaderLen + compressMethodLen) in
                  if length handshake < currentIndex then Some None
                  else map_option (map_option (\<lambda>n. n\<lparr>NameIndex := NameIndex n + currentIndex,
                                                      ExtensionsListLengthIndex := currentIndex\<rparr>))
                         (indexTLSServerNameFromExtensions (drop currentIndex handshake)))))))"

definition IndexTLSServerName :: "bytes \<Rightarrow> MyServerName option option" where
  "IndexTLSServerName payload =
     (if length payload < recordLayerHeaderLen \<or> payload ! 0 \<noteq> contentType then Some None
      else if length payload < recordLayerHeaderLen + unat (u16_at payload 3) then Some None
      else map_option (map_option (\<lambda>n. n\<lparr>NameIndex := NameIndex n + recordLayerHeaderLen,
                                          ExtensionsListLengthIndex := ExtensionsListLengthIndex n + recordLayerHeaderLen\<rparr>))
             (indexTLSServerNameFromHandshake (drop recordLayerHeaderLen payload)))"

section \<open>Splitting the first write\<close>

text \<open>
  \<open>intn i n\<close> is the \<open>i\<close>-th call of \<^verbatim>\<open>rand.Intn\<close>, which panics for zero: a name with
  an empty label gives \<open>None\<close>.
\<close>

fun splitIndexesFrom :: "(nat \<Rightarrow> nat \<Rightarrow> nat) \<Rightarrow> nat \<Rightarrow> nat \<Rightarrow> string list \<Rightarrow> nat list option" where
  "splitIndexesFrom intn i currentIndex [] = Some []"
| "splitIndexesFrom intn i currentIndex (split # splits) =
     (if length split = 0 then None
      else map_option ((#) (currentIndex + intn i (length split)))
             (splitIndexesFrom intn (Suc i) (currentIndex + length split + (if splits = [] then 0 else 1)) splits))"

definition countChar :: "char \<Rightarrow> string \<Rightarrow> nat" where
  "countChar c s = length (filter (\<lambda>x. x = c) s)"

definition nameSplits :: "(string \<Rightarrow> string) \<Rightarrow> MyServerName \<Rightarrow> string list \<times> nat" where
  "nameSplits publicSuffix name =
     (let splits = StrSplit CHR ''.'' (ServerName name);
          splits = (if publicSuffix (ServerName name) \<noteq> []
                    then take (length splits - countChar CHR ''.'' (ServerName name)) splits else splits)
      in if length splits > 1 \<and> splits ! 0 = ''...'' then (drop 1 splits, NameIndex name + (length (splits ! 0) + 1))
         else (splits, NameIndex name))"

fun slices :: "bytes \<Rightarrow> nat \<Rightarrow> nat list \<Rightarrow> bytes list" where
  "slices b from [] = [drop from b]"
| "slices b from (i # is) = take (i - from) (drop from b) # slices b i is"

definition recordOf :: "bytes \<Rightarrow> bytes \<Rightarrow> bytes" where
  "recordOf b payload = take 3 b @ be_bytes 2 (length payload) @ payload"

text \<open>
  The writes to the connection below, in order. \<open>None\<close> is a panic: a random
  number below zero labels, or slices out of their order.
\<close>

definition splitWrites :: "(nat \<Rightarrow> nat \<Rightarrow> nat) \<Rightarrow> (string \<Rightarrow> string) \<Rightarrow> bool \<Rightarrow> bool \<Rightarrow> MyServerName \<Rightarrow> bytes \<Rightarrow> bytes list option" where
  "splitWrites intn publicSuffix splitPacket splitRecord name b =
     (let (splits, currentIndex) = nameSplits publicSuffix name in
      case splitIndexesFrom intn 0 currentIndex splits of
        None \<Rightarrow> None
      | Some splitIndexes \<Rightarrow>
          if splitIndexes = [] \<or> \<not> sorted (splitIndexes @ [length b]) \<or> splitRecord \<and> hd splitIndexes < recordLayerHeaderLen then None
          else
            (let payloads = slices b (if splitRecord then recordLayerHeaderLen else 0) splitIndexes in
             if splitRecord \<and> splitPacket then Some (map (recordOf b) payloads)
             else if splitPacket then Some payloads
             else if splitRecord then Some [concat (map (recordOf b) payloads)]
             else Some []))"

record fragmentConn =
  firstPacketWritten :: bool
  splitPacket :: bool
  splitRecord :: bool

text \<open>
  \<^verbatim>\<open>Write\<close> on a connection whose own writes succeed: what it writes there. The
  outer \<open>None\<close> is a call that does not return, by a panic or an endless loop.
\<close>

definition Conn_Write :: "(nat \<Rightarrow> nat \<Rightarrow> nat) \<Rightarrow> (string \<Rightarrow> string) \<Rightarrow> fragmentConn \<Rightarrow> bytes \<Rightarrow> (bytes list \<times> fragmentConn) option" where
  "Conn_Write intn publicSuffix c b =
     (if \<not> firstPacketWritten c \<and> length b > 0 then
        (case IndexTLSServerName b of
           None \<Rightarrow> None
         | Some None \<Rightarrow> Some ([b], c\<lparr>firstPacketWritten := True\<rparr>)
         | Some (Some name) \<Rightarrow>
             map_option (\<lambda>ws. (ws, c\<lparr>firstPacketWritten := True\<rparr>))
               (splitWrites intn publicSuffix (splitPacket c) (splitRecord c) name b))
      else Some ([b], c))"

section \<open>The loop over extensions\<close>

lemma extension_step: "length exs < 65536 \<Longrightarrow> 4 + unat l \<le> length exs \<Longrightarrow> unat (4 + l) = 4 + unat l" for l :: u16
  using unat_add_lem [of 4 l] by simp

lemma extensionLoop_returns: "length exs < 65536 \<Longrightarrow> \<exists>r. extensionLoop exs i = Some r"
proof (induction "length exs" arbitrary: exs i rule: less_induct)
  case less
  have "length (drop (unat (4 + u16_at exs 2)) exs) < length exs" if "\<not> length exs < 4 + unat (u16_at exs 2)"
    using that extension_step [OF less.prems, of "u16_at exs 2"] by simp
  then show ?case
    using less by (subst extensionLoop.simps) (auto simp: Let_def)
qed

text \<open>Where the name is, as long as the steps do not wrap around.\<close>

lemma extensionLoop_name:
  assumes "length whole < 65536" "exs = drop i whole" "i \<le> length whole" "extensionLoop exs i = Some (Some n)"
  shows "i < NameIndex n \<and> NameIndex n + length (ServerName n) \<le> length whole \<and>
    str_bytes (ServerName n) = take (length (ServerName n)) (drop (NameIndex n) whole)"
  using assms(2-)
proof (induction "length exs" arbitrary: exs i rule: less_induct)
  case less
  let ?l = "u16_at exs 2"
  have long: "\<not> length exs < 4" "\<not> length exs < 4 + unat ?l"
    using less.prems(3) by (subst (asm) extensionLoop.simps; simp split: if_splits)+
  have small: "length exs < 65536" using assms(1) less.prems(1) by simp
  have step: "unat (4 + ?l) = 4 + unat ?l" using extension_step [OF small] long(2) by simp
  show ?case
  proof (cases "u16_at exs 0 = sniExtensionType")
    case True
    let ?sex = "take (unat ?l) (drop 4 exs)"
    have "\<not> length ?sex < 5" "n = \<lparr>NameIndex = i + 4 + 5, NameLength = unat (u16_at ?sex 3), ServerName = bytes_str (drop 5 ?sex),
         ExtensionsListLengthIndex = 0\<rparr>"
      using less.prems(3) True long
      by (subst (asm) extensionLoop.simps; simp add: Let_def split: if_splits)+
    then show ?thesis
      using long(2) less.prems(1,2) by (auto simp: bytes_str_def drop_take ac_simps str_bytes_str [unfolded bytes_str_def])
  next
    case False
    then have "extensionLoop (drop (4 + unat ?l) exs) (i + (4 + unat ?l)) = Some (Some n)"
      using less.prems(3) long step by (subst (asm) extensionLoop.simps) (auto split: if_splits)
    moreover have "length (drop (4 + unat ?l) exs) < length exs" "i + (4 + unat ?l) \<le> length whole"
      using less.prems(1,2) long by auto
    moreover have "drop (4 + unat ?l) exs = drop (i + (4 + unat ?l)) whole" using less.prems(1) by (simp add: add.commute)
    ultimately have "i + (4 + unat ?l) < NameIndex n \<and> NameIndex n + length (ServerName n) \<le> length whole \<and>
        str_bytes (ServerName n) = take (length (ServerName n)) (drop (NameIndex n) whole)"
      by (intro less.hyps)
    then show ?thesis by simp
  qed
qed

text \<open>
  C33. On any payload shorter than \<open>2^16\<close> bytes the search for the server name
  ends.
\<close>

theorem IndexTLSServerName_returns:
  assumes "length payload < 65536"
  shows "\<exists>r. IndexTLSServerName payload = Some r"
proof -
  have "\<exists>r. indexTLSServerNameFromExtensions exs = Some r" if "length exs < 65536" for exs
    using extensionLoop_returns [of "drop extensionsHeaderLen exs" extensionsHeaderLen] that
    by (auto simp: indexTLSServerNameFromExtensions_def)
  then have "\<exists>r. indexTLSServerNameFromHandshake hs = Some r" if "length hs < 65536" for hs
    using that by (auto simp: indexTLSServerNameFromHandshake_def Let_def)
  then show ?thesis using assms by (auto simp: IndexTLSServerName_def)
qed

theorem IndexTLSServerName_returns_witness: "\<exists>r. IndexTLSServerName [22, 3, 1, 0, 1, 1] = Some r"
  using IndexTLSServerName_returns [of "[22, 3, 1, 0, 1, 1]"] by simp

text \<open>
  C34. Above that length it may not: an extension of unknown type with the
  length 65532 makes the loop step by \<^verbatim>\<open>4+65532\<close>, which is zero in 16 bits, and
  so look at the same extension for ever.
\<close>

theorem extensionLoop_endless:
  assumes "length rest \<ge> 65532"
  shows "extensionLoop ([0, 1, 0xFF, 0xFC] @ rest) i = None"
proof -
  let ?exs = "[0, 1, 0xFF, 0xFC] @ rest"
  have u: "u16_at ?exs 0 = 1" "u16_at ?exs 2 = 65532" by (simp_all add: u16_at_def be_uint_def)
  have "exs \<noteq> ?exs" if "extensionLoop exs j = Some r" for exs j r
  proof (rule extensionLoop.raw_induct [of "\<lambda>exs j r. exs \<noteq> ?exs", OF _ that], rule notI)
    fix loop exs j r
    assume IH: "\<And>exs j r. loop exs j = Some r \<Longrightarrow> exs \<noteq> ?exs" and exs: "exs = ?exs"
      and body: "(if exs = [] then Some None
        else if length exs < extensionHeaderLen then Some None
        else if length exs < extensionHeaderLen + unat (u16_at exs 2) then Some None
        else if u16_at exs 0 = sniExtensionType then
          (let sex = take (unat (u16_at exs 2)) (drop extensionHeaderLen exs) in
           if length sex < sniExtensionHeaderLen then Some None
           else if sex ! 2 \<noteq> sniNameDNSHostnameType then Some None
           else Some (Some \<lparr>NameIndex = j + extensionHeaderLen + sniExtensionHeaderLen,
                            NameLength = unat (u16_at sex 3), ServerName = bytes_str (drop sniExtensionHeaderLen sex),
                            ExtensionsListLengthIndex = 0\<rparr>))
        else loop (drop (unat (4 + u16_at exs 2)) exs) (j + (4 + unat (u16_at exs 2)))) = Some r"
    have "loop ?exs (j + (4 + unat (u16_at exs 2))) = Some r"
      using body assms u by (simp add: exs)
    then show False using IH by blast
  qed
  then show ?thesis by (cases "extensionLoop ?exs i") auto
qed

theorem extensionLoop_endless_witness: "extensionLoop ([0, 1, 0xFF, 0xFC] @ replicate 65532 0) 2 = None"
  using extensionLoop_endless [of "replicate 65532 0" 2] by simp

text \<open>
  C32. On a payload shorter than \<open>2^16\<close> bytes the index of the server name that
  is found points at it: the bytes there are the name.
\<close>

theorem IndexTLSServerName_points:
  assumes "length payload < 65536" "IndexTLSServerName payload = Some (Some n)"
  shows "recordLayerHeaderLen < NameIndex n \<and> NameIndex n + length (ServerName n) \<le> length payload \<and>
    str_bytes (ServerName n) = take (length (ServerName n)) (drop (NameIndex n) payload)"
proof -
  have ext: "0 < NameIndex m \<and> NameIndex m + length (ServerName m) \<le> length exs \<and>
      str_bytes (ServerName m) = take (length (ServerName m)) (drop (NameIndex m) exs)"
    if "length exs < 65536" "indexTLSServerNameFromExtensions exs = Some (Some m)" for exs m
    using extensionLoop_name [of exs "drop extensionsHeaderLen exs" extensionsHeaderLen m] that
    by (auto simp: indexTLSServerNameFromExtensions_def split: if_splits)
  have hs: "0 < NameIndex m \<and> NameIndex m + length (ServerName m) \<le> length hs \<and>
      str_bytes (ServerName m) = take (length (ServerName m)) (drop (NameIndex m) hs)"
    if "length hs < 65536" "indexTLSServerNameFromHandshake hs = Some (Some m)" for hs m
  proof -
    note found = that(2)
    obtain k j where k: "indexTLSServerNameFromExtensions (drop k hs) = Some (Some j)" "k \<le> length hs"
      "m = j\<lparr>NameIndex := NameIndex j + k, ExtensionsListLengthIndex := k\<rparr>"
      using found by (auto simp: indexTLSServerNameFromHandshake_def Let_def not_less split: if_splits)
    have "length (drop k hs) < 65536" using that(1) by simp
    then show ?thesis using ext [OF _ k(1)] k(2,3) by (auto simp: add.commute)
  qed
  obtain j where "indexTLSServerNameFromHandshake (drop 5 payload) = Some (Some j)"
    "n = j\<lparr>NameIndex := NameIndex j + 5, ExtensionsListLengthIndex := ExtensionsListLengthIndex j + 5\<rparr>" "5 \<le> length payload"
    using assms(2) by (auto simp: IndexTLSServerName_def split: if_splits)
  moreover have "length (drop 5 payload) < 65536" using assms(1) by simp
  ultimately show ?thesis using hs [of "drop 5 payload" j] by (auto simp: add.commute)
qed

text \<open>A ClientHello for \<open>a.b\<close>.\<close>

definition exampleHello :: bytes where
  "exampleHello = [22, 3, 1, 0, 59, 1, 0, 0, 55, 3, 3] @ replicate 32 0 @ [0, 0, 2, 19, 1, 1, 0, 0, 12, 0, 0, 0, 8, 0, 6, 0, 0, 3]
     @ str_bytes ''a.b''"

definition exampleName :: MyServerName where
  "exampleName = \<lparr>NameIndex = 61, NameLength = 3, ServerName = ''a.b'', ExtensionsListLengthIndex = 50\<rparr>"

lemma exampleHello_name: "IndexTLSServerName exampleHello = Some (Some exampleName)"
  by code_simp

theorem IndexTLSServerName_points_witness:
  "IndexTLSServerName exampleHello = Some (Some exampleName) \<and>
   str_bytes (ServerName exampleName) = take (length (ServerName exampleName)) (drop (NameIndex exampleName) exampleHello)"
proof -
  have "length exampleHello < 65536" by (simp add: exampleHello_def)
  then show ?thesis using IndexTLSServerName_points [OF _ exampleHello_name] exampleHello_name by blast
qed

section \<open>What is written\<close>

lemma concat_slices: "sorted (from # is @ [length b]) \<Longrightarrow> concat (slices b from is) = drop from b"
proof (induction "is" arbitrary: "from")
  case (Cons i "is")
  then have "concat (slices b i is) = drop i b" "from \<le> i" by (auto intro: Cons.IH)
  moreover have "take (i - from) (drop from b) @ drop i b = drop from b"
    using \<open>from \<le> i\<close> append_take_drop_id [of "i - from" "drop from b"] by simp
  ultimately show ?case by simp
qed simp

lemma StrSplit_parts: "w \<in> set (StrSplit c s) \<Longrightarrow> c \<notin> set w"
proof (induction c s arbitrary: w rule: StrSplit.induct)
  case (2 c x s)
  then show ?case by (cases "StrSplit c s") (auto split: if_splits)
qed simp

lemma length_StrSplit: "length (StrSplit c s) = Suc (countChar c s)"
proof (induction c s rule: StrSplit.induct)
  case (2 c x s)
  then show ?case by (cases "StrSplit c s") (auto simp: countChar_def)
qed (simp add: countChar_def)

lemma StrJoin_take: "length (StrJoin (take k ws) sep) \<le> length (StrJoin ws sep)"
proof (induction ws arbitrary: k)
  case (Cons w ws)
  then show ?case
  proof (cases k)
    case (Suc j)
    then show ?thesis
      using Cons [of j] by (cases ws; cases j) auto
  qed simp
qed simp

lemma nameSplits_eq:
  "nameSplits publicSuffix n =
     (if publicSuffix (ServerName n) \<noteq> [] then [hd (StrSplit CHR ''.'' (ServerName n))] else StrSplit CHR ''.'' (ServerName n), NameIndex n)"
proof -
  let ?ws = "StrSplit CHR ''.'' (ServerName n)"
  have "take (length ?ws - countChar CHR ''.'' (ServerName n)) ?ws = [hd ?ws]"
    using length_StrSplit [of "CHR ''.''" "ServerName n"] by (cases ?ws) simp_all
  moreover have "''...'' \<notin> set ?ws" using StrSplit_parts [of "''...''" "CHR ''.''"] by auto
  then have "\<not> (length ?ws > 1 \<and> ?ws ! 0 = ''...'')" using nth_mem [of 0 ?ws] by (metis length_greater_0_conv StrSplit_nonempty)
  ultimately show ?thesis by (simp add: nameSplits_def Let_def)
qed

lemma splits_length:
  "fst (nameSplits publicSuffix n) \<noteq> [] \<and> length (StrJoin (fst (nameSplits publicSuffix n)) ''.'') \<le> length (ServerName n)"
proof -
  let ?ws = "StrSplit CHR ''.'' (ServerName n)"
  have "[hd ?ws] = take 1 ?ws" by (cases ?ws) simp_all
  then show ?thesis
    using StrJoin_take [of 1 ?ws "''.''"] by (simp add: nameSplits_eq StrJoin_StrSplit)
qed

lemma splitIndexesFrom_None: "splitIndexesFrom intn i k splits = None \<longleftrightarrow> [] \<in> set splits"
  by (induction intn i k splits rule: splitIndexesFrom.induct) auto

lemma splitIndexesFrom_range:
  assumes "\<forall>i n. 0 < n \<longrightarrow> intn i n < n" "splitIndexesFrom intn i k splits = Some is"
  shows "length is = length splits \<and> sorted is \<and> (\<forall>x \<in> set is. k \<le> x \<and> x < k + length (StrJoin splits ''.''))"
  using assms(2)
proof (induction splits arbitrary: i k "is")
  case (Cons w ws)
  then obtain js where js: "w \<noteq> []" "is = (k + intn i (length w)) # js"
    "splitIndexesFrom intn (Suc i) (k + length w + (if ws = [] then 0 else 1)) ws = Some js"
    by (auto split: if_splits)
  have "intn i (length w) < length w" using assms(1) js(1) by simp
  then show ?case using Cons.IH [OF js(3)] js(2) by (cases ws) fastforce+
qed simp

lemma splitWrites_empty:
  "[] \<in> set (fst (nameSplits publicSuffix n)) \<Longrightarrow> splitWrites intn publicSuffix packet rec n b = None"
  by (cases "nameSplits publicSuffix n") (simp add: splitWrites_def splitIndexesFrom_None [THEN iffD2])

text \<open>
  The first write of a payload whose server name is found: payloads that make
  up what was to be written, in packets, in records with the header of the
  first, or both.
\<close>

lemma splitWrites_shape:
  assumes intn: "\<forall>i n. 0 < n \<longrightarrow> intn i n < n" and b: "length b < 65536" and name: "IndexTLSServerName b = Some (Some n)"
    and labels: "[] \<notin> set (fst (nameSplits publicSuffix n))"
  obtains payloads where "length payloads = Suc (length (fst (nameSplits publicSuffix n)))"
    "concat payloads = drop (if rec then recordLayerHeaderLen else 0) b"
    "splitWrites intn publicSuffix packet rec n b = Some
       (if rec \<and> packet then map (recordOf b) payloads else if packet then payloads
        else if rec then [concat (map (recordOf b) payloads)] else [])"
proof -
  let ?ws = "fst (nameSplits publicSuffix n)" and ?from = "if rec then recordLayerHeaderLen else 0"
  obtain "is" where ix: "splitIndexesFrom intn 0 (NameIndex n) ?ws = Some is"
    using labels splitIndexesFrom_None [of intn 0 "NameIndex n" ?ws] by (cases "splitIndexesFrom intn 0 (NameIndex n) ?ws") auto
  note r = splitIndexesFrom_range [OF intn ix] and p = IndexTLSServerName_points [OF b name]
  have pos: "is \<noteq> []" using r splits_length [of publicSuffix n] by auto
  then have "hd is \<in> set is" by simp
  then have lo: "recordLayerHeaderLen < hd is" using r p by fastforce
  have hi: "\<forall>x \<in> set is. x \<le> length b" using r p splits_length [of publicSuffix n] by fastforce
  then have ord: "sorted (is @ [length b])" using r by (simp add: sorted_append)
  have "sorted (?from # is @ [length b])" using ord lo pos by (cases "is") auto
  then have "concat (slices b ?from is) = drop ?from b" by (rule concat_slices)
  moreover have "length (slices b k js) = Suc (length js)" for k js by (induction js arbitrary: k) simp_all
  ultimately show ?thesis
    using ix r ord pos lo that [of "slices b ?from is"]
    by (simp add: splitWrites_def nameSplits_eq Let_def split: if_splits)
qed


text \<open>
  C35. Below \<open>2^16\<close> bytes the first write fails to return exactly where one of
  the labels it splits is empty, since \<^verbatim>\<open>rand.Intn\<close> panics for zero; an empty
  server name is such a case.
\<close>

theorem first_write_panics:
  assumes "\<forall>i n. 0 < n \<longrightarrow> intn i n < n" "length b < 65536" "\<not> firstPacketWritten c" "IndexTLSServerName b = Some (Some n)"
  shows "Conn_Write intn publicSuffix c b = None \<longleftrightarrow>
    (if publicSuffix (ServerName n) = [] then [] \<in> set (StrSplit CHR ''.'' (ServerName n)) else hd (StrSplit CHR ''.'' (ServerName n)) = [])"
proof -
  let ?ws = "fst (nameSplits publicSuffix n)"
  have b: "b \<noteq> []" using IndexTLSServerName_points [OF assms(2,4)] by auto
  have "splitWrites intn publicSuffix (splitPacket c) (splitRecord c) n b = None \<longleftrightarrow> [] \<in> set ?ws"
  proof (cases "[] \<in> set ?ws")
    case True
    then show ?thesis by (simp add: splitWrites_empty)
  next
    case False
    show ?thesis
      by (rule splitWrites_shape [OF assms(1,2,4) False, of "splitRecord c" "splitPacket c"]) (use False in simp)
  qed
  then show ?thesis using assms(3,4) b by (auto simp: Conn_Write_def nameSplits_eq)
qed

definition exampleConn :: fragmentConn where
  "exampleConn = \<lparr>firstPacketWritten = False, splitPacket = True, splitRecord = True\<rparr>"

theorem first_write_panics_witness: "\<exists>w. Conn_Write (\<lambda>_ _. 0) (\<lambda>_. []) exampleConn exampleHello = Some w"
proof -
  have "length exampleHello < 65536" "StrSplit CHR ''.'' (ServerName exampleName) = [''a'', ''b'']"
    by (simp_all add: exampleHello_def exampleName_def)
  then show ?thesis
    using first_write_panics [of "\<lambda>_ _. 0" exampleHello exampleConn exampleName "\<lambda>_. []"] exampleHello_name
    by (auto simp: exampleConn_def)
qed


end
