(* ===== verification/Trojan.thy ===== *)
theory Trojan
  imports GoStd "HOL-Library.AList"
begin

text \<open>
  \<^verbatim>\<open>transport/trojan\<close>: the request a client sends, the packets of its UDP form, the
  users of a server and what the server does with a connection. The form of
  addresses (\<^verbatim>\<open>M.SocksaddrSerializer\<close>) and the hash of a password are parameters. A
  connection is the bytes it delivers.
\<close>

section \<open>Client\<close>

definition KeyLength :: nat where "KeyLength = 56"
abbreviation CommandTCP :: byte where "CommandTCP \<equiv> 1"
abbreviation CommandUDP :: byte where "CommandUDP \<equiv> 3"
abbreviation CommandMux :: byte where "CommandMux \<equiv> 0x7f"
definition CRLF :: bytes where "CRLF = [13, 10]"

record 'a serializer =
  WriteAddrPort :: "'a \<Rightarrow> bytes option"
  ReadAddrPort :: "bytes \<Rightarrow> ('a \<times> bytes) option"

text \<open>Addresses for which \<open>good\<close> holds are read back as they are written.\<close>

definition serializer_laws :: "'a serializer \<Rightarrow> ('a \<Rightarrow> bool) \<Rightarrow> bool" where
  "serializer_laws S good \<longleftrightarrow>
     (\<forall>d. good d \<longrightarrow> (\<exists>bs. WriteAddrPort S d = Some bs \<and> (\<forall>rest. ReadAddrPort S (bs @ rest) = Some (d, rest))))"

definition Key :: "(bytes \<Rightarrow> bytes) \<Rightarrow> string \<Rightarrow> bytes" where
  "Key sha224 password = str_bytes (concat (map hex_byte (sha224 (str_bytes password))))"

definition ClientHandshakeRaw :: "'a serializer \<Rightarrow> bytes \<Rightarrow> byte \<Rightarrow> 'a \<Rightarrow> bytes \<Rightarrow> bytes option" where
  "ClientHandshakeRaw S key command destination payload =
     (case WriteAddrPort S destination of
        None \<Rightarrow> None
      | Some address \<Rightarrow> Some (key @ CRLF @ [command] @ address @ CRLF @ (if length payload > 0 then payload else [])))"

definition ClientHandshake :: "'a serializer \<Rightarrow> bytes \<Rightarrow> 'a \<Rightarrow> bytes \<Rightarrow> bytes option" where
  "ClientHandshake S key destination payload =
     (case WriteAddrPort S destination of
        None \<Rightarrow> None
      | Some address \<Rightarrow> Some (key @ CRLF @ [CommandTCP] @ address @ CRLF @ payload))"

text \<open>The same with the request before the payload in one buffer.\<close>

definition ClientHandshakeBuffer :: "'a serializer \<Rightarrow> bytes \<Rightarrow> 'a \<Rightarrow> bytes \<Rightarrow> bytes option" where
  "ClientHandshakeBuffer S key destination payload =
     (case WriteAddrPort S destination of
        None \<Rightarrow> None
      | Some address \<Rightarrow> Some ((key @ CRLF @ [CommandTCP] @ address @ CRLF) @ payload))"

definition ClientHandshakePacket :: "'a serializer \<Rightarrow> bytes \<Rightarrow> 'a \<Rightarrow> bytes \<Rightarrow> bytes option" where
  "ClientHandshakePacket S key destination payload =
     (case WriteAddrPort S destination of
        None \<Rightarrow> None
      | Some address \<Rightarrow>
          Some (key @ CRLF @ [CommandUDP] @ address @ CRLF @ address @ be_bytes 2 (length payload) @ CRLF @ payload))"

section \<open>Packets\<close>

definition WritePacket :: "'a serializer \<Rightarrow> bytes \<Rightarrow> 'a \<Rightarrow> bytes option" where
  "WritePacket S buffer destination =
     (case WriteAddrPort S destination of
        None \<Rightarrow> None
      | Some address \<Rightarrow> Some (address @ be_bytes 2 (length buffer) @ CRLF @ buffer))"

definition ReadPacket :: "'a serializer \<Rightarrow> bytes \<Rightarrow> ('a \<times> bytes \<times> bytes) option" where
  "ReadPacket S conn =
     (case ReadAddrPort S conn of
        None \<Rightarrow> None
      | Some (destination, rest1) \<Rightarrow>
     (case split_at 2 rest1 of
        None \<Rightarrow> None
      | Some (len, rest2) \<Rightarrow>
     (case split_at 2 rest2 of
        None \<Rightarrow> None
      | Some (_, rest3) \<Rightarrow>
          map_option (\<lambda>(buffer, rest). (destination, buffer, rest)) (split_at (be_uint len) rest3))))"

text \<open>The connections of a client: the first write carries the request.\<close>

record 'a clientConn =
  clientKey :: bytes
  clientDestination :: 'a
  headerWritten :: bool

definition NewClientConn :: "bytes \<Rightarrow> 'a \<Rightarrow> 'a clientConn" where
  "NewClientConn key destination = \<lparr>clientKey = key, clientDestination = destination, headerWritten = False\<rparr>"

definition ClientConn_Write :: "'a serializer \<Rightarrow> 'a clientConn \<Rightarrow> bytes \<Rightarrow> (bytes \<times> 'a clientConn) option" where
  "ClientConn_Write S c p =
     (if headerWritten c then Some (p, c)
      else map_option (\<lambda>bs. (bs, c\<lparr>headerWritten := True\<rparr>)) (ClientHandshake S (clientKey c) (clientDestination c) p))"

text \<open>The packet connection marks the request as written even where writing it fails.\<close>

definition ClientPacketConn_WritePacket ::
  "'a serializer \<Rightarrow> bytes \<Rightarrow> bool \<Rightarrow> bytes \<Rightarrow> 'a \<Rightarrow> bytes option \<times> bool" where
  "ClientPacketConn_WritePacket S key written buffer destination =
     (if written then (WritePacket S buffer destination, True)
      else (ClientHandshakePacket S key destination buffer, True))"

section \<open>Server\<close>

record 'k Service =
  users :: "('k \<times> bytes) list"
  keys :: "(bytes \<times> 'k) list"

datatype 'k user_error = ErrUserExists | ErrPasswordUsed 'k

fun addUsers ::
  "(bytes \<Rightarrow> bytes) \<Rightarrow> ('k \<times> string) list \<Rightarrow> ('k \<times> bytes) list \<Rightarrow> (bytes \<times> 'k) list \<Rightarrow> 'k user_error + 'k Service" where
  "addUsers sha224 [] us ks = Inr \<lparr>users = us, keys = ks\<rparr>"
| "addUsers sha224 ((user, password) # rest) us ks =
     (if map_of us user \<noteq> None then Inl ErrUserExists
      else
        (let key = Key sha224 password in
         case map_of ks key of
           Some oldUser \<Rightarrow> Inl (ErrPasswordUsed oldUser)
         | None \<Rightarrow> addUsers sha224 rest (AList.update user key us) (AList.update key user ks)))"

text \<open>A list of passwords shorter than the list of users makes the index panic: the outer \<open>None\<close>.\<close>

definition UpdateUsers ::
  "(bytes \<Rightarrow> bytes) \<Rightarrow> 'k Service \<Rightarrow> 'k list \<Rightarrow> string list \<Rightarrow> ('k user_error option \<times> 'k Service) option" where
  "UpdateUsers sha224 s userList passwordList =
     (case addUsers sha224 (zip userList passwordList) [] [] of
        Inl e \<Rightarrow> Some (Some e, s)
      | Inr s' \<Rightarrow>
          if length passwordList < length userList
          then if map_of (users s') (userList ! length passwordList) \<noteq> None then Some (Some ErrUserExists, s) else None
          else Some (None, s'))"

datatype ('k, 'a) serverAction =
    HandleTCP 'k 'a bytes
  | HandleUDP 'k 'a bytes
  | HandleMux 'k 'a bytes
  | Fallback bytes bytes
  | BadRequest bool
  | SkipFailed
  | CommandFailed
  | UnknownCommand byte
  | DestinationFailed

definition fallback :: "bool \<Rightarrow> bytes \<Rightarrow> bytes \<Rightarrow> bool \<Rightarrow> ('k, 'a) serverAction" where
  "fallback hasFallback header rest badSize = (if hasFallback then Fallback header rest else BadRequest badSize)"

text \<open>The first \<^verbatim>\<open>Read\<close> delivers \<open>n\<close> bytes of at most \<open>KeyLength\<close>.\<close>

definition NewConnection :: "'a serializer \<Rightarrow> bool \<Rightarrow> 'k Service \<Rightarrow> nat \<Rightarrow> bytes \<Rightarrow> ('k, 'a) serverAction" where
  "NewConnection S hasFallback s n conn =
     (let key = take n conn; rest = drop n conn in
      if length key \<noteq> KeyLength then fallback hasFallback key rest True
      else
        (case map_of (keys s) key of
           None \<Rightarrow> fallback hasFallback key rest False
         | Some user \<Rightarrow>
        (case split_at 2 rest of
           None \<Rightarrow> SkipFailed
         | Some (_, rest1) \<Rightarrow>
        (case rest1 of
           [] \<Rightarrow> CommandFailed
         | command # rest2 \<Rightarrow>
             if command \<noteq> CommandTCP \<and> command \<noteq> CommandUDP \<and> command \<noteq> CommandMux then UnknownCommand command
             else
        (case ReadAddrPort S rest2 of
           None \<Rightarrow> DestinationFailed
         | Some (destination, rest3) \<Rightarrow>
        (case split_at 2 rest3 of
           None \<Rightarrow> SkipFailed
         | Some (_, rest4) \<Rightarrow>
             if command = CommandTCP then HandleTCP user destination rest4
             else if command = CommandUDP then HandleUDP user destination rest4
             else HandleMux user destination rest4))))))"

text \<open>A stream of a multiplexed connection.\<close>

datatype 'a muxAction = MuxTCP 'a bytes | MuxUDP 'a bytes | MuxCommandFailed | MuxDestinationFailed | MuxUnknownCommand byte

definition newMuxConnection0 :: "'a serializer \<Rightarrow> bytes \<Rightarrow> 'a muxAction" where
  "newMuxConnection0 S conn =
     (case conn of
        [] \<Rightarrow> MuxCommandFailed
      | command # rest \<Rightarrow>
     (case ReadAddrPort S rest of
        None \<Rightarrow> MuxDestinationFailed
      | Some (destination, rest1) \<Rightarrow>
          if command = CommandTCP then MuxTCP destination rest1
          else if command = CommandUDP then MuxUDP destination rest1
          else MuxUnknownCommand command))"

section \<open>Users\<close>

text \<open>Users and keys are the same pairs, each user and each key once.\<close>

definition service_inv :: "'k Service \<Rightarrow> bool" where
  "service_inv s \<longleftrightarrow> (\<forall>user key. map_of (users s) user = Some key \<longleftrightarrow> map_of (keys s) key = Some user)"

lemma addUsers_inv:
  "addUsers sha224 l us ks = Inr s \<Longrightarrow> service_inv \<lparr>users = us, keys = ks\<rparr> \<Longrightarrow> service_inv s"
proof (induction sha224 l us ks rule: addUsers.induct)
  case (2 sha224 user password rest us ks)
  let ?key = "Key sha224 password"
  have new: "map_of us user = None" "map_of ks ?key = None"
    and rest: "addUsers sha224 rest (AList.update user ?key us) (AList.update ?key user ks) = Inr s"
    using "2.prems"(1) by (auto simp: Let_def split: if_splits option.splits)
  have pair: "map_of us u = Some k \<longleftrightarrow> map_of ks k = Some u" for u k using "2.prems"(2) by (simp add: service_inv_def)
  have "map_of ks k \<noteq> Some user" "map_of us u \<noteq> Some ?key" for k u using pair [of user k] pair [of u ?key] new by simp_all
  then have "service_inv \<lparr>users = AList.update user ?key us, keys = AList.update ?key user ks\<rparr>"
    using pair by (auto simp: service_inv_def update_conv')
  then show ?case using "2.IH" new rest by simp
qed simp

lemma addUsers_distinct:
  "addUsers sha224 l us ks = Inr s \<Longrightarrow> distinct (map fst l) \<and> (\<forall>u \<in> fst ` set l. map_of us u = None)"
  by (induction sha224 l us ks rule: addUsers.induct) (auto simp: Let_def update_conv' split: if_splits option.splits)

lemma addUsers_keys:
  "addUsers sha224 l us ks = Inr s \<Longrightarrow> map_of (users s) u =
     (case map_of l u of Some password \<Rightarrow> Some (Key sha224 password) | None \<Rightarrow> map_of us u)"
proof (induction sha224 l us ks arbitrary: u rule: addUsers.induct)
  case (2 sha224 user password rest us ks)
  let ?key = "Key sha224 password"
  have new: "map_of us user = None" "map_of ks ?key = None"
    and rest: "addUsers sha224 rest (AList.update user ?key us) (AList.update ?key user ks) = Inr s"
    using "2.prems"(1) by (auto simp: Let_def split: if_splits option.splits)
  have "map_of rest user = None"
    using addUsers_distinct [OF rest] by (auto simp: update_conv' map_of_eq_None_iff)
  then show ?case using "2.IH" new rest by (auto simp: update_conv' split: option.splits)
qed auto

text \<open>
  C39. Updating the users keeps users and keys in one-to-one correspondence,
  and after it every listed user has the key of their password; where it
  fails, the users stay as they were.
\<close>

theorem UpdateUsers_bijective:
  assumes "service_inv s" "UpdateUsers sha224 s userList passwordList = Some (e, s')"
  shows "service_inv s' \<and> (e \<noteq> None \<longrightarrow> s' = s) \<and>
    (e = None \<longrightarrow> (\<forall>i < length userList. map_of (users s') (userList ! i) = Some (Key sha224 (passwordList ! i))))"
proof (cases "addUsers sha224 (zip userList passwordList) [] []")
  case (Inl e')
  then show ?thesis using assms by (auto simp: UpdateUsers_def)
next
  case (Inr t)
  have t: "service_inv t" using addUsers_inv [OF Inr] by (simp add: service_inv_def)
  consider "s' = s" "e \<noteq> None" | "s' = t" "e = None" "\<not> length passwordList < length userList"
    using assms(2) Inr by (auto simp: UpdateUsers_def split: if_splits)
  then show ?thesis
  proof cases
    case 1
    then show ?thesis using assms(1) by auto
  next
    case 2
    have "map_of (zip userList passwordList) (userList ! i) = Some (passwordList ! i)" if "i < length userList" for i
      using addUsers_distinct [OF Inr] that 2(3)
      by (intro map_of_is_SomeI) (auto simp: set_zip intro!: exI [of _ i])
    then show ?thesis using 2 t addUsers_keys [OF Inr] by auto
  qed
qed

section \<open>Requests\<close>

lemma split_CRLF: "split_at 2 (CRLF @ r) = Some (CRLF, r)"
  by (simp add: CRLF_def split_at_def)

lemma ReadPacket_append:
  assumes "serializer_laws S good" "good d" "length buffer < 65536" "WritePacket S buffer d = Some bs"
  shows "ReadPacket S (bs @ rest) = Some (d, buffer, rest)"
proof -
  obtain a where a: "WriteAddrPort S d = Some a" "\<And>r. ReadAddrPort S (a @ r) = Some (d, r)"
    using assms(1,2) unfolding serializer_laws_def by blast
  show ?thesis
    using a assms(3,4) by (auto simp: WritePacket_def ReadPacket_def be_uint_be_bytes split_CRLF)
qed

text \<open>
  C37. A server that knows the user's key understands the client: a TCP request
  whose key arrives with the first read is handled as a connection of the user
  to the destination with the payload to follow, and a UDP request as a packet
  connection from which the first packet is read as it was sent.
\<close>

theorem trojan_request:
  assumes "serializer_laws S good" "good d" "length key = KeyLength" "map_of (keys s) key = Some user" "length payload < 65536"
  shows "(\<exists>bs. ClientHandshake S key d payload = Some bs \<and> NewConnection S hasFallback s KeyLength bs = HandleTCP user d payload) \<and>
    (\<exists>bs rest. ClientHandshakePacket S key d payload = Some bs \<and> NewConnection S hasFallback s KeyLength bs = HandleUDP user d rest \<and>
      ReadPacket S rest = Some (d, payload, []))"
proof -
  obtain a where a: "WriteAddrPort S d = Some a" "\<And>r. ReadAddrPort S (a @ r) = Some (d, r)"
    using assms(1,2) unfolding serializer_laws_def by blast
  have cmd: "CommandTCP \<noteq> CommandUDP" by simp
  have "ReadPacket S (a @ be_bytes 2 (length payload) @ CRLF @ payload) = Some (d, payload, [])"
    using ReadPacket_append [OF assms(1,2,5), of "a @ be_bytes 2 (length payload) @ CRLF @ payload" "[]"] a
    by (simp add: WritePacket_def)
  then show ?thesis
    using a assms(3,4) cmd
    by (auto simp: ClientHandshake_def ClientHandshakePacket_def NewConnection_def Let_def split_CRLF)
qed


section \<open>Instances\<close>

text \<open>Destinations of one byte.\<close>

definition byteSerializer :: "byte serializer" where
  "byteSerializer = \<lparr>WriteAddrPort = (\<lambda>d. Some [d]), ReadAddrPort = (\<lambda>bs. case bs of [] \<Rightarrow> None | d # rest \<Rightarrow> Some (d, rest))\<rparr>"

lemma byteSerializer_laws: "serializer_laws byteSerializer (\<lambda>_. True)"
  by (simp add: serializer_laws_def byteSerializer_def)

definition exampleService :: "nat Service" where
  "exampleService = \<lparr>users = [(1, replicate 56 7)], keys = [(replicate 56 7, 1)]\<rparr>"

theorem trojan_request_witness:
  "\<exists>bs. ClientHandshake byteSerializer (replicate 56 7) 9 [1, 2] = Some bs \<and>
     NewConnection byteSerializer False exampleService KeyLength bs = HandleTCP 1 9 [1, 2]"
  using trojan_request [OF byteSerializer_laws, where d = 9 and key = "replicate 56 7" and s = exampleService and user = 1 and payload = "[1, 2]" and hasFallback = False]
  by (simp add: KeyLength_def exampleService_def)


theorem UpdateUsers_bijective_witness:
  "\<exists>s. UpdateUsers (\<lambda>b. b) exampleService [5, 6] [''p'', ''q''] = Some (None, s) \<and> service_inv s \<and> map_of (users s) 6 = Some (str_bytes ''71'')"
proof -
  have keys: "Key (\<lambda>b. b) ''p'' = str_bytes ''70''" "Key (\<lambda>b. b) ''q'' = str_bytes ''71''" by code_simp+
  have inv: "service_inv exampleService" by (auto simp: service_inv_def exampleService_def)
  have r: "UpdateUsers (\<lambda>b. b) exampleService [5, 6] [''p'', ''q''] =
      Some (None, \<lparr>users = [(5, str_bytes ''70''), (6, str_bytes ''71'')], keys = [(str_bytes ''70'', 5), (str_bytes ''71'', 6)]\<rparr>)"
    by (simp add: UpdateUsers_def Let_def keys)
  show ?thesis using UpdateUsers_bijective [OF inv r] r by auto
qed

end
