(* ===== verification/BadVersion.thy ===== *)
theory BadVersion
  imports GoStd "HOL-Library.List_Lexorder" "HOL-Library.Char_ord"
begin

text \<open>
  \<^verbatim>\<open>common/badversion\<close>: version numbers, their comparison, printing and parsing.
  \<^verbatim>\<open>F.ToString\<close> of a number is the parameter \<open>itoa\<close>.
\<close>

section \<open>Numbers\<close>

text \<open>
  \<^verbatim>\<open>strconv.Atoi\<close> with its error ignored: zero for what is not a number, the
  nearest 64-bit number for one that is too large.
\<close>

definition Atoi :: "string \<Rightarrow> int" where
  "Atoi s =
     (let neg = (take 1 s = ''-''); digits = (if take 1 s = ''-'' \<or> take 1 s = ''+'' then drop 1 s else s) in
      if digits = [] \<or> list_ex (\<lambda>c. digit_value c = None) digits then 0
      else (let n = foldl (\<lambda>n c. n * 10 + int (the (digit_value c))) 0 digits in
            if neg then max (- (2 ^ 63)) (- n) else min (2 ^ 63 - 1) n))"

definition TrimPrefix :: "string \<Rightarrow> string \<Rightarrow> string" where
  "TrimPrefix s p = (if HasPrefix s p then drop (length p) s else s)"

section \<open>Versions\<close>

record Version =
  Major :: int
  Minor :: int
  Patch :: int
  Commit :: string
  PreReleaseIdentifier :: string
  PreReleaseVersion :: int

abbreviation versionZero :: Version where
  "versionZero \<equiv> \<lparr>Major = 0, Minor = 0, Patch = 0, Commit = [], PreReleaseIdentifier = [], PreReleaseVersion = 0\<rparr>"

definition parsePreReleaseIdentifier :: "string \<Rightarrow> int" where
  "parsePreReleaseIdentifier identifier =
     (if HasPrefix identifier ''rc'' then 1
      else if HasPrefix identifier ''beta'' then 2
      else if HasPrefix identifier ''alpha'' then 3
      else 0)"

definition GreaterThan :: "Version \<Rightarrow> Version \<Rightarrow> bool" where
  "GreaterThan v w =
     (if Major v > Major w then True else if Major v < Major w then False
      else if Minor v > Minor w then True else if Minor v < Minor w then False
      else if Patch v > Patch w then True else if Patch v < Patch w then False
      else if PreReleaseIdentifier v = [] \<and> PreReleaseIdentifier w \<noteq> [] then True
      else if PreReleaseIdentifier v \<noteq> [] \<and> PreReleaseIdentifier w = [] then False
      else if PreReleaseIdentifier v \<noteq> [] \<and> PreReleaseIdentifier w \<noteq> [] then
        if PreReleaseIdentifier v = PreReleaseIdentifier w \<and> PreReleaseVersion v > PreReleaseVersion w then True
        else if PreReleaseIdentifier v = PreReleaseIdentifier w \<and> PreReleaseVersion v < PreReleaseVersion w then False
        else if parsePreReleaseIdentifier (PreReleaseIdentifier v) < parsePreReleaseIdentifier (PreReleaseIdentifier w) then True
        else False
      else False)"

definition GreaterThanOrEqual :: "Version \<Rightarrow> Version \<Rightarrow> bool" where
  "GreaterThanOrEqual v w \<longleftrightarrow> v = w \<or> GreaterThan v w"

definition LessThanOrEqual :: "Version \<Rightarrow> Version \<Rightarrow> bool" where
  "LessThanOrEqual v w \<longleftrightarrow> v = w \<or> GreaterThan w v"

definition LessThan :: "Version \<Rightarrow> Version \<Rightarrow> bool" where
  "LessThan v w \<longleftrightarrow> \<not> GreaterThanOrEqual v w"

definition VersionString :: "(int \<Rightarrow> string) \<Rightarrow> Version \<Rightarrow> string" where
  "VersionString itoa v = itoa (Major v) @ ''.'' @ itoa (Minor v) @ ''.'' @ itoa (Patch v)"

definition Version_String :: "(int \<Rightarrow> string) \<Rightarrow> Version \<Rightarrow> string" where
  "Version_String itoa v =
     (let version = itoa (Major v) @ ''.'' @ itoa (Minor v) @ ''.'' @ itoa (Patch v) in
      if PreReleaseIdentifier v \<noteq> [] then version @ ''-'' @ PreReleaseIdentifier v @ ''.'' @ itoa (PreReleaseVersion v)
      else version)"

definition BadString :: "(int \<Rightarrow> string) \<Rightarrow> Version \<Rightarrow> string" where
  "BadString itoa v =
     (let version = itoa (Major v) @ ''.'' @ itoa (Minor v);
          version = (if Patch v > 0 then version @ ''.'' @ itoa (Patch v) else version)
      in if PreReleaseIdentifier v \<noteq> []
         then (let version = version @ ''-'' @ PreReleaseIdentifier v in
               if PreReleaseVersion v > 0 then version @ itoa (PreReleaseVersion v) else version)
         else version)"

definition IsValid :: "(string \<Rightarrow> bool) \<Rightarrow> string \<Rightarrow> bool" where
  "IsValid semverIsValid versionName \<longleftrightarrow> semverIsValid (''v'' @ versionName)"

definition parseIdentifier :: "string \<Rightarrow> Version \<Rightarrow> Version" where
  "parseIdentifier identifier version =
     (if StrContains identifier ''.'' then
        (let identifierParts = StrSplit CHR ''.'' identifier;
             version = version\<lparr>PreReleaseIdentifier := identifierParts ! 0\<rparr>
         in if length identifierParts \<ge> 2 then version\<lparr>PreReleaseVersion := Atoi (identifierParts ! 1)\<rparr> else version)
      else if HasPrefix identifier ''alpha'' then
        version\<lparr>PreReleaseIdentifier := ''alpha'', PreReleaseVersion := Atoi (drop 5 identifier)\<rparr>
      else if HasPrefix identifier ''beta'' then
        version\<lparr>PreReleaseIdentifier := ''beta'', PreReleaseVersion := Atoi (drop 4 identifier)\<rparr>
      else version\<lparr>Commit := identifier\<rparr>)"

definition Parse :: "string \<Rightarrow> Version" where
  "Parse versionName =
     (let versionName = TrimPrefix versionName ''v'';
          (versionName, version) =
            (if StrContains versionName ''-'' then
               let parts = StrSplit CHR ''-'' versionName in (parts ! 0, parseIdentifier (parts ! 1) versionZero)
             else (versionName, versionZero));
          versionElements = StrSplit CHR ''.'' versionName;
          versionLen = length versionElements;
          version = (if versionLen \<ge> 1 then version\<lparr>Major := Atoi (versionElements ! 0)\<rparr> else version);
          version = (if versionLen \<ge> 2 then version\<lparr>Minor := Atoi (versionElements ! 1)\<rparr> else version)
      in if versionLen \<ge> 3 then version\<lparr>Patch := Atoi (versionElements ! 2)\<rparr> else version)"

section \<open>Order\<close>

text \<open>
  The versions in use: no commit, and one of the known identifiers. Their rank
  is what they are compared by: numbers first, then the stage.
\<close>

definition stage :: "string \<Rightarrow> int" where
  "stage identifier = (if identifier = [] then 4 else if identifier = ''rc'' then 3 else if identifier = ''beta'' then 2 else 1)"

definition known :: "Version \<Rightarrow> bool" where
  "known v \<longleftrightarrow> Commit v = [] \<and> PreReleaseIdentifier v \<in> {[], ''rc'', ''beta'', ''alpha''} \<and>
     (PreReleaseIdentifier v = [] \<longrightarrow> PreReleaseVersion v = 0)"

definition rank :: "Version \<Rightarrow> int list" where
  "rank v = [Major v, Minor v, Patch v, stage (PreReleaseIdentifier v), PreReleaseVersion v]"

lemma parsePreReleaseIdentifier_known:
  "parsePreReleaseIdentifier ''rc'' = 1" "parsePreReleaseIdentifier ''beta'' = 2" "parsePreReleaseIdentifier ''alpha'' = 3"
  by code_simp+

lemma GreaterThan_rank:
  assumes "known v" "known w"
  shows "GreaterThan v w \<longleftrightarrow> rank w < rank v"
proof -
  have v: "PreReleaseIdentifier v \<in> {[], ''rc'', ''beta'', ''alpha''}" "PreReleaseIdentifier v = [] \<longrightarrow> PreReleaseVersion v = 0"
    and w: "PreReleaseIdentifier w \<in> {[], ''rc'', ''beta'', ''alpha''}" "PreReleaseIdentifier w = [] \<longrightarrow> PreReleaseVersion w = 0"
    using assms by (auto simp: known_def)
  show ?thesis
    using v w by (auto simp: GreaterThan_def rank_def stage_def parsePreReleaseIdentifier_known)
qed

lemma rank_inj: "known v \<Longrightarrow> known w \<Longrightarrow> rank v = rank w \<longleftrightarrow> v = w"
  by (auto simp: rank_def known_def stage_def intro!: Version.equality split: if_splits)



section \<open>Round trip\<close>

definition itoa_laws :: "(int \<Rightarrow> string) \<Rightarrow> bool" where
  "itoa_laws itoa \<longleftrightarrow> (\<forall>n. 0 \<le> n \<longrightarrow> n < 2 ^ 63 \<longrightarrow> Atoi (itoa n) = n \<and> itoa n \<noteq> [] \<and> (\<forall>c \<in> set (itoa n). digit_value c \<noteq> None))"

lemma StrContains_char: "StrContains s [c] \<longleftrightarrow> c \<in> set s"
proof -
  have "(\<exists>a b. s = a @ [c] @ b) \<longleftrightarrow> c \<in> set s" by (auto simp: in_set_conv_decomp)
  then show ?thesis by (simp add: StrContains_iff)
qed

lemma not_digit: "digit_value CHR ''.'' = None" "digit_value CHR ''-'' = None" "digit_value CHR ''v'' = None"
  by code_simp+

text \<open>
  A version that is printed is parsed to the same version, as long as its
  numbers are not negative, it has no commit and its identifier has no dot and
  no hyphen.
\<close>

lemma version_roundtrip:
  assumes "itoa_laws itoa" "Commit v = []" "\<forall>n \<in> {Major v, Minor v, Patch v, PreReleaseVersion v}. 0 \<le> n \<and> n < 2 ^ 63"
    and "CHR ''.'' \<notin> set (PreReleaseIdentifier v)" "CHR ''-'' \<notin> set (PreReleaseIdentifier v)"
    and "PreReleaseIdentifier v = [] \<longrightarrow> PreReleaseVersion v = 0"
  shows "Parse (Version_String itoa v) = v"
proof -
  let ?M = "itoa (Major v)" and ?m = "itoa (Minor v)" and ?p = "itoa (Patch v)" and ?n = "itoa (PreReleaseVersion v)"
  have num: "Atoi (itoa n) = n" "itoa n \<noteq> []" "CHR ''.'' \<notin> set (itoa n)" "CHR ''-'' \<notin> set (itoa n)" "CHR ''v'' \<notin> set (itoa n)"
    if "n \<in> {Major v, Minor v, Patch v, PreReleaseVersion v}" for n
    using assms(1,3) that not_digit unfolding itoa_laws_def by blast+
  let ?plain = "?M @ ''.'' @ ?m @ ''.'' @ ?p"
  have dots: "StrSplit CHR ''.'' ?plain = [?M, ?m, ?p]"
    using num by (simp add: StrSplit_append StrSplit_notin)
  have noV: "TrimPrefix (?plain @ r) ''v'' = ?plain @ r" for r
    using num(2,5) [of "Major v"] by (cases ?M) (auto simp: TrimPrefix_def HasPrefix_def)
  show ?thesis
  proof (cases "PreReleaseIdentifier v = []")
    case True
    then have "\<not> StrContains ?plain ''-''" using num(4) by (simp add: StrContains_char)
    then have "Parse (Version_String itoa v) = versionZero\<lparr>Major := Major v, Minor := Minor v, Patch := Patch v\<rparr>"
      using True dots noV [of "[]"] num(1) by (simp add: Parse_def Version_String_def)
    then show ?thesis using True assms(2,6) by simp
  next
    case False
    let ?id = "PreReleaseIdentifier v @ ''.'' @ ?n"
    have s: "Version_String itoa v = ?plain @ CHR ''-'' # ?id" using False by (simp add: Version_String_def)
    have "CHR ''-'' \<notin> set ?plain" "CHR ''-'' \<notin> set ?id" using num(4) assms(5) by auto
    then have parts: "StrSplit CHR ''-'' (?plain @ CHR ''-'' # ?id) = [?plain, ?id]"
      using StrSplit_append [of "CHR ''-''" ?plain ?id] StrSplit_notin [of "CHR ''-''" ?id] by simp
    have "StrSplit CHR ''.'' ?id = [PreReleaseIdentifier v, ?n]"
      using StrSplit_append [of "CHR ''.''" "PreReleaseIdentifier v" ?n] StrSplit_notin [of "CHR ''.''" ?n] num(3) assms(4) by simp
    then have "parseIdentifier ?id versionZero =
        versionZero\<lparr>PreReleaseIdentifier := PreReleaseIdentifier v, PreReleaseVersion := PreReleaseVersion v\<rparr>"
      using num(1) by (simp add: parseIdentifier_def StrContains_char)
    then have "Parse (Version_String itoa v) = versionZero\<lparr>PreReleaseIdentifier := PreReleaseIdentifier v,
        PreReleaseVersion := PreReleaseVersion v, Major := Major v, Minor := Minor v, Patch := Patch v\<rparr>"
      using dots parts noV [of "CHR ''-'' # ?id"] num(1) unfolding s Parse_def Let_def by (simp add: StrContains_char)
    then show ?thesis using assms(2) by simp
  qed
qed

text \<open>Decimal numbers, an instance of \<open>itoa\<close>.\<close>

fun decimal :: "nat \<Rightarrow> string" where
  "decimal n = (if n < 10 then [char_of (48 + n)] else decimal (n div 10) @ [char_of (48 + n mod 10)])"

declare decimal.simps [simp del]

lemma digit_value_char: "n < 10 \<Longrightarrow> digit_value (char_of (48 + n)) = Some n"
  by (simp add: digit_value_def Let_def)

lemma decimal_digits: "decimal n \<noteq> [] \<and> (\<forall>c \<in> set (decimal n). digit_value c \<noteq> None)"
proof (induction n rule: decimal.induct)
  case (1 n)
  then show ?case by (subst (1 2) decimal.simps) (auto simp: digit_value_char)
qed

lemma decimal_value: "foldl (\<lambda>n c. n * 10 + int (the (digit_value c))) 0 (decimal n) = int n"
proof (induction n rule: decimal.induct)
  case (1 n)
  show ?case
  proof (cases "n < 10")
    case True
    then show ?thesis by (subst decimal.simps) (simp add: digit_value_char)
  next
    case False
    have "int (n div 10) * 10 + int (n mod 10) = int n" by (simp add: zdiv_int zmod_int)
    then show ?thesis using "1.IH" False by (subst decimal.simps) (simp add: digit_value_char)
  qed
qed

lemma decimal_laws: "itoa_laws (\<lambda>n. decimal (nat n))"
proof -
  have "Atoi (decimal (nat n)) = n" if "0 \<le> n" "n < 2 ^ 63" for n
  proof -
    obtain c cs where d: "decimal (nat n) = c # cs" using decimal_digits [of "nat n"] by (cases "decimal (nat n)") auto
    have "digit_value c \<noteq> None" "digit_value CHR ''+'' = None" using decimal_digits [of "nat n"] by (auto simp: d digit_value_def)
    then have "c \<noteq> CHR ''-'' \<and> c \<noteq> CHR ''+''" using not_digit(2) by auto
    moreover have "\<not> list_ex (\<lambda>c. digit_value c = None) (decimal (nat n))" using decimal_digits by (auto simp: list_ex_iff)
    ultimately show ?thesis using decimal_value [of "nat n"] that by (auto simp: Atoi_def Let_def d)
  qed
  then show ?thesis using decimal_digits by (simp add: itoa_laws_def)
qed

end
