(* ===== verification/DNSMessage.thy ===== *)
theory DNSMessage
  imports RuleActions CacheFakeIP "HOL-Library.Multiset"
begin

text \<open>
  What \<^verbatim>\<open>dns/client.go\<close> and \<^verbatim>\<open>dns/extension_edns0_subnet.go\<close> do to DNS messages:
  the time to live of a response, the round robin of its addresses, the
  client subnet option of a request, and the fixed responses. Messages are
  values, so \<^verbatim>\<open>Msg.Copy\<close> is the identity.
\<close>

section \<open>Constants of the protocol\<close>

abbreviation TypeA :: u16 where "TypeA \<equiv> 1"
abbreviation TypeCNAME :: u16 where "TypeCNAME \<equiv> 5"
abbreviation TypeAAAA :: u16 where "TypeAAAA \<equiv> 28"
abbreviation TypeOPT :: u16 where "TypeOPT \<equiv> 41"
abbreviation TypeHTTPS :: u16 where "TypeHTTPS \<equiv> 65"
abbreviation ClassINET :: u16 where "ClassINET \<equiv> 1"
abbreviation RcodeFormatError :: int where "RcodeFormatError \<equiv> 1"
abbreviation RcodeNameError :: int where "RcodeNameError \<equiv> 3"
abbreviation EDNS0SUBNET :: u16 where "EDNS0SUBNET \<equiv> 8"
abbreviation EDNS0PADDING :: u16 where "EDNS0PADDING \<equiv> 12"

text \<open>The Go type of a record, and the code of an option.\<close>

definition isA :: "RR \<Rightarrow> bool" where
  "isA r \<longleftrightarrow> (case RRData r of RA _ \<Rightarrow> True | _ \<Rightarrow> False)"

definition isAAAA :: "RR \<Rightarrow> bool" where
  "isAAAA r \<longleftrightarrow> (case RRData r of RAAAA _ \<Rightarrow> True | _ \<Rightarrow> False)"

definition isOPT :: "RR \<Rightarrow> bool" where
  "isOPT r \<longleftrightarrow> (case RRData r of ROPT _ \<Rightarrow> True | _ \<Rightarrow> False)"

definition optOptions :: "RR \<Rightarrow> edns_option list" where
  "optOptions r = (case RRData r of ROPT opts \<Rightarrow> opts | _ \<Rightarrow> [])"

fun isSubnet :: "edns_option \<Rightarrow> bool" where
  "isSubnet (EDNSSubnet _ _ _ _) = True"
| "isSubnet (EDNSOther _ _) = False"

fun optionCode :: "edns_option \<Rightarrow> u16" where
  "optionCode (EDNSSubnet _ _ _ _) = EDNS0SUBNET"
| "optionCode (EDNSOther code _) = code"

section \<open>Round robin\<close>

definition reverseRotateSlice :: "'a list \<Rightarrow> nat \<Rightarrow> 'a list" where
  "reverseRotateSlice items steps =
     (if length items \<le> 1 then items
      else let k = length items - steps mod length items in drop k items @ take k items)"

definition removeAnswersOfType :: "RR list \<Rightarrow> u16 \<Rightarrow> RR list" where
  "removeAnswersOfType answers rrType = filter (\<lambda>ans. Rrtype ans \<noteq> rrType) answers"

text \<open>
  A cached message with its two counters. They stay below the number of
  addresses, so the 32 bits of the code never wrap.
\<close>

record dnsMsg =
  ipv4Index :: nat
  ipv6Index :: nat
  dmsg :: Msg

definition applyRoundRobin :: "dnsMsg \<Rightarrow> Msg \<Rightarrow> dnsMsg \<times> Msg" where
  "applyRoundRobin dm m =
     (let ipv4Answers = filter isA (Answer m);
          ipv6Answers = filter isAAAA (Answer m);
          (dm1, m1) =
            (if length ipv4Answers > 1 then
               let newIndex = (ipv4Index dm + 1) mod length ipv4Answers in
               (dm\<lparr>ipv4Index := newIndex\<rparr>,
                m\<lparr>Answer := removeAnswersOfType (Answer m) TypeA @ reverseRotateSlice ipv4Answers newIndex\<rparr>)
             else (dm, m))
      in if length ipv6Answers > 1 then
           let newIndex = (ipv6Index dm1 + 1) mod length ipv6Answers in
           (dm1\<lparr>ipv6Index := newIndex\<rparr>,
            m1\<lparr>Answer := removeAnswersOfType (Answer m1) TypeAAAA @ reverseRotateSlice ipv6Answers newIndex\<rparr>)
         else (dm1, m1))"

definition RoundRobin :: "dnsMsg \<Rightarrow> dnsMsg \<times> Msg" where
  "RoundRobin dm = applyRoundRobin dm (dmsg dm)"

section \<open>Time to live\<close>

text \<open>The loop over the authority section: the first SOA decides.\<close>

fun extractNegativeTTL :: "RR list \<Rightarrow> u32 option" where
  "extractNegativeTTL [] = None"
| "extractNegativeTTL (record # rest) =
     (case RRData record of
        RSOA soaMinimum \<Rightarrow> Some (if Ttl record < soaMinimum then Ttl record else soaMinimum)
      | _ \<Rightarrow> extractNegativeTTL rest)"

definition computeTimeToLive :: "Msg \<Rightarrow> u32" where
  "computeTimeToLive response =
     (case (if Answer response = [] then extractNegativeTTL (Ns response) else None) of
        Some soaTTL \<Rightarrow> soaTTL
      | None \<Rightarrow>
          foldl (\<lambda>timeToLive record.
                   if Rrtype record = TypeOPT then timeToLive
                   else if timeToLive = 0 \<or> Ttl record > 0 \<and> Ttl record < timeToLive then Ttl record
                   else timeToLive)
            0 (Answer response @ Ns response @ Extra response))"

definition normalizeTTL :: "Msg \<Rightarrow> u32 \<Rightarrow> Msg" where
  "normalizeTTL response timeToLive =
     (let set = map (\<lambda>record. if Rrtype record = TypeOPT then record else record\<lparr>Ttl := timeToLive\<rparr>) in
      response\<lparr>Answer := set (Answer response), Ns := set (Ns response), Extra := set (Extra response)\<rparr>)"

section \<open>Client subnet\<close>

text \<open>\<^verbatim>\<open>netip.AddrFromSlice\<close>: 4 or 16 bytes.\<close>

definition AddrFromSlice :: "bytes \<Rightarrow> Addr option" where
  "AddrFromSlice b =
     (if length b = 4 then Some (AddrFrom4 b) else if length b = 16 then Some (AddrFrom16 b) else None)"

definition clientSubnetFromMessage :: "Msg \<Rightarrow> Prefix" where
  "clientSubnetFromMessage message =
     (case filter isSubnet (concat (map optOptions (Extra message))) of
        subnetOption # _ \<Rightarrow>
          (case AddrFromSlice (SubnetAddress subnetOption) of
             None \<Rightarrow> PrefixZero
           | Some address \<Rightarrow> PrefixFrom (Unmap address) (uint (SourceNetmask subnetOption)))
      | [] \<Rightarrow> PrefixZero)"

definition filterOptions :: "(edns_option \<Rightarrow> bool) \<Rightarrow> RR \<Rightarrow> RR" where
  "filterOptions keep record =
     (case RRData record of
        ROPT opts \<Rightarrow> record\<lparr>RRData := ROPT (filter keep opts)\<rparr>
      | _ \<Rightarrow> record)"

definition removeClientSubnet :: "Msg \<Rightarrow> Msg" where
  "removeClientSubnet message =
     (if \<not> list_ex (\<lambda>record. list_ex (\<lambda>opt. optionCode opt = EDNS0SUBNET) (optOptions record)) (Extra message)
      then message
      else message\<lparr>Extra := map (filterOptions (\<lambda>opt. optionCode opt \<noteq> EDNS0SUBNET)) (Extra message)\<rparr>)"

text \<open>
  The loop \<^verbatim>\<open>findExists\<close>: the positions of the last OPT record it assigned and
  of the subnet option it stopped at. A record of another type assigns nil
  to \<^verbatim>\<open>optRecord\<close>, and an option of another type to \<^verbatim>\<open>subnetOption\<close>.
\<close>

fun findIndex :: "('a \<Rightarrow> bool) \<Rightarrow> 'a list \<Rightarrow> nat option" where
  "findIndex P [] = None"
| "findIndex P (x # xs) = (if P x then Some 0 else map_option Suc (findIndex P xs))"

fun findExists :: "nat \<Rightarrow> nat option \<Rightarrow> RR list \<Rightarrow> nat option \<times> nat option" where
  "findExists i optRecord [] = (optRecord, None)"
| "findExists i optRecord (record # rest) =
     (if isOPT record then
        (case findIndex isSubnet (optOptions record) of
           Some j \<Rightarrow> (Some i, Some j)
         | None \<Rightarrow> findExists (Suc i) (Some i) rest)
      else findExists (Suc i) None rest)"

text \<open>Only family, mask and address of an existing option are replaced.\<close>

definition subnetOf :: "Prefix \<Rightarrow> u8 \<Rightarrow> edns_option" where
  "subnetOf clientSubnet scope =
     EDNSSubnet (if Is4 (PrefixAddr clientSubnet) then 1 else 2) (word_of_int (PrefixBits clientSubnet)) scope
       (AsSlice (PrefixAddr clientSubnet))"

definition setOption :: "Prefix \<Rightarrow> nat option \<Rightarrow> RR \<Rightarrow> RR" where
  "setOption clientSubnet subnetOption record =
     record\<lparr>RRData := ROPT
       (case subnetOption of
          Some j \<Rightarrow> (optOptions record)[j := subnetOf clientSubnet (SourceScope (optOptions record ! j))]
        | None \<Rightarrow> optOptions record @ [subnetOf clientSubnet 0])\<rparr>"

definition setClientSubnet :: "Msg \<Rightarrow> Prefix \<Rightarrow> Msg" where
  "setClientSubnet message clientSubnet =
     (case findExists 0 None (Extra message) of
        (None, subnetOption) \<Rightarrow>
          message\<lparr>Extra := Extra message @
            [setOption clientSubnet subnetOption
               \<lparr>RRName = ''.'', Rrtype = TypeOPT, RRClass = 0, Ttl = 0, RRData = ROPT []\<rparr>]\<rparr>
      | (Some i, subnetOption) \<Rightarrow>
          message\<lparr>Extra := (Extra message)[i := setOption clientSubnet subnetOption (Extra message ! i)]\<rparr>)"

definition stripDNSPadding :: "Msg \<Rightarrow> Msg" where
  "stripDNSPadding response =
     response\<lparr>Extra := map (filterOptions (\<lambda>opt. optionCode opt \<noteq> EDNS0PADDING)) (Extra response)\<rparr>"

section \<open>Fixed responses\<close>

definition FixedResponseStatus :: "Msg \<Rightarrow> int \<Rightarrow> Msg" where
  "FixedResponseStatus message rcode =
     \<lparr>MsgId = MsgId message, IsResponse = True, Authoritative = True, RecursionDesired = True,
      RecursionAvailable = True, Rcode = rcode, Questions = Questions message,
      Answer = [], Ns = [], Extra = []\<rparr>"

abbreviation fixedAnswer :: "u16 \<Rightarrow> DNSQuestion \<Rightarrow> RR list \<Rightarrow> Msg" where
  "fixedAnswer msgId question answers \<equiv>
     \<lparr>MsgId = msgId, IsResponse = True, Authoritative = True, RecursionDesired = True,
      RecursionAvailable = True, Rcode = RcodeSuccess, Questions = [question],
      Answer = answers, Ns = [], Extra = []\<rparr>"

abbreviation fixedRecord :: "DNSQuestion \<Rightarrow> u16 \<Rightarrow> u32 \<Rightarrow> rdata \<Rightarrow> RR" where
  "fixedRecord question rrType timeToLive content \<equiv>
     \<lparr>RRName = QName question, Rrtype = rrType, RRClass = ClassINET, Ttl = timeToLive, RRData = content\<rparr>"

definition FixedResponse :: "u16 \<Rightarrow> DNSQuestion \<Rightarrow> Addr list \<Rightarrow> u32 \<Rightarrow> Msg" where
  "FixedResponse msgId question addresses timeToLive =
     fixedAnswer msgId question
       (concat (map (\<lambda>address.
          if Is4 address \<and> Qtype question = TypeA
          then [fixedRecord question TypeA timeToLive (RA (AsSlice address))]
          else if Is6 address \<and> Qtype question = TypeAAAA
          then [fixedRecord question TypeAAAA timeToLive (RAAAA (AsSlice address))]
          else []) addresses))"

definition FixedResponseCNAME :: "u16 \<Rightarrow> DNSQuestion \<Rightarrow> string \<Rightarrow> u32 \<Rightarrow> Msg" where
  "FixedResponseCNAME msgId question record timeToLive =
     fixedAnswer msgId question [fixedRecord question TypeCNAME timeToLive (RCNAME record)]"

text \<open>The next two give their records the type A, as the code does.\<close>

definition FixedResponseTXT :: "u16 \<Rightarrow> DNSQuestion \<Rightarrow> string list \<Rightarrow> u32 \<Rightarrow> Msg" where
  "FixedResponseTXT msgId question records timeToLive =
     fixedAnswer msgId question [fixedRecord question TypeA timeToLive (RTXT records)]"

definition FixedResponseMX :: "u16 \<Rightarrow> DNSQuestion \<Rightarrow> (u16 \<times> string) list \<Rightarrow> u32 \<Rightarrow> Msg" where
  "FixedResponseMX msgId question records timeToLive =
     fixedAnswer msgId question
       (map (\<lambda>(preference, host). fixedRecord question TypeA timeToLive (RMX preference host)) records)"

definition sortAddresses :: "Addr list \<Rightarrow> Addr list \<Rightarrow> DomainStrategy \<Rightarrow> Addr list" where
  "sortAddresses response4 response6 strategy =
     (if strategy = DomainStrategyPreferIPv6 then response6 @ response4 else response4 @ response6)"

section \<open>Round robin: a fair permutation\<close>

lemma reverseRotate_rotate: "reverseRotateSlice xs n = rotate (length xs - n mod length xs) xs"
proof (cases "length xs \<le> 1")
  case True
  then have "rotate k xs = xs" for k by (cases xs) simp_all
  then show ?thesis using True by (simp add: reverseRotateSlice_def)
next
  case False
  then have "length xs \<noteq> 0" by linarith
  then show ?thesis using False
    by (cases "n mod length xs = 0") (auto simp: reverseRotateSlice_def Let_def rotate_drop_take)
qed

lemma reverseRotate_facts [simp]:
  "mset (reverseRotateSlice xs n) = mset xs" "length (reverseRotateSlice xs n) = length xs"
  "set (reverseRotateSlice xs n) = set xs"
proof -
  show m: "mset (reverseRotateSlice xs n) = mset xs"
    by (simp add: reverseRotateSlice_def Let_def) (metis append_take_drop_id mset_append add.commute)
  show "length (reverseRotateSlice xs n) = length xs" using mset_eq_length [OF m] .
  show "set (reverseRotateSlice xs n) = set xs" using mset_eq_setD [OF m] .
qed

lemma reverseRotate_hd:
  assumes "length xs > 1" shows "hd (reverseRotateSlice xs n) = xs ! ((length xs - n mod length xs) mod length xs)"
  using assms hd_rotate_conv_nth [of xs] by (cases xs) (simp_all add: reverseRotate_rotate)

text \<open>A message whose records have the type number of their Go type.\<close>

definition typedAnswers :: "RR list \<Rightarrow> bool" where
  "typedAnswers rs \<longleftrightarrow> (\<forall>r\<in>set rs. (Rrtype r = TypeA \<longleftrightarrow> isA r) \<and> (Rrtype r = TypeAAAA \<longleftrightarrow> isAAAA r))"

lemma isA_isAAAA: "isA r \<Longrightarrow> \<not> isAAAA r" "isAAAA r \<Longrightarrow> \<not> isA r"
  by (auto simp: isA_def isAAAA_def split: rdata.splits)

lemma removeAnswers_typed:
  "typedAnswers rs \<Longrightarrow> removeAnswersOfType rs TypeA = filter (\<lambda>r. \<not> isA r) rs"
  "typedAnswers rs \<Longrightarrow> removeAnswersOfType rs TypeAAAA = filter (\<lambda>r. \<not> isAAAA r) rs"
  by (auto simp: removeAnswersOfType_def typedAnswers_def intro: filter_cong)

lemma typed_cong: "set rs = set rs' \<Longrightarrow> typedAnswers rs = typedAnswers rs'"
  by (simp add: typedAnswers_def)

text \<open>One rotated group, moved behind the rest of the answer.\<close>

lemma moved_group:
  "mset (filter (\<lambda>r. \<not> P r) rs @ reverseRotateSlice (filter P rs) n) = mset rs"
  "filter P (filter (\<lambda>r. \<not> P r) rs @ reverseRotateSlice (filter P rs) n) = reverseRotateSlice (filter P rs) n"
  "(\<And>r. Q r \<Longrightarrow> \<not> P r) \<Longrightarrow> filter Q (filter (\<lambda>r. \<not> P r) rs @ reverseRotateSlice (filter P rs) n) = filter Q rs"
proof -
  show "mset (filter (\<lambda>r. \<not> P r) rs @ reverseRotateSlice (filter P rs) n) = mset rs"
    by (simp add: add.commute flip: mset_filter) (metis add.commute multiset_partition mset_filter)
  have "filter P (reverseRotateSlice (filter P rs) n) = reverseRotateSlice (filter P rs) n"
    by (auto simp: filter_id_conv)
  then show "filter P (filter (\<lambda>r. \<not> P r) rs @ reverseRotateSlice (filter P rs) n) = reverseRotateSlice (filter P rs) n"
    by simp
  assume Q: "\<And>r. Q r \<Longrightarrow> \<not> P r"
  have "filter Q (reverseRotateSlice (filter P rs) n) = []" using Q by (auto simp: filter_empty_conv)
  moreover have "filter (\<lambda>x. \<not> P x \<and> Q x) rs = filter Q rs" using Q by (intro filter_cong) auto
  ultimately show "filter Q (filter (\<lambda>r. \<not> P r) rs @ reverseRotateSlice (filter P rs) n) = filter Q rs"
    by (simp add: conj_commute)
qed

lemma applyRoundRobin_effect:
  assumes "typedAnswers (Answer m)" "applyRoundRobin dm m = (dm', m')"
  defines "as \<equiv> filter isA (Answer m)" and "bs \<equiv> filter isAAAA (Answer m)"
  shows "mset (Answer m') = mset (Answer m)" "m'\<lparr>Answer := a\<rparr> = m\<lparr>Answer := a\<rparr>" "dmsg dm' = dmsg dm"
    "length as > 1 \<Longrightarrow> ipv4Index dm' = (ipv4Index dm + 1) mod length as
       \<and> filter isA (Answer m') = reverseRotateSlice as (ipv4Index dm')"
    "length bs > 1 \<Longrightarrow> ipv6Index dm' = (ipv6Index dm + 1) mod length bs
       \<and> filter isAAAA (Answer m') = reverseRotateSlice bs (ipv6Index dm')"
proof -
  define m1 where "m1 = (if length as > 1 then m\<lparr>Answer := filter (\<lambda>r. \<not> isA r) (Answer m) @
      reverseRotateSlice as ((ipv4Index dm + 1) mod length as)\<rparr> else m)"
  define dm1 where "dm1 = (if length as > 1 then dm\<lparr>ipv4Index := (ipv4Index dm + 1) mod length as\<rparr> else dm)"
  have 1: "mset (Answer m1) = mset (Answer m)" "filter isAAAA (Answer m1) = bs"
    "length as > 1 \<Longrightarrow> filter isA (Answer m1) = reverseRotateSlice as ((ipv4Index dm + 1) mod length as)"
    using moved_group(1) [of isA] moved_group(2) [of isA "Answer m"] moved_group(3) [of isAAAA isA "Answer m", OF isA_isAAAA(2)]
    by (auto simp: m1_def as_def bs_def simp del: filter_append mset_append)
  have typed: "typedAnswers (Answer m1)" using assms(1) typed_cong [OF mset_eq_setD [OF 1(1)]] by simp
  have step: "(dm', m') = (if length bs > 1 then
      (dm1\<lparr>ipv6Index := (ipv6Index dm1 + 1) mod length bs\<rparr>,
       m1\<lparr>Answer := filter (\<lambda>r. \<not> isAAAA r) (Answer m1) @ reverseRotateSlice bs ((ipv6Index dm1 + 1) mod length bs)\<rparr>)
      else (dm1, m1))"
    using assms(2) removeAnswers_typed [OF assms(1)] removeAnswers_typed [OF typed]
    by (auto simp: applyRoundRobin_def Let_def m1_def dm1_def as_def bs_def split: if_splits)
  have bs: "bs = filter isAAAA (Answer m1)" by (simp add: 1)
  have 2: "mset (Answer m') = mset (Answer m1)" "filter isA (Answer m') = filter isA (Answer m1)"
    "length bs > 1 \<Longrightarrow> filter isAAAA (Answer m') = reverseRotateSlice bs ((ipv6Index dm1 + 1) mod length bs)"
    using step moved_group(1) [of isAAAA] moved_group(2) [of isAAAA "Answer m1"]
      moved_group(3) [of isA isAAAA "Answer m1", OF isA_isAAAA(1)]
    unfolding bs by (auto simp del: filter_append mset_append split: if_splits)
  show "mset (Answer m') = mset (Answer m)" using 1 2 by simp
  show "m'\<lparr>Answer := a\<rparr> = m\<lparr>Answer := a\<rparr>" "dmsg dm' = dmsg dm"
    using step by (auto simp: m1_def dm1_def split: if_splits)
  show "length as > 1 \<Longrightarrow> ipv4Index dm' = (ipv4Index dm + 1) mod length as
       \<and> filter isA (Answer m') = reverseRotateSlice as (ipv4Index dm')"
    using step 1(3) 2(2) by (auto simp: dm1_def split: if_splits)
  show "length bs > 1 \<Longrightarrow> ipv6Index dm' = (ipv6Index dm + 1) mod length bs
       \<and> filter isAAAA (Answer m') = reverseRotateSlice bs (ipv6Index dm')"
    using step 2(3) by (auto simp: dm1_def split: if_splits)
qed

text \<open>The answers a cached message gives to successive queries.\<close>

fun roundRobins :: "nat \<Rightarrow> dnsMsg \<Rightarrow> Msg list" where
  "roundRobins 0 dm = []"
| "roundRobins (Suc n) dm = (let (dm', m) = RoundRobin dm in m # roundRobins n dm')"

lemma roundRobins_nth:
  assumes "typedAnswers (Answer (dmsg dm))" "i < k"
  defines "as \<equiv> filter isA (Answer (dmsg dm))"
  shows "mset (Answer (roundRobins k dm ! i)) = mset (Answer (dmsg dm))"
    "length as > 1 \<Longrightarrow> filter isA (Answer (roundRobins k dm ! i)) =
       reverseRotateSlice as ((ipv4Index dm + 1 + i) mod length as)"
proof -
  have "mset (Answer (roundRobins k dm ! i)) = mset (Answer (dmsg dm)) \<and>
    (length as > 1 \<longrightarrow> filter isA (Answer (roundRobins k dm ! i)) =
       reverseRotateSlice as ((ipv4Index dm + 1 + i) mod length as))"
    using assms(1,2) unfolding as_def
  proof (induction k arbitrary: dm i)
    case (Suc k)
    obtain dm' m where rr: "RoundRobin dm = (dm', m)" by fastforce
    note eff = applyRoundRobin_effect [OF Suc.prems(1) rr [unfolded RoundRobin_def]]
    show ?case
    proof (cases i)
      case 0
      then show ?thesis using rr eff by simp
    next
      case (Suc j)
      have "(x mod l + 1 + j) mod l = (x + 1 + j) mod l" for x l :: nat by (metis add.assoc mod_add_left_eq)
      then show ?thesis using rr eff Suc.IH [of dm' j] Suc.prems Suc by simp
    qed
  qed simp
  then show "mset (Answer (roundRobins k dm ! i)) = mset (Answer (dmsg dm))"
    "length as > 1 \<Longrightarrow> filter isA (Answer (roundRobins k dm ! i)) =
       reverseRotateSlice as ((ipv4Index dm + 1 + i) mod length as)"
    by auto
qed

lemma length_roundRobins [simp]: "length (roundRobins k dm) = k"
  by (induction k arbitrary: dm) (auto simp: Let_def split: prod.splits)

lemma reverse_residues:
  assumes "n > 0" shows "mset (map (\<lambda>i. (n - (c + i) mod n) mod n) [0..<n]) = mset [0..<n]"
proof -
  let ?g = "\<lambda>i. (n - (c + i) mod n) mod n"
  have "a = b" if "(n - a) mod n = (n - b) mod n" "a < n" "b < n" for a b
    using that by (cases "a = 0"; cases "b = 0") auto
  then have residue: "(c + i) mod n = (c + j) mod n" if "?g i = ?g j" for i j
    using that assms by (meson mod_less_divisor)
  have cancel: "i = j" if same: "(c + i) mod n = (c + j) mod n" "i < n" "j < n" for i j
  proof -
    obtain p q where "c + i + n * p = c + j + n * q" using same(1) unfolding nat_mod_eq_iff by blast
    then have "i + n * p = j + n * q" by linarith
    then have "(i + n * p) mod n = (j + n * q) mod n" by (rule arg_cong)
    then show ?thesis using same(2,3) by simp
  qed
  have inj: "inj_on ?g {0..<n}"
    by (rule inj_onI) (rule cancel [OF residue], assumption, simp_all)
  moreover have "?g ` {0..<n} \<subseteq> {0..<n}" using assms by auto
  ultimately have "?g ` {0..<n} = {0..<n}" by (intro endo_inj_surj) auto
  then show ?thesis using inj by (intro set_eq_iff_mset_eq_distinct [THEN iffD1]) (auto simp: distinct_map)
qed

text \<open>
  C15. With several IPv4 addresses in a cached answer, every answer given out
  is a permutation of the cached one, and among as many successive answers
  as there are addresses each address comes first exactly once.
\<close>

theorem round_robin_fair:
  fixes dm :: dnsMsg
  defines "as \<equiv> filter isA (Answer (dmsg dm))"
  assumes "typedAnswers (Answer (dmsg dm))" "length as > 1"
  shows "(\<forall>m\<in>set (roundRobins k dm). mset (Answer m) = mset (Answer (dmsg dm))) \<and>
    mset (map (\<lambda>m. hd (filter isA (Answer m))) (roundRobins (length as) dm)) = mset as"
proof
  show "\<forall>m\<in>set (roundRobins k dm). mset (Answer m) = mset (Answer (dmsg dm))"
    using roundRobins_nth(1) [OF assms(2)] by (auto simp: in_set_conv_nth)
  let ?n = "length as" and ?c = "ipv4Index dm + 1"
  have "map (\<lambda>m. hd (filter isA (Answer m))) (roundRobins ?n dm)
      = map (\<lambda>i. as ! ((?n - (?c + i) mod ?n) mod ?n)) [0..<?n]"
    using roundRobins_nth(2) [OF assms(2)] assms(3) unfolding as_def
    by (intro nth_equalityI) (simp_all add: reverseRotate_hd)
  also have "mset \<dots> = image_mset ((!) as) (mset (map (\<lambda>i. (?n - (?c + i) mod ?n) mod ?n) [0..<?n]))"
    by (simp add: image_mset.compositionality comp_def flip: mset_map)
  also have "\<dots> = mset (map ((!) as) [0..<?n])"
  proof -
    have "?n > 0" using assms(3) by linarith
    then show ?thesis
      using arg_cong [OF reverse_residues [of ?n ?c], of "image_mset ((!) as)"] by (simp only: mset_map)
  qed
  also have "\<dots> = mset as" by (simp only: map_nth)
  finally show "mset (map (\<lambda>m. hd (filter isA (Answer m))) (roundRobins (length as) dm)) = mset as" .
qed

definition exampleQuestion :: DNSQuestion where
  "exampleQuestion = \<lparr>QName = ''a.'', Qtype = TypeA, Qclass = ClassINET\<rparr>"

theorem round_robin_fair_witness:
  "let dm = \<lparr>ipv4Index = 0, ipv6Index = 0, dmsg = FixedResponse 1 exampleQuestion [Addr4 1, Addr4 2, Addr4 3] 60\<rparr> in
   mset (map (\<lambda>m. RRData (hd (filter isA (Answer m)))) (roundRobins 3 dm))
     = {#RA [0, 0, 0, 1], RA [0, 0, 0, 2], RA [0, 0, 0, 3]#}"
proof -
  let ?dm = "\<lparr>ipv4Index = 0, ipv6Index = 0, dmsg = FixedResponse 1 exampleQuestion [Addr4 1, Addr4 2, Addr4 3] 60\<rparr>"
  have bytes: "be_bytes 4 (Suc 0) = [0, 0, 0, 1]" "be_bytes 4 2 = [0, 0, 0, 2]" "be_bytes 4 3 = [0, 0, 0, 3]"
    by code_simp+
  have rs: "Answer (dmsg ?dm) = map (\<lambda>b. fixedRecord exampleQuestion TypeA 60 (RA [0, 0, 0, b])) [1, 2, 3]"
    using bytes by (simp add: FixedResponse_def exampleQuestion_def)
  have "typedAnswers (Answer (dmsg ?dm))" and all: "filter isA (Answer (dmsg ?dm)) = Answer (dmsg ?dm)"
    and three: "length (Answer (dmsg ?dm)) = 3"
    unfolding rs by (simp_all add: typedAnswers_def isA_def isAAAA_def)
  then have "mset (map (\<lambda>m. hd (filter isA (Answer m))) (roundRobins 3 ?dm)) = mset (Answer (dmsg ?dm))"
    using round_robin_fair [of ?dm 0, unfolded all three] by simp
  then have "image_mset RRData (mset (map (\<lambda>m. hd (filter isA (Answer m))) (roundRobins 3 ?dm))) =
      image_mset RRData (mset (Answer (dmsg ?dm)))" by simp
  then show ?thesis unfolding rs Let_def by (simp add: image_mset.compositionality comp_def)
qed

section \<open>The time to live is the least positive one\<close>

definition positiveTTLs :: "RR list \<Rightarrow> u32 list" where
  "positiveTTLs rs = filter (\<lambda>t. t > 0) (map Ttl (filter (\<lambda>r. Rrtype r \<noteq> TypeOPT) rs))"

lemma ttl_fold:
  fixes rs :: "RR list"
  defines "f \<equiv> \<lambda>t r. if Rrtype r = TypeOPT then t else if t = 0 \<or> Ttl r > 0 \<and> Ttl r < t then Ttl r else t"
  shows "t > 0 \<Longrightarrow> foldl f t rs = Min (set (t # positiveTTLs rs))"
    "foldl f 0 rs = (if positiveTTLs rs = [] then 0 else Min (set (positiveTTLs rs)))"
proof -
  have "foldl min t ps = fold min ps t" for t :: u32 and ps
    by (induction ps arbitrary: t) (simp_all add: min.commute)
  then have fold: "foldl min t ps = Min (set (t # ps))" for t :: u32 and ps
    by (simp only: Min.set_eq_fold)
  have least: "foldl f t rs = foldl min t (positiveTTLs rs)" if "t > 0" for t rs
    using that by (induction rs arbitrary: t) (auto simp: positiveTTLs_def f_def min_def)
  then show "t > 0 \<Longrightarrow> foldl f t rs = Min (set (t # positiveTTLs rs))"
    using fold by metis
  show "foldl f 0 rs = (if positiveTTLs rs = [] then 0 else Min (set (positiveTTLs rs)))"
  proof (induction rs)
    case (Cons r rs)
    show ?case
    proof (cases "Rrtype r = TypeOPT \<or> Ttl r = 0")
      case True
      then have "positiveTTLs (r # rs) = positiveTTLs rs" "foldl f 0 (r # rs) = foldl f 0 rs"
        by (auto simp: f_def positiveTTLs_def)
      then show ?thesis using Cons by (simp only:)
    next
      case False
      then have "foldl f 0 (r # rs) = foldl min (Ttl r) (positiveTTLs rs)"
        using least [of "Ttl r" rs] by (simp add: f_def word_gt_0)
      then show ?thesis using False fold [of "Ttl r"] by (simp add: positiveTTLs_def word_gt_0)
    qed
  qed (simp add: positiveTTLs_def)
qed

lemma computeTimeToLive_least:
  "Answer m \<noteq> [] \<or> extractNegativeTTL (Ns m) = None \<Longrightarrow>
   computeTimeToLive m = (let ts = positiveTTLs (Answer m @ Ns m @ Extra m) in if ts = [] then 0 else Min (set ts))"
  unfolding computeTimeToLive_def ttl_fold Let_def by auto

section \<open>The client subnet that is read is the one that was set\<close>

lemma findIndex_None: "findIndex P xs = None \<longleftrightarrow> filter P xs = []"
  by (induction xs) auto

lemma findIndex_Some:
  "findIndex P xs = Some j \<Longrightarrow> j < length xs \<and> P (xs ! j) \<and> filter P (take j xs) = []"
  by (induction xs arbitrary: j) (auto split: if_splits simp: less_Suc_eq_0_disj)

definition subnets :: "RR list \<Rightarrow> edns_option list" where
  "subnets rs = filter isSubnet (concat (map optOptions rs))"

lemma subnets_simps [simp]:
  "subnets [] = []" "subnets (r # rs) = filter isSubnet (optOptions r) @ subnets rs"
  "subnets (rs @ ss) = subnets rs @ subnets ss"
  by (simp_all add: subnets_def)

lemma optOptions_other [simp]: "\<not> isOPT r \<Longrightarrow> optOptions r = []"
  by (auto simp: isOPT_def optOptions_def split: rdata.splits)

text \<open>
  Where the message has no subnet option, none is found; where it has one,
  the loop stops at the first.
\<close>

lemma findExists_none:
  "subnets rs = [] \<Longrightarrow> findExists i cur rs = (o1, o2) \<Longrightarrow>
   o2 = None \<and> (o1 = cur \<and> rs = [] \<or> o1 = None \<or> (\<exists>k < length rs. o1 = Some (i + k) \<and> isOPT (rs ! k)))"
proof (induction rs arbitrary: i cur)
  case (Cons r rs)
  then have "findIndex isSubnet (optOptions r) = None" by (simp add: findIndex_None)
  then have "findExists (Suc i) (if isOPT r then Some i else None) rs = (o1, o2)"
    using Cons.prems(2) by (auto split: if_splits)
  then show ?case using Cons.IH [of "Suc i"] Cons.prems(1) by (fastforce split: if_splits)
qed auto

lemma findExists_some:
  assumes "subnets rs \<noteq> []"
  obtains k j where "findExists i cur rs = (Some (i + k), Some j)" "k < length rs" "isOPT (rs ! k)"
    "subnets (take k rs) = []" "findIndex isSubnet (optOptions (rs ! k)) = Some j"
proof -
  have "\<exists>k j. findExists i cur rs = (Some (i + k), Some j) \<and> k < length rs \<and> isOPT (rs ! k) \<and>
    subnets (take k rs) = [] \<and> findIndex isSubnet (optOptions (rs ! k)) = Some j"
    using assms
  proof (induction rs arbitrary: i cur)
    case (Cons r rs)
    show ?case
    proof (cases "findIndex isSubnet (optOptions r)")
      case None
      then have "filter isSubnet (optOptions r) = []" by (simp add: findIndex_None)
      moreover from this obtain k j where
        "findExists (Suc i) (if isOPT r then Some i else None) rs = (Some (Suc i + k), Some j)" "k < length rs"
        "isOPT (rs ! k)" "subnets (take k rs) = []" "findIndex isSubnet (optOptions (rs ! k)) = Some j"
        using Cons.IH [of "Suc i"] Cons.prems by fastforce
      ultimately show ?thesis using None by (intro exI [of _ "Suc k"] exI [of _ j]) (auto split: if_splits)
    next
      case (Some j)
      then have "isOPT r" using optOptions_other [of r] by fastforce
      then show ?thesis using Some by (intro exI [of _ 0] exI [of _ j]) auto
    qed
  qed simp
  then show ?thesis using that by blast
qed

lemma optOptions_set [simp]: "optOptions (setOption p s r) =
  (case s of Some j \<Rightarrow> (optOptions r)[j := subnetOf p (SourceScope (optOptions r ! j))]
   | None \<Rightarrow> optOptions r @ [subnetOf p 0])"
  by (simp add: setOption_def optOptions_def)

lemma optOptions_new: "optOptions \<lparr>RRName = n, Rrtype = t, RRClass = c, Ttl = l, RRData = ROPT opts\<rparr> = opts"
  by (simp add: optOptions_def)

lemma isSubnet_subnetOf [simp]: "isSubnet (subnetOf p s)"
  by (simp add: subnetOf_def)

lemma subnets_set:
  "\<exists>scope. subnets (Extra (setClientSubnet m p)) = subnetOf p scope # tl (subnets (Extra m))"
proof (cases "subnets (Extra m) = []")
  case True
  obtain o1 o2 where f: "findExists 0 None (Extra m) = (o1, o2)" by fastforce
  have "o2 = None" "o1 = None \<or> (\<exists>k < length (Extra m). o1 = Some k)"
    using findExists_none [OF True f] by auto
  moreover have "subnets (take k (Extra m)) = []" "subnets (drop (Suc k) (Extra m)) = []"
    "k < length (Extra m) \<Longrightarrow> filter isSubnet (optOptions (Extra m ! k)) = []" for k
    using True by (auto simp: subnets_def filter_empty_conv dest!: in_set_takeD in_set_dropD)
  ultimately show ?thesis
    using f True
    by (intro exI [of _ 0]) (auto simp: setClientSubnet_def upd_conv_take_nth_drop optOptions_new)
next
  case False
  obtain k j where f: "findExists 0 None (Extra m) = (Some (0 + k), Some j)" "k < length (Extra m)"
    "subnets (take k (Extra m)) = []" "findIndex isSubnet (optOptions (Extra m ! k)) = Some j"
    using findExists_some [OF False] by metis
  let ?os = "optOptions (Extra m ! k)"
  have j: "j < length ?os" "isSubnet (?os ! j)" "filter isSubnet (take j ?os) = []"
    using findIndex_Some [OF f(4)] by auto
  have "subnets (Extra m) = subnets (take k (Extra m) @ Extra m ! k # drop (Suc k) (Extra m))"
    using f(2) by (simp add: id_take_nth_drop [symmetric] del: subnets_simps)
  moreover have "filter isSubnet ?os = ?os ! j # filter isSubnet (drop (Suc j) ?os)"
    using j by (subst id_take_nth_drop [OF j(1)]) simp
  ultimately show ?thesis using f j
    by (intro exI [of _ "SourceScope (?os ! j)"]) (simp add: setClientSubnet_def upd_conv_take_nth_drop)
qed

text \<open>
  An OPT record in front of another additional record is not found again:
  the message gets a second one.
\<close>

lemma findExists_last:
  "subnets rs = [] \<Longrightarrow> rs \<noteq> [] \<Longrightarrow> \<not> isOPT (last rs) \<Longrightarrow> findExists i cur rs = (None, None)"
  by (induction rs arbitrary: i cur) (auto split: if_splits simp: findIndex_None [THEN iffD2])

lemma setClientSubnet_second_opt:
  assumes "subnets (Extra m) = []" "Extra m \<noteq> []" "\<not> isOPT (last (Extra m))"
  shows "length (filter isOPT (Extra (setClientSubnet m p))) = Suc (length (filter isOPT (Extra m)))"
  using findExists_last [OF assms] by (simp add: setClientSubnet_def setOption_def isOPT_def)

lemma subnets_remove: "subnets (Extra (removeClientSubnet m)) = []"
proof -
  have code: "isSubnet opt \<Longrightarrow> optionCode opt = EDNS0SUBNET" for opt by (cases opt) auto
  have "optOptions (filterOptions keep r) = filter keep (optOptions r)" for keep r
    by (auto simp: optOptions_def filterOptions_def split: rdata.splits)
  then show ?thesis
    using code by (auto simp: removeClientSubnet_def subnets_def filter_empty_conv list_ex_iff dest: code)
qed

lemma AddrFromSlice_AsSlice: "plain a \<Longrightarrow> AddrFromSlice (AsSlice a) = Some a"
proof (cases a)
  case (Addr6 v z)
  assume "plain a"
  then have "z = []" using Addr6 by (simp add: plain_def)
  moreover have "be_uint (be_bytes 16 (unat v)) = unat v"
    using unat_u128_less [of v] by (simp add: be_uint_be_bytes)
  ultimately show ?thesis using Addr6 by (simp add: AddrFromSlice_def AddrFrom16_def)
next
  case (Addr4 v)
  then show ?thesis using AddrFrom4_AsSlice [of v] by (simp add: AddrFromSlice_def)
qed (simp add: plain_def)

text \<open>
  A valid subnet set on a request, over whatever options the request has, is
  the subnet read from it, and removing the option leaves none to read.
\<close>

lemma client_subnet_read:
  assumes "plain (PrefixAddr p)" "0 \<le> PrefixBits p" "PrefixBits p \<le> BitLen (PrefixAddr p)"
  shows "clientSubnetFromMessage (setClientSubnet m p) = p"
proof -
  obtain a b where p: "p = Prefix a b" by (cases p)
  obtain scope where s: "subnets (Extra (setClientSubnet m p)) = subnetOf p scope # tl (subnets (Extra m))"
    using subnets_set by blast
  have "plain a" using assms(1) p by simp
  then have "AddrFromSlice (AsSlice a) = Some a" by (rule AddrFromSlice_AsSlice)
  moreover have "Unmap a = a" "WithZone a [] = a" using \<open>plain a\<close> by (cases a; simp add: plain_def)+
  moreover have "b < 256" using assms p by (cases a) auto
  ultimately show "clientSubnetFromMessage (setClientSubnet m p) = p"
    using s assms p by (simp add: clientSubnetFromMessage_def subnets_def [symmetric] subnetOf_def PrefixFrom_def
        plain_def uint_word_of_int)
qed

lemma client_subnet_removed: "clientSubnetFromMessage (removeClientSubnet m) = PrefixZero"
  by (simp add: clientSubnetFromMessage_def subnets_remove flip: subnets_def)

section \<open>Addresses of fixed responses, uniform times to live\<close>

lemma FixedResponse_addresses:
  assumes "addrFromIP_laws (AddrFromIP E)" "\<forall>a\<in>set addresses. plain a"
  shows "DNSResponseAddresses E (Some (FixedResponse msgId q addresses ttl)) =
    filter (\<lambda>a. if Is4 a then Qtype q = TypeA else Qtype q = TypeAAAA) addresses"
  using assms(2)
proof (induction addresses)
  case (Cons a addresses)
  have "AddrFromIP E (AsSlice a) = a" "AddrIsValid a" "Is4 a \<noteq> Is6 a"
    using assms(1) Cons.prems by (auto simp: addrFromIP_laws_def plain_def elim: AddrIsValid.elims)
  then show ?case using Cons by (auto simp: DNSResponseAddresses_def FixedResponse_def)
qed (simp add: DNSResponseAddresses_def FixedResponse_def)

lemma normalizeTTL_simps [simp]:
  "Rcode (normalizeTTL m t) = Rcode m" "MsgId (normalizeTTL m t) = MsgId m" "Questions (normalizeTTL m t) = Questions m"
  "map RRData (Answer (normalizeTTL m t)) = map RRData (Answer m)" "normalizeTTL (normalizeTTL m t) s = normalizeTTL m s"
  by (simp_all add: normalizeTTL_def Let_def comp_def)

lemma normalizeTTL_ttl:
  "r \<in> set (Answer (normalizeTTL m t)) \<union> set (Ns (normalizeTTL m t)) \<union> set (Extra (normalizeTTL m t)) \<Longrightarrow>
   Rrtype r \<noteq> TypeOPT \<Longrightarrow> Ttl r = t"
  by (auto simp: normalizeTTL_def Let_def)

lemma same_data_addresses:
  assumes "Rcode m = Rcode m'" "map RRData (Answer m) = map RRData (Answer m')"
  shows "DNSResponseAddresses E (Some m) = DNSResponseAddresses E (Some m')"
  using arg_cong [OF assms(2), of "map (record_addresses E)"] assms(1)
  by (simp add: DNSResponseAddresses_def comp_def)

lemma normalizeTTL_addresses [simp]:
  "DNSResponseAddresses E (Some (normalizeTTL m t)) = DNSResponseAddresses E (Some m)"
  by (rule same_data_addresses) simp_all

end
