(* ===== verification/DNSClient.thy ===== *)
theory DNSClient
  imports DNSMessage
begin

text \<open>
  The DNS client, \<^verbatim>\<open>dns/client.go\<close>: its caches (in memory or in a store that
  survives restarts), the keys of the caches, and an exchange with a
  transport from the cache lookup to the answer given out. The libraries the
  client calls (\<^verbatim>\<open>miekg/dns\<close>, the LRU cache of \<^verbatim>\<open>sing\<close>) are records of
  functions, and so is the store, \<^verbatim>\<open>adapter.DNSCacheStore\<close> with
  \<^verbatim>\<open>adapter.RDRCStore\<close>. Cached messages are shared by pointer and their
  counters change in place: they live in the list \<open>objects\<close>, and a pointer
  is an index. Times are nanoseconds since 1970.
\<close>

section \<open>Keys and options\<close>

record DNSQueryOptions =
  qStrategy :: DomainStrategy
  qLookupStrategy :: DomainStrategy
  qDisableCache :: bool
  qDisableOptimisticCache :: bool
  qRewriteTTL :: "u32 option"
  qTimeout :: int
  qClientSubnet :: Prefix
  qRemoveClientSubnet :: bool

record dnsCacheKey =
  keyQuestion :: DNSQuestion
  transportTag :: string
  keySubnet :: Prefix
  environment :: u64

type_synonym dnsExchangeKey = "dnsCacheKey \<times> int"

text \<open>\<^verbatim>\<open>strconv.FormatUint\<close> with base 36, and the 64-bit FNV-1a hash of \<^verbatim>\<open>hash/fnv\<close>.\<close>

definition digit36 :: "nat \<Rightarrow> char" where
  "digit36 d = ''0123456789abcdefghijklmnopqrstuvwxyz'' ! d"

fun FormatUint36 :: "nat \<Rightarrow> string" where
  "FormatUint36 n = (if n < 36 then [digit36 n] else FormatUint36 (n div 36) @ [digit36 (n mod 36)])"

definition fnv64a :: "bytes \<Rightarrow> u64" where
  "fnv64a data = foldl (\<lambda>hash b. (hash XOR ucast b) * 1099511628211) 14695981039346656037 data"

definition persistentName :: "(Prefix \<Rightarrow> string) \<Rightarrow> dnsCacheKey \<Rightarrow> string" where
  "persistentName prefixString k =
     transportTag k
     @ (if PrefixIsValid (keySubnet k) then CHR 0x00 # prefixString (keySubnet k) else [])
     @ (if environment k \<noteq> 0 then CHR 0x01 # FormatUint36 (unat (environment k)) else [])"

section \<open>What the client calls\<close>

record dnsLib =
  Fqdn :: "string \<Rightarrow> string"
  IsFqdn :: "string \<Rightarrow> bool"
  IsEdns0 :: "Msg \<Rightarrow> RR option"
  OptVersion :: "RR \<Rightarrow> u8"
  OptUDPSize :: "RR \<Rightarrow> u16"
  OptDo :: "RR \<Rightarrow> bool"
  SetEdns0 :: "Msg \<Rightarrow> u16 \<Rightarrow> bool \<Rightarrow> Msg"
  PackMsg :: "Msg \<Rightarrow> bytes option"
  UnpackMsg :: "bytes \<Rightarrow> Msg option"

text \<open>The LRU cache holds pointers; a read moves the entry to the front.\<close>

record 'l lruLib =
  lruNew :: "u32 \<Rightarrow> 'l"
  lruAdd :: "'l \<Rightarrow> dnsCacheKey \<Rightarrow> nat \<Rightarrow> 'l"
  lruAddWithLifetime :: "'l \<Rightarrow> dnsCacheKey \<Rightarrow> nat \<Rightarrow> int \<Rightarrow> int \<Rightarrow> 'l"
  lruGet :: "'l \<Rightarrow> dnsCacheKey \<Rightarrow> int \<Rightarrow> nat option \<times> 'l"
  lruGetNoExpire :: "'l \<Rightarrow> dnsCacheKey \<Rightarrow> (nat \<times> int) option \<times> 'l"
  lruRemove :: "'l \<Rightarrow> dnsCacheKey \<Rightarrow> 'l"
  lruPurge :: "'l \<Rightarrow> 'l"

record 's dnsStore =
  sLoadDNSCache :: "'s \<Rightarrow> saveCacheKey \<Rightarrow> (bytes \<times> int) option"
  sSaveDNSCacheAsync :: "'s \<Rightarrow> saveCacheKey \<Rightarrow> bytes \<Rightarrow> int \<Rightarrow> 's"
  sDeleteDNSCache :: "'s \<Rightarrow> saveCacheKey \<Rightarrow> bytes \<Rightarrow> 's"
  sClearDNSCache :: "'s \<Rightarrow> 's"
  sLoadRDRC :: "'s \<Rightarrow> int \<Rightarrow> saveCacheKey \<Rightarrow> bool"
  sSaveRDRCAsync :: "'s \<Rightarrow> saveCacheKey \<Rightarrow> 's"

record ('l, 's) clientDeps =
  libEnv :: env
  libDNS :: dnsLib
  libLRU :: "'l lruLib"
  libStore :: "'s dnsStore"

text \<open>
  What a call reads from outside: the time, the network environment, and the
  environment of the transport where it has one.
\<close>

record moment =
  timeNow :: int
  NetworkEnvironment :: u64
  transportEnvironment :: "string list option"

datatype dns_error =
    ErrContext | ErrLoopback string | ErrResponseRejected | ErrResponseRejectedCached
  | ErrNotCached | RcodeError int | ErrTransport nat

section \<open>The client\<close>

text \<open>A refresh in the background, started for a stale answer.\<close>

record refreshJob =
  jobMessage :: Msg
  jobOptions :: DNSQueryOptions
  jobChecker :: "(Msg \<Rightarrow> bool) option"

text \<open>
  The stores are either nil or the one store of the client; the functions
  that provide them at the start say which. A held lock is a key of
  \<open>cacheLock\<close>, a running refresh an entry of \<open>backgroundRefresh\<close>.
\<close>

record ('l, 's) Client =
  cTimeout :: int
  cDisableCache :: bool
  cDisableExpire :: bool
  cOptimisticTimeout :: int
  cacheCapacity :: u32
  roundRobinCache :: bool
  minCacheTTL :: u32
  maxCacheTTL :: u32
  clientSubnet :: Prefix
  cRDRC :: bool
  initRDRCFunc :: "bool option"
  cDNSCache :: bool
  initDNSCacheFunc :: "bool option"
  networkManager :: bool
  cCache :: "'l option"
  roundRobinIndex :: "'l option"
  cacheLock :: "dnsExchangeKey list"
  backgroundRefresh :: "(dnsCacheKey \<times> refreshJob) list"
  cStore :: 's
  objects :: "dnsMsg list"

record ClientOptions =
  oTimeout :: int
  oDisableCache :: bool
  oDisableExpire :: bool
  oOptimisticTimeout :: int
  oRoundRobinCache :: bool
  oCacheCapacity :: u32
  oMinCacheTTL :: u32
  oMaxCacheTTL :: u32
  oClientSubnet :: Prefix
  oRDRC :: "bool option"
  oDNSCache :: "bool option"

abbreviation DNSTimeout :: int where "DNSTimeout \<equiv> 10 * second"

definition initializeMemoryCache :: "('l, 's) clientDeps \<Rightarrow> ('l, 's) Client \<Rightarrow> ('l, 's) Client" where
  "initializeMemoryCache D c =
     (if cDisableCache c \<or> cCache c \<noteq> None then c
      else c\<lparr>cCache := Some (lruNew (libLRU D) (cacheCapacity c))\<rparr>)"

definition NewClient :: "('l, 's) clientDeps \<Rightarrow> ClientOptions \<Rightarrow> 's \<Rightarrow> ('l, 's) Client" where
  "NewClient D opts s =
     (let c = \<lparr>cTimeout = (if oTimeout opts = 0 then DNSTimeout else oTimeout opts),
               cDisableCache = oDisableCache opts, cDisableExpire = oDisableExpire opts,
               cOptimisticTimeout = oOptimisticTimeout opts, cacheCapacity = max (oCacheCapacity opts) 1024,
               roundRobinCache = oRoundRobinCache opts, minCacheTTL = oMinCacheTTL opts,
               maxCacheTTL = (if oMaxCacheTTL opts > 0 \<and> oMinCacheTTL opts > oMaxCacheTTL opts
                              then oMinCacheTTL opts else oMaxCacheTTL opts),
               clientSubnet = oClientSubnet opts, cRDRC = False, initRDRCFunc = oRDRC opts,
               cDNSCache = False, initDNSCacheFunc = oDNSCache opts, networkManager = False,
               cCache = None, roundRobinIndex = None, cacheLock = [], backgroundRefresh = [],
               cStore = s, objects = []\<rparr>
      in if \<not> cDisableCache c \<and> initDNSCacheFunc c = None then initializeMemoryCache D c else c)"

definition Client_Start :: "('l, 's) clientDeps \<Rightarrow> bool \<Rightarrow> ('l, 's) Client \<Rightarrow> ('l, 's) Client" where
  "Client_Start D manager c =
     (let c1 = c\<lparr>networkManager := manager,
                 cRDRC := (case initRDRCFunc c of None \<Rightarrow> cRDRC c | Some store \<Rightarrow> store),
                 cDNSCache := (case initDNSCacheFunc c of None \<Rightarrow> cDNSCache c | Some store \<Rightarrow> store)\<rparr>
      in if \<not> cDNSCache c1 then initializeMemoryCache D c1
         else if roundRobinCache c1 then c1\<lparr>roundRobinIndex := Some (lruNew (libLRU D) (cacheCapacity c1))\<rparr>
         else c1)"

definition environmentHash :: "('l, 's) Client \<Rightarrow> moment \<Rightarrow> u64" where
  "environmentHash c w =
     (case transportEnvironment w of
        None \<Rightarrow> 0
      | Some env \<Rightarrow>
          (let networkEnvironment = (if networkManager c then NetworkEnvironment w else 0) in
           if env = [] then networkEnvironment
           else fnv64a (concat (map (\<lambda>entry. str_bytes entry @ [0]) env) @ be_bytes 8 (unat networkEnvironment))))"

definition newCacheKey ::
  "('l, 's) Client \<Rightarrow> moment \<Rightarrow> string \<Rightarrow> DNSQuestion \<Rightarrow> Msg \<Rightarrow> DNSQueryOptions \<Rightarrow> dnsCacheKey" where
  "newCacheKey c w tag question message options =
     \<lparr>keyQuestion = question, transportTag = tag,
      keySubnet =
        (if qRemoveClientSubnet options then PrefixZero
         else if PrefixIsValid (qClientSubnet options) then qClientSubnet options
         else if PrefixIsValid (clientSubnet c) then clientSubnet c
         else clientSubnetFromMessage message),
      environment = environmentHash c w\<rparr>"

definition finishCacheKey :: "('l, 's) Client \<Rightarrow> moment \<Rightarrow> dnsCacheKey \<Rightarrow> dnsCacheKey option" where
  "finishCacheKey c w k =
     (if environmentHash c w = environment k \<or> environment k = 0
      then Some (k\<lparr>environment := environmentHash c w\<rparr>) else None)"

definition prepareExchangeMessage :: "('l, 's) Client \<Rightarrow> Msg \<Rightarrow> DNSQueryOptions \<Rightarrow> Msg" where
  "prepareExchangeMessage c message options =
     (if qRemoveClientSubnet options then removeClientSubnet message
      else
        (let subnet = (if PrefixIsValid (qClientSubnet options) then qClientSubnet options else clientSubnet c) in
         if PrefixIsValid subnet then setClientSubnet message subnet else message))"

definition FqdnToDomain :: "dnsLib \<Rightarrow> string \<Rightarrow> string" where
  "FqdnToDomain L fqdn = (if IsFqdn L fqdn then butlast fqdn else fqdn)"

section \<open>The caches\<close>

abbreviation storeKey :: "('l, 's) clientDeps \<Rightarrow> dnsCacheKey \<Rightarrow> saveCacheKey" where
  "storeKey D k \<equiv> \<lparr>TransportName = persistentName (PrefixString (libEnv D)) k,
     QuestionName = QName (keyQuestion k), KeyQType = Qtype (keyQuestion k)\<rparr>"

abbreviation rdrcKey :: "string \<Rightarrow> DNSQuestion \<Rightarrow> saveCacheKey" where
  "rdrcKey tag question \<equiv> \<lparr>TransportName = tag, QuestionName = QName question, KeyQType = Qtype question\<rparr>"

definition storeCache ::
  "('l, 's) clientDeps \<Rightarrow> ('l, 's) Client \<Rightarrow> int \<Rightarrow> dnsCacheKey \<Rightarrow> Msg \<Rightarrow> u32 \<Rightarrow> ('l, 's) Client" where
  "storeCache D c now k message timeToLive =
     (if timeToLive = 0 then c
      else if cDNSCache c then
        (case PackMsg (libDNS D) message of
           None \<Rightarrow> c
         | Some packed \<Rightarrow>
             c\<lparr>cStore := sSaveDNSCacheAsync (libStore D) (cStore c) (storeKey D k) packed
                           (now + second * uint timeToLive)\<rparr>)
      else
        (case cCache c of
           None \<Rightarrow> c
         | Some l \<Rightarrow>
             (let pointer = length (objects c);
                  c1 = c\<lparr>objects := objects c @ [\<lparr>ipv4Index = 0, ipv6Index = 0, dmsg = message\<rparr>]\<rparr>
              in if cDisableExpire c then c1\<lparr>cCache := Some (lruAdd (libLRU D) l k pointer)\<rparr>
                 else c1\<lparr>cCache := Some (lruAddWithLifetime (libLRU D) l k pointer now
                                            (second * uint timeToLive))\<rparr>)))"

definition getRoundRobin :: "('l, 's) Client \<Rightarrow> nat \<Rightarrow> Msg \<times> ('l, 's) Client" where
  "getRoundRobin c pointer =
     (if roundRobinCache c then
        (let (dm, m) = RoundRobin (objects c ! pointer) in (m, c\<lparr>objects := (objects c)[pointer := dm]\<rparr>))
      else (dmsg (objects c ! pointer), c))"

text \<open>
  A time to live from the remaining nanoseconds: whole seconds, where the
  code rounds down a floating point number.
\<close>

definition remainingTTL :: "int \<Rightarrow> int \<Rightarrow> int" where
  "remainingTTL expireAt now = max ((expireAt - now) div second) 0"

definition loadPersistentResponse ::
  "('l, 's) clientDeps \<Rightarrow> ('l, 's) Client \<Rightarrow> int \<Rightarrow> dnsCacheKey \<Rightarrow> (Msg \<times> int \<times> bool) option \<times> ('l, 's) Client" where
  "loadPersistentResponse D c now k =
     (case sLoadDNSCache (libStore D) (cStore c) (storeKey D k) of
        None \<Rightarrow> (None, c)
      | Some (rawMessage, expireAt) \<Rightarrow>
          (case UnpackMsg (libDNS D) rawMessage of
             None \<Rightarrow>
               (None, c\<lparr>cStore := sDeleteDNSCache (libStore D) (cStore c) (storeKey D k) rawMessage\<rparr>)
           | Some response \<Rightarrow>
               if cDisableExpire c then (Some (response, 0, False), c)
               else if now > expireAt then
                 (if cOptimisticTimeout c > 0 \<and> now < expireAt + cOptimisticTimeout c
                  then (Some (normalizeTTL response 1, 0, True), c) else (None, c))
               else
                 (let nowTTL = remainingTTL expireAt now in
                  (Some (normalizeTTL response (word_of_int nowTTL), nowTTL, False), c))))"

text \<open>The counters of a persistent answer are kept apart, in \<open>roundRobinIndex\<close>.\<close>

definition rotatePersistent ::
  "('l, 's) clientDeps \<Rightarrow> ('l, 's) Client \<Rightarrow> int \<Rightarrow> dnsCacheKey \<Rightarrow> Msg \<Rightarrow> Msg \<times> ('l, 's) Client" where
  "rotatePersistent D c now k response =
     (case roundRobinIndex c of
        None \<Rightarrow> (response, c)
      | Some index \<Rightarrow>
          (case lruGet (libLRU D) index k now of
             (Some pointer, index') \<Rightarrow>
               (let (state, m) = applyRoundRobin (objects c ! pointer) response in
                (m, c\<lparr>roundRobinIndex := Some index', objects := (objects c)[pointer := state]\<rparr>))
           | (None, index') \<Rightarrow>
               (let (state, m) = applyRoundRobin \<lparr>ipv4Index = 0, ipv6Index = 0, dmsg = response\<rparr> response in
                (m, c\<lparr>roundRobinIndex := Some (lruAdd (libLRU D) index' k (length (objects c))),
                      objects := objects c @ [state]\<rparr>))))"

definition loadResponse ::
  "('l, 's) clientDeps \<Rightarrow> ('l, 's) Client \<Rightarrow> int \<Rightarrow> dnsCacheKey \<Rightarrow> (Msg \<times> int \<times> bool) option \<times> ('l, 's) Client" where
  "loadResponse D c now k =
     (if cDNSCache c then
        (case loadPersistentResponse D c now k of
           (None, c1) \<Rightarrow> (None, c1)
         | (Some (response, ttl, isStale), c1) \<Rightarrow>
             (let (m, c2) = rotatePersistent D c1 now k response in (Some (m, ttl, isStale), c2)))
      else
        (case cCache c of
           None \<Rightarrow> (None, c)
         | Some l \<Rightarrow>
             if cDisableExpire c then
               (case lruGet (libLRU D) l k now of
                  (None, l') \<Rightarrow> (None, c\<lparr>cCache := Some l'\<rparr>)
                | (Some cached, l') \<Rightarrow>
                    (let (m, c1) = getRoundRobin (c\<lparr>cCache := Some l'\<rparr>) cached in (Some (m, 0, False), c1)))
             else
               (case lruGetNoExpire (libLRU D) l k of
                  (None, l') \<Rightarrow> (None, c\<lparr>cCache := Some l'\<rparr>)
                | (Some (cached, expireAt), l') \<Rightarrow>
                    (let c1 = c\<lparr>cCache := Some l'\<rparr> in
                     if now > expireAt then
                       (if cOptimisticTimeout c > 0 \<and> now < expireAt + cOptimisticTimeout c then
                          (let (m, c2) = getRoundRobin c1 cached in (Some (normalizeTTL m 1, 0, True), c2))
                        else (None, c1\<lparr>cCache := Some (lruRemove (libLRU D) l' k)\<rparr>))
                     else
                       (let nowTTL = remainingTTL expireAt now; (m, c2) = getRoundRobin c1 cached in
                        (Some (normalizeTTL m (word_of_int nowTTL), nowTTL, False), c2))))))"

definition ClearCache :: "('l, 's) clientDeps \<Rightarrow> ('l, 's) Client \<Rightarrow> ('l, 's) Client" where
  "ClearCache D c =
     (let c1 = c\<lparr>cCache := map_option (lruPurge (libLRU D)) (cCache c)\<rparr> in
      if cDNSCache c1 then c1\<lparr>cStore := sClearDNSCache (libStore D) (cStore c1)\<rparr> else c1)"

section \<open>Exchanges\<close>

fun svcbKey :: "svcb_value \<Rightarrow> nat" where
  "svcbKey (SVCBIPv4Hint _) = 4"
| "svcbKey (SVCBIPv6Hint _) = 6"
| "svcbKey (SVCBOther n) = n"

definition filterHints :: "DomainStrategy \<Rightarrow> RR \<Rightarrow> RR" where
  "filterHints strategy rr =
     (case RRData rr of
        RHTTPS values \<Rightarrow>
          rr\<lparr>RRData := RHTTPS (filter (\<lambda>it. if strategy = DomainStrategyIPv4Only then svcbKey it \<noteq> 6
                                             else svcbKey it \<noteq> 4) values)\<rparr>
      | _ \<Rightarrow> rr)"

definition applyResponseOptions ::
  "('l, 's) Client \<Rightarrow> DNSQuestion \<Rightarrow> Msg \<Rightarrow> DNSQueryOptions \<Rightarrow> u32 \<times> Msg" where
  "applyResponseOptions c question response options =
     (let response1 =
            (if Qtype question = TypeHTTPS \<and>
                (qStrategy options = DomainStrategyIPv4Only \<or> qStrategy options = DomainStrategyIPv6Only)
             then response\<lparr>Answer := map (filterHints (qStrategy options)) (Answer response)\<rparr> else response);
          ttl1 = max (computeTimeToLive response1) (minCacheTTL c);
          ttl2 = (if maxCacheTTL c > 0 then min ttl1 (maxCacheTTL c) else ttl1);
          timeToLive = (case qRewriteTTL options of Some ttl \<Rightarrow> ttl | None \<Rightarrow> ttl2)
      in (timeToLive, normalizeTTL response1 timeToLive))"

definition exchangeToTransport :: "(Msg \<Rightarrow> dns_error + Msg) \<Rightarrow> Msg \<Rightarrow> dns_error + Msg" where
  "exchangeToTransport transport message =
     (case transport message of
        Inr response \<Rightarrow> Inr (stripDNSPadding response)
      | Inl (RcodeError rcode) \<Rightarrow> Inr (FixedResponseStatus message rcode)
      | Inl err \<Rightarrow> Inl err)"

text \<open>\<^verbatim>\<open>LoadOrStore\<close> starts a refresh only where none runs for the key.\<close>

definition backgroundRefreshDNS :: "('l, 's) Client \<Rightarrow> dnsCacheKey \<Rightarrow> refreshJob \<Rightarrow> ('l, 's) Client" where
  "backgroundRefreshDNS c k job =
     (if map_of (backgroundRefresh c) k \<noteq> None then c
      else c\<lparr>backgroundRefresh := (k, job) # backgroundRefresh c\<rparr>)"

definition badRcode :: "Msg \<Rightarrow> bool" where
  "badRcode response \<longleftrightarrow> Rcode response \<noteq> RcodeSuccess \<and> Rcode response \<noteq> RcodeNameError"

text \<open>The goroutine of a refresh, with the answer of the transport.\<close>

definition runRefresh ::
  "('l, 's) clientDeps \<Rightarrow> ('l, 's) Client \<Rightarrow> moment \<Rightarrow> dnsCacheKey \<Rightarrow> refreshJob
     \<Rightarrow> (Msg \<Rightarrow> dns_error + Msg) \<Rightarrow> ('l, 's) Client" where
  "runRefresh D c w k job transport =
     (let c1 = c\<lparr>backgroundRefresh := AList.delete k (backgroundRefresh c)\<rparr> in
      case exchangeToTransport transport (jobMessage job) of
        Inl _ \<Rightarrow> c1
      | Inr response \<Rightarrow>
          if (case jobChecker job of Some check \<Rightarrow> badRcode response \<or> \<not> check response | None \<Rightarrow> False) then
            (if cRDRC c1
             then c1\<lparr>cStore := sSaveRDRCAsync (libStore D) (cStore c1) (rdrcKey (transportTag k) (keyQuestion k))\<rparr>
             else c1)
          else if jobChecker job = None \<and> badRcode response then c1
          else
            (case finishCacheKey c1 w k of
               None \<Rightarrow> c1
             | Some k' \<Rightarrow>
                 (let (timeToLive, m) = applyResponseOptions c1 (keyQuestion k) response (jobOptions job)
                  in storeCache D c1 (timeNow w) k' m timeToLive)))"

record exchangeOperation =
  opMessage :: Msg
  opQuestion :: DNSQuestion
  opMessageId :: u16
  opOptions :: DNSQueryOptions
  opChecker :: "(Msg \<Rightarrow> bool) option"
  opDisableCache :: bool
  opCacheKey :: dnsCacheKey
  releaseCond :: "dnsExchangeKey option"

definition release :: "('l, 's) Client \<Rightarrow> dnsExchangeKey option \<Rightarrow> ('l, 's) Client" where
  "release c cond = (case cond of None \<Rightarrow> c | Some k \<Rightarrow> c\<lparr>cacheLock := removeAll k (cacheLock c)\<rparr>)"

text \<open>
  The type assertion on an OPT header over other data panics: \<open>None\<close>.
\<close>

definition isSimpleRequest :: "Msg \<Rightarrow> bool option" where
  "isSimpleRequest message =
     (if length (Questions message) = 1 \<and> Ns message = [] then
        (case Extra message of
           [] \<Rightarrow> Some True
         | [record] \<Rightarrow>
             if Rrtype record = TypeOPT \<and> RRClass record > 0 \<and> Ttl record = 0 then
               (if isOPT record then Some (list_all (\<lambda>it. optionCode it = EDNS0SUBNET) (optOptions record)) else None)
             else Some False
         | _ \<Rightarrow> Some False)
      else Some False)"

text \<open>
  What an exchange meets while it runs: its context, the moments at which it
  begins and finishes, what happens to the client while it waits for another
  exchange with the same key and whether the wait ends with the context, and
  what happens to the client while the transport works.
\<close>

record ('l, 's) exchangeRun =
  runTag :: string
  runCtxErr :: bool
  runCtxTag :: "string option"
  runBegin :: moment
  runWait :: "('l, 's) Client \<Rightarrow> ('l, 's) Client \<times> moment \<times> bool"
  runTransport :: "Msg \<Rightarrow> dns_error + Msg"
  runOthers :: "('l, 's) Client \<Rightarrow> ('l, 's) Client"
  runFinish :: moment

text \<open>
  How beginning an exchange ends. An operation that has to wait for another
  one is carried along, for the exchange that resumes it.
\<close>

datatype begun =
    ExchangeDone "Msg option" "dns_error option"
  | ExchangeWait exchangeOperation
  | ExchangeReady exchangeOperation
  | ExchangePanic

text \<open>One round of the cache loop: an answer from the cache, or none.\<close>

definition cachedAnswer ::
  "('l, 's) clientDeps \<Rightarrow> ('l, 's) Client \<Rightarrow> int \<Rightarrow> dnsCacheKey \<Rightarrow> exchangeOperation \<Rightarrow> Msg option \<times> ('l, 's) Client" where
  "cachedAnswer D c now k opr =
     (case loadResponse D c now k of
        (None, c1) \<Rightarrow> (None, c1)
      | (Some (response, _, isStale), c1) \<Rightarrow>
          if isStale \<and> \<not> qDisableOptimisticCache (opOptions opr) then
            (Some (response\<lparr>MsgId := opMessageId opr\<rparr>),
             release (backgroundRefreshDNS c1 k
               \<lparr>jobMessage = opMessage opr, jobOptions = opOptions opr, jobChecker = opChecker opr\<rparr>) (releaseCond opr))
          else if \<not> isStale then (Some (response\<lparr>MsgId := opMessageId opr\<rparr>), release c1 (releaseCond opr))
          else (None, c1))"

text \<open>After the cache: the loopback check and the rejected queries.\<close>

definition checkTransport ::
  "('l, 's) clientDeps \<Rightarrow> ('l, 's) Client \<Rightarrow> ('l, 's) exchangeRun \<Rightarrow> moment \<Rightarrow> exchangeOperation
     \<Rightarrow> begun \<times> ('l, 's) Client" where
  "checkTransport D c r w opr =
     (if runCtxTag r = Some (runTag r) then
        (ExchangeDone None (Some (ErrLoopback (runTag r))), release c (releaseCond opr))
      else if \<not> opDisableCache opr \<and> opChecker opr \<noteq> None \<and> cRDRC c \<and>
          sLoadRDRC (libStore D) (cStore c) (timeNow w) (rdrcKey (runTag r) (opQuestion opr)) then
        (ExchangeDone None (Some ErrResponseRejectedCached), release c (releaseCond opr))
      else (ExchangeReady opr, c))"

text \<open>What follows the wait, with the key computed again.\<close>

definition resumeExchange ::
  "('l, 's) clientDeps \<Rightarrow> ('l, 's) Client \<Rightarrow> ('l, 's) exchangeRun \<Rightarrow> moment \<Rightarrow> exchangeOperation
     \<Rightarrow> begun \<times> ('l, 's) Client" where
  "resumeExchange D c r w opr =
     (let k = newCacheKey c w (runTag r) (opQuestion opr) (opMessage opr) (opOptions opr);
          opr2 = opr\<lparr>opCacheKey := k\<rparr>
      in case cachedAnswer D c (timeNow w) k opr2 of
           (Some response, c1) \<Rightarrow> (ExchangeDone (Some response) None, c1)
         | (None, c1) \<Rightarrow> checkTransport D c1 r w opr2)"

text \<open>The operation of a request, before the lock, and how it goes on.\<close>

definition newOperation ::
  "('l, 's) Client \<Rightarrow> ('l, 's) exchangeRun \<Rightarrow> DNSQuestion \<Rightarrow> bool \<Rightarrow> Msg \<Rightarrow> DNSQueryOptions
     \<Rightarrow> (Msg \<Rightarrow> bool) option \<Rightarrow> exchangeOperation" where
  "newOperation c r question simple message0 options checker =
     (let message = prepareExchangeMessage c message0 options in
      \<lparr>opMessage = message, opQuestion = question, opMessageId = MsgId message, opOptions = options,
       opChecker = checker, opDisableCache = (\<not> simple \<or> cDisableCache c \<or> qDisableCache options),
       opCacheKey = newCacheKey c (runBegin r) (runTag r) question message options, releaseCond = None\<rparr>)"

definition beginOperation ::
  "('l, 's) clientDeps \<Rightarrow> ('l, 's) Client \<Rightarrow> ('l, 's) exchangeRun \<Rightarrow> exchangeOperation \<Rightarrow> bool
     \<Rightarrow> begun \<times> ('l, 's) Client" where
  "beginOperation D c r opr0 allowWait =
     (if opDisableCache opr0 then checkTransport D c r (runBegin r) opr0
      else
        (let lock = (opCacheKey opr0, qTimeout (opOptions opr0));
             loaded = (lock \<in> set (cacheLock c));
             opr = (if loaded then opr0 else opr0\<lparr>releaseCond := Some lock\<rparr>);
             c0 = (if loaded then c else c\<lparr>cacheLock := lock # cacheLock c\<rparr>)
         in case cachedAnswer D c0 (timeNow (runBegin r)) (opCacheKey opr) opr of
              (Some response, c1) \<Rightarrow> (ExchangeDone (Some response) None, c1)
            | (None, c1) \<Rightarrow>
                if \<not> loaded then checkTransport D c1 r (runBegin r) opr
                else if \<not> allowWait then (ExchangeWait opr, c1)
                else
                  (let (c2, w, ended) = runWait r c1 in
                   if ended then (ExchangeDone None (Some ErrContext), c2) else resumeExchange D c2 r w opr)))"

definition beginExchange ::
  "('l, 's) clientDeps \<Rightarrow> ('l, 's) Client \<Rightarrow> ('l, 's) exchangeRun \<Rightarrow> Msg \<Rightarrow> DNSQueryOptions
     \<Rightarrow> (Msg \<Rightarrow> bool) option \<Rightarrow> bool \<Rightarrow> begun \<times> ('l, 's) Client" where
  "beginExchange D c r message options checker allowWait =
     (if runCtxErr r then (ExchangeDone None (Some ErrContext), c)
      else
        (case Questions message of
           [] \<Rightarrow> (ExchangeDone (Some (FixedResponseStatus message RcodeFormatError)) None, c)
         | question # _ \<Rightarrow>
             if Qtype question = TypeA \<and> qStrategy options = DomainStrategyIPv6Only \<or>
                Qtype question = TypeAAAA \<and> qStrategy options = DomainStrategyIPv4Only
             then (ExchangeDone (Some (FixedResponseStatus message RcodeSuccess)) None, c)
             else
               (case isSimpleRequest message of
                  None \<Rightarrow> (ExchangePanic, c)
                | Some simple \<Rightarrow>
                    beginOperation D c r (newOperation c r question simple message options checker) allowWait)))"

definition fixEDNS :: "dnsLib \<Rightarrow> Msg \<Rightarrow> Msg \<Rightarrow> Msg" where
  "fixEDNS L request response =
     (case IsEdns0 L response of
        None \<Rightarrow> response
      | Some responseOpt \<Rightarrow>
          if (case IsEdns0 L request of None \<Rightarrow> True | Some requestOpt \<Rightarrow> OptVersion L requestOpt < OptVersion L responseOpt)
          then
            (let stripped = response\<lparr>Extra := filter (\<lambda>it. Rrtype it \<noteq> TypeOPT) (Extra response)\<rparr> in
             if IsEdns0 L request \<noteq> None then SetEdns0 L stripped (OptUDPSize L responseOpt) (OptDo L responseOpt)
             else stripped)
          else response)"

definition finishExchange ::
  "('l, 's) clientDeps \<Rightarrow> ('l, 's) Client \<Rightarrow> string \<Rightarrow> moment \<Rightarrow> exchangeOperation \<Rightarrow> Msg
     \<Rightarrow> (Msg \<times> dns_error option) \<times> ('l, 's) Client" where
  "finishExchange D c tag w opr response =
     (let off = (opDisableCache opr \<or> badRcode response) in
      if (case opChecker opr of None \<Rightarrow> False | Some check \<Rightarrow> badRcode response \<or> \<not> check response) then
        ((response, Some ErrResponseRejected),
         if \<not> off \<and> cRDRC c
         then c\<lparr>cStore := sSaveRDRCAsync (libStore D) (cStore c) (rdrcKey tag (opQuestion opr))\<rparr> else c)
      else
        (let (timeToLive, m) = applyResponseOptions c (opQuestion opr) response (opOptions opr);
             c1 = (if off then c
                   else (case finishCacheKey c w (opCacheKey opr) of
                           None \<Rightarrow> c
                         | Some k \<Rightarrow> storeCache D c (timeNow w) k m timeToLive))
         in ((fixEDNS (libDNS D) (opMessage opr) (m\<lparr>MsgId := opMessageId opr\<rparr>), None), c1)))"

type_synonym exchange_result = "Msg option \<times> dns_error option"

text \<open>A panic is \<open>None\<close>.\<close>

definition Exchange ::
  "('l, 's) clientDeps \<Rightarrow> ('l, 's) Client \<Rightarrow> ('l, 's) exchangeRun \<Rightarrow> Msg \<Rightarrow> DNSQueryOptions
     \<Rightarrow> (Msg \<Rightarrow> bool) option \<Rightarrow> exchange_result option \<times> ('l, 's) Client" where
  "Exchange D c r message options0 checker =
     (let options = (if qTimeout options0 = 0 then options0\<lparr>qTimeout := cTimeout c\<rparr> else options0) in
      case beginExchange D c r message options checker True of
        (ExchangeDone response err, c1) \<Rightarrow> (Some (response, err), c1)
      | (ExchangeWait _, c1) \<Rightarrow> (Some (None, None), c1)
      | (ExchangePanic, c1) \<Rightarrow> (None, c1)
      | (ExchangeReady opr, c1) \<Rightarrow>
          (case exchangeToTransport (runTransport r) (opMessage opr) of
             Inl err \<Rightarrow> (Some (None, Some err), release (runOthers r c1) (releaseCond opr))
           | Inr response \<Rightarrow>
               (let ((m, err), c2) = finishExchange D (runOthers r c1) (runTag r) (runFinish r) opr response
                in (Some (Some m, err), release c2 (releaseCond opr)))))"

text \<open>
  The callback form: it never waits itself; where it would, an \<open>Exchange\<close>
  of its own (with the run \<open>r2\<close>) takes over.
\<close>

definition ExchangeAsync ::
  "('l, 's) clientDeps \<Rightarrow> ('l, 's) Client \<Rightarrow> ('l, 's) exchangeRun \<Rightarrow> ('l, 's) exchangeRun \<Rightarrow> Msg \<Rightarrow> DNSQueryOptions
     \<Rightarrow> (Msg \<Rightarrow> bool) option \<Rightarrow> exchange_result option \<times> ('l, 's) Client" where
  "ExchangeAsync D c r r2 message options0 checker =
     (let options = (if qTimeout options0 = 0 then options0\<lparr>qTimeout := cTimeout c\<rparr> else options0) in
      case beginExchange D c r message options checker False of
        (ExchangeDone response err, c1) \<Rightarrow> (Some (response, err), c1)
      | (ExchangeWait _, c1) \<Rightarrow> Exchange D c1 r2 message options checker
      | (ExchangePanic, c1) \<Rightarrow> (None, c1)
      | (ExchangeReady opr, c1) \<Rightarrow>
          (case exchangeToTransport (runTransport r) (opMessage opr) of
             Inl err \<Rightarrow> (Some (None, Some err), release (runOthers r c1) (releaseCond opr))
           | Inr response \<Rightarrow>
               (let ((m, err), c2) = finishExchange D (runOthers r c1) (runTag r) (runFinish r) opr response
                in (Some (Some m, err), release c2 (releaseCond opr)))))"

section \<open>Lookups\<close>

type_synonym lookup_result = "dns_error + Addr list"

definition answerAddresses :: "env \<Rightarrow> Msg \<Rightarrow> lookup_result" where
  "answerAddresses E response =
     (if Rcode response \<noteq> RcodeSuccess then Inl (RcodeError (Rcode response))
      else Inr (DNSResponseAddresses E (Some response)))"

definition questionCache ::
  "('l, 's) clientDeps \<Rightarrow> ('l, 's) Client \<Rightarrow> ('l, 's) exchangeRun \<Rightarrow> DNSQuestion \<Rightarrow> Msg \<Rightarrow> DNSQueryOptions
     \<Rightarrow> (Msg \<Rightarrow> bool) option \<Rightarrow> lookup_result \<times> ('l, 's) Client" where
  "questionCache D c r question message options checker =
     (let k = newCacheKey c (runBegin r) (runTag r) question message options in
      case loadResponse D c (timeNow (runBegin r)) k of
        (None, c1) \<Rightarrow> (Inl ErrNotCached, c1)
      | (Some (response, _, isStale), c1) \<Rightarrow>
          if isStale \<and> qDisableOptimisticCache options then (Inl ErrNotCached, c1)
          else
            (answerAddresses (libEnv D) response,
             if isStale then backgroundRefreshDNS c1 k
               \<lparr>jobMessage = prepareExchangeMessage c1 message options, jobOptions = options, jobChecker = checker\<rparr>
             else c1))"

definition lookupToExchange ::
  "('l, 's) clientDeps \<Rightarrow> ('l, 's) Client \<Rightarrow> ('l, 's) exchangeRun \<Rightarrow> string \<Rightarrow> u16 \<Rightarrow> DNSQueryOptions
     \<Rightarrow> (Msg \<Rightarrow> bool) option \<Rightarrow> lookup_result option \<times> ('l, 's) Client" where
  "lookupToExchange D c r name qType options checker =
     (let question = \<lparr>QName = name, Qtype = qType, Qclass = ClassINET\<rparr>;
          message = \<lparr>MsgId = 0, IsResponse = False, Authoritative = False, RecursionDesired = True,
                     RecursionAvailable = False, Rcode = RcodeSuccess, Questions = [question],
                     Answer = [], Ns = [], Extra = []\<rparr>;
          (cached, c1) = (if \<not> (cDisableCache c \<or> qDisableCache options)
                          then questionCache D c r question message options checker
                          else (Inl ErrNotCached, c))
      in if cached \<noteq> Inl ErrNotCached then (Some cached, c1)
         else
           (case Exchange D c1 r message options checker of
              (Some (_, Some err), c2) \<Rightarrow> (Some (Inl err), c2)
            | (Some (Some response, None), c2) \<Rightarrow> (Some (answerAddresses (libEnv D) response), c2)
            | (_, c2) \<Rightarrow> (None, c2)))"

text \<open>
  The two queries of a lookup run in a task group, in either order; the
  group's error is a parameter.
\<close>

definition Lookup ::
  "('l, 's) clientDeps \<Rightarrow> ('l, 's) Client \<Rightarrow> ('l, 's) exchangeRun \<Rightarrow> ('l, 's) exchangeRun \<Rightarrow> bool
     \<Rightarrow> (dns_error option \<Rightarrow> dns_error option \<Rightarrow> dns_error option) \<Rightarrow> string \<Rightarrow> DNSQueryOptions
     \<Rightarrow> (Msg \<Rightarrow> bool) option \<Rightarrow> lookup_result option \<times> ('l, 's) Client" where
  "Lookup D c r4 r6 sixFirst groupRun domain options checker =
     (let dnsName = Fqdn (libDNS D) (FqdnToDomain (libDNS D) domain);
          strategy = (if qLookupStrategy options \<noteq> DomainStrategyAsIS then qLookupStrategy options else qStrategy options);
          lookupOptions = (if qLookupStrategy options \<noteq> DomainStrategyAsIS then options\<lparr>qStrategy := strategy\<rparr> else options)
      in if strategy = DomainStrategyIPv4Only then lookupToExchange D c r4 dnsName TypeA lookupOptions checker
         else if strategy = DomainStrategyIPv6Only then lookupToExchange D c r6 dnsName TypeAAAA lookupOptions checker
         else
           (let exchange4 = (\<lambda>c. lookupToExchange D c r4 dnsName TypeA lookupOptions checker);
                exchange6 = (\<lambda>c. lookupToExchange D c r6 dnsName TypeAAAA lookupOptions checker);
                (result4, result6, c2) =
                  (if sixFirst then let (x6, c1) = exchange6 c; (x4, c2) = exchange4 c1 in (x4, x6, c2)
                   else let (x4, c1) = exchange4 c; (x6, c2) = exchange6 c1 in (x4, x6, c2))
            in case (result4, result6) of
                 (Some x4, Some x6) \<Rightarrow>
                   (let addressesOf = case_sum (\<lambda>_. []) id; errorOf = case_sum Some (\<lambda>_. None) in
                    (Some (if addressesOf x4 = [] \<and> addressesOf x6 = []
                           then case_option (Inr []) Inl (groupRun (errorOf x4) (errorOf x6))
                           else Inr (sortAddresses (addressesOf x4) (addressesOf x6) strategy)), c2))
               | _ \<Rightarrow> (None, c2)))"

end
