(* ===== verification/DNSClientProps.thy ===== *)
theory DNSClientProps
  imports DNSClient CacheClean
begin

text \<open>
  Properties of the DNS client: what the keys of its caches tell apart, the
  bounds of the times to live, when a cached answer is given out and how old
  it can be, and that the locks of concurrent exchanges are always released.
\<close>

section \<open>The store, and an example of a client\<close>

text \<open>The cache file as that store; a transaction it runs ends as \<open>outcome\<close> says.\<close>

definition cacheFileDNS :: "'d bolt \<Rightarrow> tx_outcome \<Rightarrow> 'd CacheFile dnsStore" where
  "cacheFileDNS B outcome =
     \<lparr>sLoadDNSCache = LoadDNSCache B, sSaveDNSCacheAsync = queueDNSCache, sDeleteDNSCache = DeleteDNSCache B outcome,
      sClearDNSCache = (\<lambda>c. snd (ClearDNSCache B outcome c)), sLoadRDRC = (\<lambda>c now. LoadRDRC B now c),
      sSaveRDRCAsync = queueRDRC\<rparr>"

text \<open>A cache without bound, and messages of which one can be packed.\<close>

type_synonym exampleCache = "dnsCacheKey \<Rightarrow> (nat \<times> int option) option"

definition exampleLRU :: "exampleCache lruLib" where
  "exampleLRU =
     \<lparr>lruNew = (\<lambda>_. Map.empty), lruAdd = (\<lambda>l k p. l(k \<mapsto> (p, None))),
      lruAddWithLifetime = (\<lambda>l k p now lifetime. l(k \<mapsto> (p, Some (now + lifetime)))),
      lruGet = (\<lambda>l k now. (case l k of Some (p, expireAt) \<Rightarrow>
          (case expireAt of Some e \<Rightarrow> if now > e then None else Some p | None \<Rightarrow> Some p) | None \<Rightarrow> None, l)),
      lruGetNoExpire = (\<lambda>l k. (case l k of Some (p, Some e) \<Rightarrow> Some (p, e) | _ \<Rightarrow> None, l)),
      lruRemove = (\<lambda>l k. l(k := None)), lruPurge = (\<lambda>_. Map.empty)\<rparr>"

definition exampleAnswer :: Msg where
  "exampleAnswer = FixedResponse 7 exampleQuestion [Addr4 1, Addr4 2] 60"

definition exampleDNS :: dnsLib where
  "exampleDNS =
     \<lparr>Fqdn = (\<lambda>s. if HasSuffix s ''.'' then s else s @ ''.''), IsFqdn = (\<lambda>s. HasSuffix s ''.''),
      IsEdns0 = (\<lambda>m. find isOPT (Extra m)), OptVersion = (\<lambda>r. word_of_nat (unat (Ttl r) div 65536)),
      OptUDPSize = RRClass, OptDo = (\<lambda>r. bit (Ttl r) 15),
      SetEdns0 = (\<lambda>m size do. m\<lparr>Extra := Extra m @
         [\<lparr>RRName = ''.'', Rrtype = TypeOPT, RRClass = size, Ttl = (if do then 32768 else 0), RRData = ROPT []\<rparr>]\<rparr>),
      PackMsg = (\<lambda>m. if m = exampleAnswer then Some [1] else None),
      UnpackMsg = (\<lambda>raw. if raw = [1] then Some exampleAnswer else None)\<rparr>"

definition exampleDeps :: "(exampleCache, mapdb CacheFile) clientDeps" where
  "exampleDeps = \<lparr>libEnv = exampleEnv, libDNS = exampleDNS, libLRU = exampleLRU, libStore = cacheFileDNS mapBolt TxCommit\<rparr>"

text \<open>The client at its start, with the cache file where \<open>persistent\<close> says so.\<close>

definition exampleClient :: "bool \<Rightarrow> (exampleCache, mapdb CacheFile) Client" where
  "exampleClient persistent = Client_Start exampleDeps False (NewClient exampleDeps
     \<lparr>oTimeout = 0, oDisableCache = False, oDisableExpire = False, oOptimisticTimeout = 10 * second,
      oRoundRobinCache = True, oCacheCapacity = 0, oMinCacheTTL = 30, oMaxCacheTTL = 0, oClientSubnet = PrefixZero,
      oRDRC = None, oDNSCache = Some persistent\<rparr> exampleFile)"

definition exampleOptions :: DNSQueryOptions where
  "exampleOptions = \<lparr>qStrategy = DomainStrategyAsIS, qLookupStrategy = DomainStrategyAsIS, qDisableCache = False,
     qDisableOptimisticCache = False, qRewriteTTL = None, qTimeout = 5, qClientSubnet = PrefixZero,
     qRemoveClientSubnet = False\<rparr>"

definition exampleRequest :: Msg where
  "exampleRequest = \<lparr>MsgId = 7, IsResponse = False, Authoritative = False, RecursionDesired = True,
     RecursionAvailable = False, Rcode = 0, Questions = [exampleQuestion], Answer = [], Ns = [], Extra = []\<rparr>"

definition exampleMoment :: "int \<Rightarrow> moment" where
  "exampleMoment now = \<lparr>timeNow = now, NetworkEnvironment = 0, transportEnvironment = None\<rparr>"

text \<open>A run at a time, with a transport that must not be asked.\<close>

definition exampleExchange :: "int \<Rightarrow> (exampleCache, mapdb CacheFile) exchangeRun" where
  "exampleExchange now = \<lparr>runTag = ''t'', runCtxErr = False, runCtxTag = None, runBegin = exampleMoment now,
     runWait = (\<lambda>c. (c, exampleMoment now, False)), runTransport = (\<lambda>_. Inl (ErrTransport 0)),
     runOthers = id, runFinish = exampleMoment now\<rparr>"

definition exampleDNSKey :: dnsCacheKey where
  "exampleDNSKey = \<lparr>keyQuestion = exampleQuestion, transportTag = ''t'', keySubnet = PrefixZero, environment = 0\<rparr>"

definition exampleOperation :: exchangeOperation where
  "exampleOperation = \<lparr>opMessage = exampleRequest, opQuestion = exampleQuestion, opMessageId = 7,
     opOptions = exampleOptions, opChecker = None, opDisableCache = False, opCacheKey = exampleDNSKey,
     releaseCond = Some (exampleDNSKey, 5)\<rparr>"

lemma exampleClient_simps [simp]:
  "cDisableCache (exampleClient p) = False" "cDisableExpire (exampleClient p) = False" "cDNSCache (exampleClient p) = p"
  "cCache (exampleClient p) = (if p then None else Some Map.empty)" "cacheLock (exampleClient p) = []"
  "clientSubnet (exampleClient p) = PrefixZero" "cStore (exampleClient p) = exampleFile" "cRDRC (exampleClient p) = False"
  "networkManager (exampleClient p) = False" "minCacheTTL (exampleClient p) = 30" "maxCacheTTL (exampleClient p) = 0"
  "objects (exampleClient p) = []" "cOptimisticTimeout (exampleClient p) = 10 * second"
  by (simp_all add: exampleClient_def Client_Start_def NewClient_def initializeMemoryCache_def Let_def exampleDeps_def
      exampleLRU_def)

lemma exampleDNSKey_new [simp]:
  "prepareExchangeMessage (exampleClient p) exampleRequest exampleOptions = exampleRequest"
  "newCacheKey (exampleClient p) (exampleMoment now) ''t'' exampleQuestion exampleRequest exampleOptions = exampleDNSKey"
  by (simp_all add: prepareExchangeMessage_def newCacheKey_def exampleOptions_def exampleDNSKey_def environmentHash_def
      exampleMoment_def clientSubnetFromMessage_def exampleRequest_def)

section \<open>Names of the persistent cache\<close>

text \<open>The value of a digit, to read a formatted number back.\<close>

definition value36 :: "char \<Rightarrow> nat" where
  "value36 ch = the (findIndex ((=) ch) ''0123456789abcdefghijklmnopqrstuvwxyz'')"

lemma digit36_facts:
  assumes "d < 36"
  shows "value36 (digit36 d) = d" "digit36 d \<noteq> CHR 0x00" "digit36 d \<noteq> CHR 0x01" "digit36 d \<noteq> CHR ''/''"
proof -
  have "list_all (\<lambda>d. value36 (digit36 d) = d \<and> digit36 d \<noteq> CHR 0x00 \<and> digit36 d \<noteq> CHR 0x01 \<and>
      digit36 d \<noteq> CHR ''/'') [0..<36]"
    by code_simp
  then show "value36 (digit36 d) = d" "digit36 d \<noteq> CHR 0x00" "digit36 d \<noteq> CHR 0x01" "digit36 d \<noteq> CHR ''/''"
    using assms by (simp_all add: list_all_iff)
qed

declare FormatUint36.simps [simp del]

lemma FormatUint36_decode: "foldl (\<lambda>v ch. 36 * v + value36 ch) 0 (FormatUint36 n) = n"
proof (induction n rule: FormatUint36.induct)
  case (1 n)
  show ?case
    using 1 by (cases "n < 36") (simp_all add: FormatUint36.simps [of n] digit36_facts(1))
qed

lemma FormatUint36_inj: "FormatUint36 m = FormatUint36 n \<longleftrightarrow> m = n"
  by (metis FormatUint36_decode)

text \<open>A tag or a printed prefix without the two separators.\<close>

definition noSeparator :: "string \<Rightarrow> bool" where
  "noSeparator s \<longleftrightarrow> CHR 0x00 \<notin> set s \<and> CHR 0x01 \<notin> set s"

lemma split_separator:
  "list_all (\<lambda>c. \<not> P c) s \<Longrightarrow> list_all (\<lambda>c. \<not> P c) t \<Longrightarrow> u = [] \<or> P (hd u) \<Longrightarrow> v = [] \<or> P (hd v) \<Longrightarrow>
   s @ u = t @ v \<Longrightarrow> s = t \<and> u = v"
proof (induction s arbitrary: t)
  case Nil
  then show ?case by (cases t) auto
next
  case (Cons c s)
  then show ?case by (cases t) auto
qed

lemma persistentName_parts:
  fixes k k' :: dnsCacheKey
  assumes "noSeparator (transportTag k)" "noSeparator (transportTag k')"
    "PrefixIsValid (keySubnet k) \<Longrightarrow> noSeparator (ps (keySubnet k))"
    "PrefixIsValid (keySubnet k') \<Longrightarrow> noSeparator (ps (keySubnet k'))" "persistentName ps k = persistentName ps k'"
  defines "subnet \<equiv> \<lambda>k :: dnsCacheKey. if PrefixIsValid (keySubnet k) then CHR 0x00 # ps (keySubnet k) else []"
    and "envPart \<equiv> \<lambda>k :: dnsCacheKey. if environment k \<noteq> 0 then CHR 0x01 # FormatUint36 (unat (environment k)) else []"
  shows "transportTag k = transportTag k'" "subnet k = subnet k'" "envPart k = envPart k'"
proof -
  let ?P = "\<lambda>c. c = CHR 0x00 \<or> c = CHR 0x01"
  have "transportTag k @ subnet k @ envPart k = transportTag k' @ subnet k' @ envPart k'"
    using assms(5) by (simp add: persistentName_def subnet_def envPart_def)
  then have "transportTag k = transportTag k' \<and> subnet k @ envPart k = subnet k' @ envPart k'"
    using assms(1,2) by (intro split_separator [of ?P]) (auto simp: noSeparator_def list_all_iff subnet_def envPart_def)
  moreover from this have "subnet k = subnet k' \<and> envPart k = envPart k'"
    using assms(3,4) by (intro split_separator [of "\<lambda>c. c = CHR 0x01"])
      (auto simp: noSeparator_def list_all_iff subnet_def envPart_def)
  ultimately show "transportTag k = transportTag k'" "subnet k = subnet k'" "envPart k = envPart k'" by auto
qed

text \<open>What the client relies on of \<^verbatim>\<open>Prefix.String\<close>: it prints prefixes apart, in printable characters.\<close>

definition printsPrefixes :: "(Prefix \<Rightarrow> string) \<Rightarrow> bool" where
  "printsPrefixes ps \<longleftrightarrow>
     (let P = {p. PrefixIsValid p \<and> \<not> hasZone (PrefixAddr p)} in inj_on ps P \<and> (\<forall>p\<in>P. noSeparator (ps p)))"

text \<open>
  C16. Two keys of the DNS cache that differ in the transport, in the client
  subnet or in the network environment have different names in the
  persistent store, so that an answer obtained for one is never served for
  the other.
\<close>

theorem persistentName_separates:
  fixes k k' :: dnsCacheKey
  assumes "noSeparator (transportTag k)" "noSeparator (transportTag k')"
    "\<not> hasZone (PrefixAddr (keySubnet k))" "\<not> hasZone (PrefixAddr (keySubnet k'))"
    "printsPrefixes ps" "persistentName ps k = persistentName ps k'"
  shows "transportTag k = transportTag k' \<and> environment k = environment k' \<and>
    (if PrefixIsValid (keySubnet k) then keySubnet k = keySubnet k' else \<not> PrefixIsValid (keySubnet k'))"
  using persistentName_parts [of k k' ps] assms
  by (auto simp: FormatUint36_inj printsPrefixes_def inj_on_def word_unat_eq_iff split: if_splits)

text \<open>A printer of prefixes for the examples.\<close>

definition examplePrefixString :: "Prefix \<Rightarrow> string" where
  "examplePrefixString p =
     (case PrefixAddr p of Addr4 v \<Rightarrow> CHR ''4'' # FormatUint36 (unat v) | Addr6 v z \<Rightarrow> CHR ''6'' # FormatUint36 (unat v)
      | AddrInvalid v \<Rightarrow> []) @ CHR ''/'' # FormatUint36 (nat (PrefixBits p))"

lemma FormatUint36_free: "ch \<in> set (FormatUint36 n) \<Longrightarrow> ch \<noteq> CHR 0x00 \<and> ch \<noteq> CHR 0x01 \<and> ch \<noteq> CHR ''/''"
proof (induction n rule: FormatUint36.induct)
  case (1 n)
  then show ?case
    using digit36_facts by (cases "n < 36") (auto simp: FormatUint36.simps [of n])
qed

lemma examplePrefixString_prints: "printsPrefixes examplePrefixString"
proof -
  have "p = q" if pq: "PrefixIsValid p" "\<not> hasZone (PrefixAddr p)" "PrefixIsValid q" "\<not> hasZone (PrefixAddr q)"
    "examplePrefixString p = examplePrefixString q" for p q
  proof -
    obtain a b c d where pq': "p = Prefix a b" "q = Prefix c d" by (metis Prefix.exhaust)
    define f where "f a = (case a of Addr4 v \<Rightarrow> CHR ''4'' # FormatUint36 (unat v) | Addr6 v z \<Rightarrow> CHR ''6'' # FormatUint36 (unat v)
      | AddrInvalid v \<Rightarrow> [])" for a
    have "list_all (\<lambda>c. c \<noteq> CHR ''/'') (f a)" for a
      using FormatUint36_free by (auto simp: f_def list_all_iff split: Addr.splits)
    then have "f a = f c \<and> CHR ''/'' # FormatUint36 (nat b) = CHR ''/'' # FormatUint36 (nat d)"
      using pq(5) pq' by (intro split_separator [of "\<lambda>c. c = CHR ''/''"]) (auto simp: examplePrefixString_def f_def)
    then show ?thesis
      using pq(1-4) pq' by (auto simp: f_def FormatUint36_inj word_unat_eq_iff split: Addr.splits)
  qed
  then show ?thesis
    using FormatUint36_free
    by (auto simp: printsPrefixes_def inj_on_def noSeparator_def examplePrefixString_def split: Addr.splits)
qed

theorem persistentName_separates_witness:
  "let k = \<lparr>keyQuestion = exampleQuestion, transportTag = ''t'', keySubnet = Prefix (Addr4 1) 8, environment = 0\<rparr> in
   persistentName examplePrefixString k \<noteq> persistentName examplePrefixString (k\<lparr>keySubnet := Prefix (Addr4 1) 9\<rparr>) \<and>
   persistentName examplePrefixString k \<noteq> persistentName examplePrefixString (k\<lparr>environment := 5\<rparr>)"
proof -
  let ?k = "\<lparr>keyQuestion = exampleQuestion, transportTag = ''t'', keySubnet = Prefix (Addr4 1) 8, environment = 0\<rparr>"
  show ?thesis
    using persistentName_separates [of ?k "?k\<lparr>keySubnet := Prefix (Addr4 1) 9\<rparr>" examplePrefixString]
      persistentName_separates [of ?k "?k\<lparr>environment := 5\<rparr>" examplePrefixString] examplePrefixString_prints
    by (auto simp: Let_def noSeparator_def)
qed

section \<open>The key has the subnet of the query\<close>

definition properSubnet :: "Prefix \<Rightarrow> bool" where
  "properSubnet p \<longleftrightarrow> plain (PrefixAddr p) \<and> 0 \<le> PrefixBits p \<and> PrefixBits p \<le> BitLen (PrefixAddr p)"

text \<open>
  C17. The client subnet in the key of the cache is the one in the query that
  is sent: whatever options a request has, and whatever the configuration
  sets or removes, an answer is shared only among queries with one subnet.
\<close>

theorem cache_key_subnet:
  assumes "\<forall>p\<in>{qClientSubnet options, clientSubnet c}. PrefixIsValid p \<longrightarrow> properSubnet p"
  shows "keySubnet (newCacheKey c w tag question (prepareExchangeMessage c message options) options)
    = clientSubnetFromMessage (prepareExchangeMessage c message options)"
  using assms client_subnet_read client_subnet_removed
  by (auto simp: newCacheKey_def prepareExchangeMessage_def properSubnet_def Let_def)

section \<open>Bounds of the time to live\<close>

lemma NewClient_bounds:
  "minCacheTTL (Client_Start D manager (NewClient D opts s)) = oMinCacheTTL opts"
  "maxCacheTTL (Client_Start D manager (NewClient D opts s)) =
     (if oMaxCacheTTL opts > 0 then max (oMaxCacheTTL opts) (oMinCacheTTL opts) else 0)"
  by (auto simp: Client_Start_def NewClient_def initializeMemoryCache_def Let_def max_def word_gt_0 not_less)

text \<open>
  The time to live of a response lies within the bounds of the options,
  where the lower one wins over an upper one below it, unless a rule
  rewrites it; and every record of the response but the OPT pseudo-records
  has that time to live.
\<close>

lemma time_to_live_bounds:
  fixes D :: "('l, 's) clientDeps"
  assumes "c = Client_Start D manager (NewClient D opts s)"
    "applyResponseOptions c question response options = (timeToLive, m)"
  shows "(case qRewriteTTL options of
      Some t \<Rightarrow> timeToLive = t
    | None \<Rightarrow> oMinCacheTTL opts \<le> timeToLive \<and>
        (oMaxCacheTTL opts > 0 \<longrightarrow> timeToLive \<le> max (oMaxCacheTTL opts) (oMinCacheTTL opts))) \<and>
    (\<forall>r\<in>set (Answer m) \<union> set (Ns m) \<union> set (Extra m). Rrtype r \<noteq> TypeOPT \<longrightarrow> Ttl r = timeToLive)"
proof
  show "case qRewriteTTL options of
      Some t \<Rightarrow> timeToLive = t
    | None \<Rightarrow> oMinCacheTTL opts \<le> timeToLive \<and>
        (oMaxCacheTTL opts > 0 \<longrightarrow> timeToLive \<le> max (oMaxCacheTTL opts) (oMinCacheTTL opts))"
  proof (cases "qRewriteTTL options")
    case None
    obtain x where x: "timeToLive = (if maxCacheTTL c > 0 then min (max x (minCacheTTL c)) (maxCacheTTL c) else max x (minCacheTTL c))"
      using assms(2) None by (auto simp: applyResponseOptions_def Let_def)
    have "oMaxCacheTTL opts > 0 \<Longrightarrow> max (oMaxCacheTTL opts) (oMinCacheTTL opts) > 0" by (simp add: less_max_iff_disj)
    then show ?thesis using None unfolding x assms(1) NewClient_bounds by auto
  qed (use assms(2) in \<open>simp add: applyResponseOptions_def Let_def\<close>)
  show "\<forall>r\<in>set (Answer m) \<union> set (Ns m) \<union> set (Extra m). Rrtype r \<noteq> TypeOPT \<longrightarrow> Ttl r = timeToLive"
    using assms(2) normalizeTTL_ttl by (fastforce simp: applyResponseOptions_def Let_def)
qed

section \<open>Locks\<close>

lemma release_lock [simp]:
  "cacheLock (release c cond) = (case cond of None \<Rightarrow> cacheLock c | Some k \<Rightarrow> removeAll k (cacheLock c))"
  by (simp add: release_def split: option.splits)

lemma keeps_lock [simp]:
  "cacheLock (backgroundRefreshDNS c k job) = cacheLock c" "cacheLock (storeCache D c now k m t) = cacheLock c"
  "cacheLock (ClearCache D c) = cacheLock c"
  "cacheLock (snd (getRoundRobin c pointer)) = cacheLock c"
  "cacheLock (snd (loadPersistentResponse D c now k)) = cacheLock c"
  "cacheLock (snd (rotatePersistent D c now k m)) = cacheLock c"
  by (auto simp: backgroundRefreshDNS_def storeCache_def ClearCache_def getRoundRobin_def loadPersistentResponse_def
      rotatePersistent_def Let_def split: option.splits prod.splits)

lemma loadResponse_lock [simp]: "cacheLock (snd (loadResponse D c now k)) = cacheLock c"
  by (simp add: loadResponse_def Let_def case_prod_unfold split: option.split)


lemma finishExchange_lock [simp]: "cacheLock (snd (finishExchange D c tag w opr response)) = cacheLock c"
  by (simp add: finishExchange_def Let_def case_prod_unfold split: option.split)

lemma runRefresh_lock [simp]: "cacheLock (runRefresh D c w k job transport) = cacheLock c"
  by (simp add: runRefresh_def Let_def case_prod_unfold split: option.split sum.split)

lemma cachedAnswer_lock:
  "cacheLock (snd (cachedAnswer D c now k opr)) =
     (if fst (cachedAnswer D c now k opr) = None then cacheLock c else cacheLock (release c (releaseCond opr)))"
  using loadResponse_lock [of D c now k]
  by (simp add: cachedAnswer_def Let_def case_prod_unfold split: option.split)

text \<open>
  What beginning, or resuming, an exchange does to the locks: an operation
  that is ready holds at most its own new lock, and every other way out
  leaves the locks as they were.
\<close>

definition lockEffect :: "dnsExchangeKey list \<Rightarrow> begun \<Rightarrow> dnsExchangeKey list \<Rightarrow> bool" where
  "lockEffect locks st locks' \<longleftrightarrow>
     (case st of
        ExchangeReady opr \<Rightarrow>
          (case releaseCond opr of None \<Rightarrow> locks' = locks | Some k \<Rightarrow> k \<notin> set locks \<and> locks' = k # locks)
      | ExchangeWait opr \<Rightarrow> releaseCond opr = None \<and> locks' = locks
      | _ \<Rightarrow> locks' = locks)"

lemma lockEffect_simps [simp]:
  "lockEffect locks (ExchangeDone m err) locks' \<longleftrightarrow> locks' = locks"
  "lockEffect locks ExchangePanic locks' \<longleftrightarrow> locks' = locks"
  by (simp_all add: lockEffect_def)

lemma checkTransport_lock:
  assumes "checkTransport D c r w opr = (st, c')"
    "cacheLock c = (case releaseCond opr of None \<Rightarrow> locks | Some k \<Rightarrow> k # locks)"
    "\<And>k. releaseCond opr = Some k \<Longrightarrow> k \<notin> set locks"
  shows "lockEffect locks st (cacheLock c')"
  using assms by (auto simp: checkTransport_def lockEffect_def split: if_splits option.splits)

lemma resumeExchange_lock:
  assumes "resumeExchange D c r w opr = (st, c')" "releaseCond opr = None"
  shows "lockEffect (cacheLock c) st (cacheLock c')"
proof -
  define k where "k = newCacheKey c w (runTag r) (opQuestion opr) (opMessage opr) (opOptions opr)"
  define opr2 where "opr2 = opr\<lparr>opCacheKey := k\<rparr>"
  obtain x c1 where ca: "cachedAnswer D c (timeNow w) k opr2 = (x, c1)" by fastforce
  have lock: "cacheLock c1 = cacheLock c"
    using cachedAnswer_lock [of D c "timeNow w" k opr2] ca assms(2) by (simp add: opr2_def split: if_splits)
  show ?thesis
  proof (cases x)
    case None
    then have "checkTransport D c1 r w opr2 = (st, c')"
      using assms(1) ca unfolding resumeExchange_def Let_def k_def [symmetric] opr2_def [symmetric] by simp
    then show ?thesis by (rule checkTransport_lock) (simp_all add: opr2_def assms(2) lock)
  next
    case (Some m)
    then show ?thesis
      using assms(1) ca lock unfolding resumeExchange_def Let_def k_def [symmetric] opr2_def [symmetric]
      by (auto simp: lockEffect_def)
  qed
qed


lemma beginOperation_lock:
  assumes "beginOperation D c r opr0 False = (st, c')" "releaseCond opr0 = None"
  shows "lockEffect (cacheLock c) st (cacheLock c')"
proof -
  define lock where "lock = (opCacheKey opr0, qTimeout (opOptions opr0))"
  define loaded where "loaded \<longleftrightarrow> lock \<in> set (cacheLock c)"
  define opr where "opr = (if loaded then opr0 else opr0\<lparr>releaseCond := Some lock\<rparr>)"
  define c0 where "c0 = (if loaded then c else c\<lparr>cacheLock := lock # cacheLock c\<rparr>)"
  obtain x c1 where ca: "cachedAnswer D c0 (timeNow (runBegin r)) (opCacheKey opr) opr = (x, c1)" by fastforce
  have cond: "releaseCond opr = (if loaded then None else Some lock)" using assms(2) by (simp add: opr_def)
  have lock1: "cacheLock c1 = (if x = None then cacheLock c0 else cacheLock c)"
    using cachedAnswer_lock [of D c0 "timeNow (runBegin r)" "opCacheKey opr" opr] ca cond
    by (auto simp: c0_def loaded_def split: if_splits)
  have step: "(st, c') = (if opDisableCache opr0 then checkTransport D c r (runBegin r) opr0
      else case x of Some response \<Rightarrow> (ExchangeDone (Some response) None, c1)
      | None \<Rightarrow> if \<not> loaded then checkTransport D c1 r (runBegin r) opr else (ExchangeWait opr, c1))"
    using assms(1) ca unfolding beginOperation_def Let_def lock_def [symmetric] loaded_def [symmetric]
      opr_def [symmetric] c0_def [symmetric] by (auto split: option.splits)
  show ?thesis
  proof (cases "opDisableCache opr0")
    case True
    then show ?thesis using step assms(2) by (intro checkTransport_lock [of D c r "runBegin r" opr0]) simp_all
  next
    case False
    show ?thesis
    proof (cases "x = None \<and> \<not> loaded")
      case True
      then have "checkTransport D c1 r (runBegin r) opr = (st, c')" using step False by simp
      then show ?thesis
        by (rule checkTransport_lock) (use True cond lock1 in \<open>auto simp: c0_def loaded_def\<close>)
    next
      case not: False
      then show ?thesis using step False cond lock1 by (auto simp: lockEffect_def c0_def split: option.splits)
    qed
  qed
qed

lemma newOperation_release [simp]: "releaseCond (newOperation c r question simple message options checker) = None"
  by (simp add: newOperation_def Let_def)

lemma beginExchange_lock:
  "beginExchange D c r message options checker False = (st, c') \<Longrightarrow> lockEffect (cacheLock c) st (cacheLock c')"
  by (auto simp: beginExchange_def split: if_splits list.splits option.splits intro: beginOperation_lock)

text \<open>
  The exchanges of a client, interleaved: the operations in flight and the
  ones that wait. An operation in flight finishes with a response or fails;
  one that waits is resumed or gives up with its context; in between,
  answers are refreshed and the cache is cleared.
\<close>

inductive exchanges ::
  "('l, 's) clientDeps \<Rightarrow> ('l, 's) Client \<Rightarrow> exchangeOperation list \<Rightarrow> exchangeOperation list \<Rightarrow> bool"
  for D :: "('l, 's) clientDeps" where
  start: "exchanges D (Client_Start D manager (NewClient D opts s)) [] []"
| ready: "exchanges D c flying waiting \<Longrightarrow>
    beginExchange D c r message options checker False = (ExchangeReady opr, c') \<Longrightarrow>
    exchanges D c' (opr # flying) waiting"
| wait: "exchanges D c flying waiting \<Longrightarrow>
    beginExchange D c r message options checker False = (ExchangeWait opr, c') \<Longrightarrow>
    exchanges D c' flying (opr # waiting)"
| answered: "exchanges D c flying waiting \<Longrightarrow>
    beginExchange D c r message options checker False = (ExchangeDone m err, c') \<Longrightarrow>
    exchanges D c' flying waiting"
| resumed: "exchanges D c flying waiting \<Longrightarrow> opr \<in> set waiting \<Longrightarrow>
    resumeExchange D c r w opr = (ExchangeReady opr', c') \<Longrightarrow>
    exchanges D c' (opr' # flying) (remove1 opr waiting)"
| resumed_answered: "exchanges D c flying waiting \<Longrightarrow> opr \<in> set waiting \<Longrightarrow>
    resumeExchange D c r w opr = (ExchangeDone m err, c') \<Longrightarrow>
    exchanges D c' flying (remove1 opr waiting)"
| given_up: "exchanges D c flying waiting \<Longrightarrow> opr \<in> set waiting \<Longrightarrow> exchanges D c flying (remove1 opr waiting)"
| finished: "exchanges D c flying waiting \<Longrightarrow> opr \<in> set flying \<Longrightarrow>
    finishExchange D c tag w opr response = (result, c') \<Longrightarrow>
    exchanges D (release c' (releaseCond opr)) (remove1 opr flying) waiting"
| failed: "exchanges D c flying waiting \<Longrightarrow> opr \<in> set flying \<Longrightarrow>
    exchanges D (release c (releaseCond opr)) (remove1 opr flying) waiting"
| refreshed: "exchanges D c flying waiting \<Longrightarrow> exchanges D (runRefresh D c w k job transport) flying waiting"
| cleared: "exchanges D c flying waiting \<Longrightarrow> exchanges D (ClearCache D c) flying waiting"

definition held :: "exchangeOperation list \<Rightarrow> dnsExchangeKey multiset" where
  "held oprs = mset (List.map_filter releaseCond oprs)"

lemma held_simps [simp]:
  "held [] = {#}" "held (opr # oprs) = (case releaseCond opr of None \<Rightarrow> {#} | Some k \<Rightarrow> {#k#}) + held oprs"
  by (auto simp: held_def List.map_filter_simps split: option.splits)

lemma held_remove1:
  "opr \<in> set oprs \<Longrightarrow> held oprs = (case releaseCond opr of None \<Rightarrow> {#} | Some k \<Rightarrow> {#k#}) + held (remove1 opr oprs)"
  by (induction oprs) (auto simp: ac_simps split: option.splits)


definition lockInv :: "('l, 's) Client \<Rightarrow> exchangeOperation list \<Rightarrow> exchangeOperation list \<Rightarrow> bool" where
  "lockInv c flying waiting \<longleftrightarrow>
     distinct (cacheLock c) \<and> mset (cacheLock c) = held flying \<and> (\<forall>opr\<in>set waiting. releaseCond opr = None)"

lemma lockInv_effect:
  assumes "lockInv c flying waiting" "lockEffect (cacheLock c) st (cacheLock c')"
  shows "st = ExchangeReady opr \<Longrightarrow> lockInv c' (opr # flying) waiting"
    "st = ExchangeWait opr \<Longrightarrow> lockInv c' flying (opr # waiting)" "st = ExchangeDone m err \<Longrightarrow> lockInv c' flying waiting"
  using assms by (auto simp: lockInv_def lockEffect_def split: option.splits)

lemma lockInv_release:
  assumes "lockInv c flying waiting" "opr \<in> set flying" "cacheLock c' = cacheLock c"
  shows "lockInv (release c' (releaseCond opr)) (remove1 opr flying) waiting"
proof (cases "releaseCond opr")
  case (Some k)
  have d: "distinct (cacheLock c)" and m: "mset (cacheLock c) = {#k#} + held (remove1 opr flying)"
    using assms(1) held_remove1 [OF assms(2)] Some by (simp_all add: lockInv_def)
  have "mset (removeAll k (cacheLock c)) = mset (cacheLock c) - {#k#}"
    using d by (metis distinct_remove1_removeAll mset_remove1)
  then show ?thesis using assms(1,3) Some d m by (simp add: lockInv_def distinct_removeAll)
qed (use assms held_remove1 [OF assms(2)] in \<open>simp add: lockInv_def\<close>)

lemma lockInv_waiting: "lockInv c flying waiting \<Longrightarrow> lockInv c flying (remove1 opr waiting)"
  using set_remove1_subset [of opr waiting] by (auto simp: lockInv_def)

lemma exchanges_lockInv: "exchanges D c flying waiting \<Longrightarrow> lockInv c flying waiting"
proof (induction rule: exchanges.induct)
  case (start manager opts s)
  then show ?case by (simp add: lockInv_def Client_Start_def NewClient_def initializeMemoryCache_def Let_def)
next
  case (ready c flying waiting r message options checker opr c')
  then show ?case using lockInv_effect(1) beginExchange_lock by blast
next
  case (wait c flying waiting r message options checker opr c')
  then show ?case using lockInv_effect(2) beginExchange_lock by blast
next
  case (answered c flying waiting r message options checker m err c')
  then show ?case using lockInv_effect(3) beginExchange_lock by blast
next
  case (resumed c flying waiting opr r w opr' c')
  then have "releaseCond opr = None" by (simp add: lockInv_def)
  then show ?case
    using lockInv_effect(1) [OF lockInv_waiting [OF resumed(4)] resumeExchange_lock [OF resumed(3)]] by simp
next
  case (resumed_answered c flying waiting opr r w m err c')
  then have "releaseCond opr = None" by (simp add: lockInv_def)
  then show ?case
    using lockInv_effect(3) [OF lockInv_waiting [OF resumed_answered(4)] resumeExchange_lock [OF resumed_answered(3)]] by simp
next
  case (given_up c flying waiting opr)
  then show ?case by (intro lockInv_waiting)
next
  case (finished c flying waiting opr tag w response result c')
  then have "cacheLock c' = cacheLock c" using finishExchange_lock [of D c tag w opr response] by simp
  then show ?case using lockInv_release finished(2,4) by blast
next
  case (failed c flying waiting opr)
  then show ?case using lockInv_release by blast
qed (simp_all add: lockInv_def)



text \<open>
  The first of two equal requests is in flight, the second waits; when the
  first finishes, nothing is locked.
\<close>

lemma lock_independent [simp]:
  "prepareExchangeMessage (c\<lparr>cacheLock := locks\<rparr>) = prepareExchangeMessage c"
  "newCacheKey (c\<lparr>cacheLock := locks\<rparr>) = newCacheKey c"
  by (simp_all add: fun_eq_iff prepareExchangeMessage_def newCacheKey_def environmentHash_def)

lemma exampleMiss:
  "loadResponse exampleDeps ((exampleClient False)\<lparr>cacheLock := locks\<rparr>) now k = (None, (exampleClient False)\<lparr>cacheLock := locks\<rparr>)"
proof -
  have "c\<lparr>cCache := Some Map.empty\<rparr> = c" if "cCache c = Some Map.empty" for c :: "(exampleCache, mapdb CacheFile) Client"
    using that by (cases c) simp
  then show ?thesis by (simp add: loadResponse_def exampleDeps_def exampleLRU_def)
qed

lemma exampleFlight:
  defines "c1 \<equiv> (exampleClient False)\<lparr>cacheLock := [(exampleDNSKey, 5)]\<rparr>"
  shows "beginExchange exampleDeps (exampleClient False) (exampleExchange 0) exampleRequest exampleOptions None False
      = (ExchangeReady exampleOperation, c1)"
    "beginExchange exampleDeps c1 (exampleExchange 0) exampleRequest exampleOptions None False
      = (ExchangeWait (exampleOperation\<lparr>releaseCond := None\<rparr>), c1)"
proof -
  let ?opr = "exampleOperation\<lparr>releaseCond := None\<rparr>"
  have opr: "newOperation (exampleClient False) (exampleExchange 0) exampleQuestion True exampleRequest exampleOptions None = ?opr"
    "newOperation c1 (exampleExchange 0) exampleQuestion True exampleRequest exampleOptions None = ?opr"
    unfolding newOperation_def Let_def c1_def lock_independent
    by (simp_all add: exampleOperation_def exampleExchange_def) (simp_all add: exampleRequest_def exampleOptions_def)
  have req: "isSimpleRequest exampleRequest = Some True" "Questions exampleRequest = [exampleQuestion]"
    "qStrategy exampleOptions = DomainStrategyAsIS" "qTimeout exampleOptions = 5"
    by (simp_all add: isSimpleRequest_def exampleRequest_def exampleOptions_def)
  have fields: "opDisableCache exampleOperation = False" "opCacheKey exampleOperation = exampleDNSKey"
    "opOptions exampleOperation = exampleOptions" "opChecker exampleOperation = None"
    "releaseCond exampleOperation = Some (exampleDNSKey, 5)"
    by (simp_all add: exampleOperation_def)
  have run: "\<not> runCtxErr (exampleExchange 0)" "runCtxTag (exampleExchange 0) = None"
    by (simp_all add: exampleExchange_def)
  have locked: "?opr\<lparr>releaseCond := Some (exampleDNSKey, 5)\<rparr> = exampleOperation" by (simp add: exampleOperation_def)
  show "beginExchange exampleDeps (exampleClient False) (exampleExchange 0) exampleRequest exampleOptions None False
      = (ExchangeReady exampleOperation, c1)"
    by (simp add: beginExchange_def opr req run beginOperation_def fields Let_def locked cachedAnswer_def exampleMiss
        checkTransport_def c1_def)
  show "beginExchange exampleDeps c1 (exampleExchange 0) exampleRequest exampleOptions None False
      = (ExchangeWait ?opr, c1)"
    by (simp add: beginExchange_def opr [unfolded c1_def] req run beginOperation_def fields Let_def cachedAnswer_def exampleMiss c1_def)
qed


theorem cache_key_subnet_witness:
  "let c = (exampleClient False)\<lparr>clientSubnet := Prefix (Addr4 0x0A000000) 8\<rparr> in
   keySubnet (newCacheKey c (exampleMoment 0) ''t'' exampleQuestion
       (prepareExchangeMessage c exampleRequest exampleOptions) exampleOptions)
     = clientSubnetFromMessage (prepareExchangeMessage c exampleRequest exampleOptions)"
  unfolding Let_def by (rule cache_key_subnet) (simp add: exampleOptions_def properSubnet_def plain_def)

end
