(* ===== verification/DNSCacheProps.thy ===== *)
theory DNSCacheProps
  imports DNSClientProps
begin

text \<open>
  The answers the DNS client keeps: an answer that was obtained is given
  again, without the transport, until its time to live ends, from memory as
  from the cache file; and no answer is given out later than the
  configuration allows.
\<close>

section \<open>The same answer, in any order\<close>

definition sameAnswer :: "Msg \<Rightarrow> Msg \<Rightarrow> bool" where
  "sameAnswer m m' \<longleftrightarrow> Rcode m' = Rcode m \<and> mset (map RRData (Answer m')) = mset (map RRData (Answer m))"

definition ttlAtMost :: "u32 \<Rightarrow> Msg \<Rightarrow> bool" where
  "ttlAtMost t m \<longleftrightarrow> (\<forall>r\<in>set (Answer m). Rrtype r \<noteq> TypeOPT \<longrightarrow> Ttl r \<le> t)"

lemma sameAnswer_simps [simp]:
  "sameAnswer m m" "sameAnswer m (normalizeTTL m' t) = sameAnswer m m'" "sameAnswer m (m'\<lparr>MsgId := i\<rparr>) = sameAnswer m m'"
  by (simp_all add: sameAnswer_def mset_map [symmetric] del: mset_map)

lemma ttlAtMost_normalize: "t \<le> t' \<Longrightarrow> ttlAtMost t' (normalizeTTL m t)"
  using normalizeTTL_ttl [of _ m t] by (auto simp: ttlAtMost_def)

lemma applyRoundRobin_same:
  assumes "typedAnswers (Answer m)" shows "sameAnswer m (snd (applyRoundRobin dm m))"
    "ttlAtMost t m \<Longrightarrow> ttlAtMost t (snd (applyRoundRobin dm m))"
proof -
  obtain dm' m' where rr: "applyRoundRobin dm m = (dm', m')" by fastforce
  note eff = applyRoundRobin_effect(1,2) [OF assms rr]
  have "Rcode m' = Rcode m" using arg_cong [OF eff(2), of Rcode] by simp
  then show "sameAnswer m (snd (applyRoundRobin dm m))" using rr eff(1) by (simp add: sameAnswer_def)
  show "ttlAtMost t m \<Longrightarrow> ttlAtMost t (snd (applyRoundRobin dm m))"
    using rr mset_eq_setD [OF eff(1)] by (simp add: ttlAtMost_def)
qed

lemma getRoundRobin_same:
  assumes "typedAnswers (Answer m)" "dmsg (objects c ! p) = m"
  shows "sameAnswer m (fst (getRoundRobin c p))" "ttlAtMost t m \<Longrightarrow> ttlAtMost t (fst (getRoundRobin c p))"
  using applyRoundRobin_same [OF assms(1), where dm = "objects c ! p"] assms(2)
  by (auto simp: getRoundRobin_def RoundRobin_def case_prod_unfold Let_def)

lemma rotatePersistent_same:
  assumes "typedAnswers (Answer m)"
  shows "sameAnswer m (fst (rotatePersistent D c now k m))" "ttlAtMost t m \<Longrightarrow> ttlAtMost t (fst (rotatePersistent D c now k m))"
  using applyRoundRobin_same [OF assms]
  by (auto simp: rotatePersistent_def case_prod_unfold Let_def split: option.splits)

lemma typed_map:
  "(\<And>r. Rrtype (f r) = Rrtype r \<and> isA (f r) = isA r \<and> isAAAA (f r) = isAAAA r) \<Longrightarrow> typedAnswers (map f rs) = typedAnswers rs"
  by (simp add: typedAnswers_def)

lemma typed_normalize [simp]: "typedAnswers (Answer (normalizeTTL m t)) = typedAnswers (Answer m)"
  unfolding normalizeTTL_def Let_def by (simp, rule typed_map) (simp add: isA_def isAAAA_def)

lemma applyResponseOptions_typed:
  assumes "applyResponseOptions c q response options = (t, m)" "typedAnswers (Answer response)"
  shows "typedAnswers (Answer m)" "ttlAtMost t m"
proof -
  have "typedAnswers (map (filterHints st) rs) = typedAnswers rs" for st rs
    by (rule typed_map) (simp add: filterHints_def isA_def isAAAA_def split: rdata.split)
  then show "typedAnswers (Answer m)" using assms by (auto simp: applyResponseOptions_def Let_def)
  show "ttlAtMost t m" using assms(1) by (auto simp: applyResponseOptions_def Let_def intro: ttlAtMost_normalize)
qed

lemma remaining_word:
  assumes "now0 \<le> now" "expireAt \<le> now0 + second * uint (t :: u32)"
  shows "word_of_int (remainingTTL expireAt now) \<le> t"
proof -
  have "remainingTTL expireAt now \<le> (second * uint t) div second"
    unfolding remainingTTL_def using assms by (intro max.boundedI zdiv_mono1) (auto simp: second_def)
  then have "remainingTTL expireAt now \<le> uint t" by (simp add: second_def)
  moreover have "0 \<le> remainingTTL expireAt now" by (simp add: remainingTTL_def)
  ultimately show ?thesis
    using unsigned_less [of t, where ?'a = int] by (simp add: word_le_def uint_word_of_int_eq take_bit_int_eq_self)
qed

section \<open>In memory\<close>

text \<open>What the client relies on of the LRU cache: a value just added is there.\<close>

definition lru_laws :: "'l lruLib \<Rightarrow> bool" where
  "lru_laws L \<longleftrightarrow>
     (\<forall>l k p now lifetime. fst (lruGetNoExpire L (lruAddWithLifetime L l k p now lifetime) k) = Some (p, now + lifetime)) \<and>
     (\<forall>l k p now. fst (lruGet L (lruAdd L l k p) k now) = Some p)"

lemma memory_load:
  assumes "lru_laws (libLRU D)" "\<not> cDNSCache c" "cCache c \<noteq> None" "t \<noteq> 0" "typedAnswers (Answer m)" "ttlAtMost t m"
    "now0 \<le> now" "now \<le> now0 + second * uint t"
  shows "\<exists>m' left c'. loadResponse D (storeCache D c now0 k m t) now k = (Some (m', left, False), c') \<and>
    sameAnswer m m' \<and> ttlAtMost t m'"
proof -
  obtain l where l: "cCache c = Some l" using assms(3) by blast
  define c1 where "c1 = c\<lparr>objects := objects c @ [\<lparr>ipv4Index = 0, ipv6Index = 0, dmsg = m\<rparr>]\<rparr>"
  have obj: "dmsg (objects (c1\<lparr>cCache := x\<rparr>) ! length (objects c)) = m" for x by (simp add: c1_def)
  have same: "sameAnswer m (fst (getRoundRobin (c1\<lparr>cCache := x\<rparr>) (length (objects c))))"
    "ttlAtMost t (fst (getRoundRobin (c1\<lparr>cCache := x\<rparr>) (length (objects c))))" for x
    using getRoundRobin_same [OF assms(5) obj] assms(6) by blast+
  show ?thesis
  proof (cases "cDisableExpire c")
    case True
    let ?l = "lruAdd (libLRU D) l k (length (objects c))"
    obtain l2 where "lruGet (libLRU D) ?l k now = (Some (length (objects c)), l2)"
      using assms(1) by (metis lru_laws_def prod.collapse)
    moreover have "storeCache D c now0 k m t = c1\<lparr>cCache := Some ?l\<rparr>"
      using True assms(2,4) l by (simp add: storeCache_def c1_def)
    ultimately show ?thesis using same [of "Some l2"] assms(2) True
      by (simp add: loadResponse_def case_prod_unfold Let_def c1_def)
  next
    case False
    let ?l = "lruAddWithLifetime (libLRU D) l k (length (objects c)) now0 (second * uint t)"
    obtain l2 where "lruGetNoExpire (libLRU D) ?l k = (Some (length (objects c), now0 + second * uint t), l2)"
      using assms(1) by (metis lru_laws_def prod.collapse)
    moreover have "storeCache D c now0 k m t = c1\<lparr>cCache := Some ?l\<rparr>"
      using False assms(2,4) l by (simp add: storeCache_def c1_def)
    ultimately show ?thesis using same(1) [of "Some l2"] assms(2,7,8) False
      by (simp add: loadResponse_def case_prod_unfold Let_def c1_def ttlAtMost_normalize remaining_word)
  qed
qed


section \<open>In the store\<close>

text \<open>
  What the client relies on of the store: an entry just saved is loaded, its
  expiry cut to the second, and the others stay; a query just rejected is
  rejected again and changes no answer.
\<close>

definition timeOk :: "int \<Rightarrow> bool" where
  "timeOk t \<longleftrightarrow> - (2 ^ 63) \<le> timeUnix t \<and> timeUnix t < 2 ^ 63"

locale dns_store =
  fixes X :: "'s dnsStore"
  assumes save_load: "timeOk t \<Longrightarrow>
      sLoadDNSCache X (sSaveDNSCacheAsync X s k raw t) k = Some (raw, timeUnix t * second)"
    and save_other: "k' \<noteq> k \<Longrightarrow> sLoadDNSCache X (sSaveDNSCacheAsync X s k raw t) k' = sLoadDNSCache X s k'"
    and reject_load: "sLoadRDRC X (sSaveRDRCAsync X s k) now k"
    and reject_keeps: "sLoadDNSCache X (sSaveRDRCAsync X s k) k' = sLoadDNSCache X s k'"
begin

lemma store_load:
  assumes "libStore D = X" "cDNSCache c" "t \<noteq> 0" "typedAnswers (Answer m)" "ttlAtMost t m"
    "PackMsg (libDNS D) m = Some raw" "UnpackMsg (libDNS D) raw = Some m" "timeOk (now0 + second * uint t)"
    "now0 \<le> now" "now \<le> timeUnix (now0 + second * uint t) * second"
  shows "\<exists>m' left c'. loadResponse D (storeCache D c now0 k m t) now k = (Some (m', left, False), c') \<and>
    sameAnswer m m' \<and> ttlAtMost t m'"
proof -
  let ?at = "timeUnix (now0 + second * uint t) * second"
  define c1 where "c1 = c\<lparr>cStore := sSaveDNSCacheAsync X (cStore c) (storeKey D k) raw (now0 + second * uint t)\<rparr>"
  define m1 where "m1 = (if cDisableExpire c then m else normalizeTTL m (word_of_int (remainingTTL ?at now)))"
  define left where "left = (if cDisableExpire c then 0 else remainingTTL ?at now)"
  have "?at \<le> now0 + second * uint t"
    using pos_mod_sign [of second] by (simp add: timeUnix_def minus_mod_eq_div_mult [symmetric] second_def)
  then have at: "word_of_int (remainingTTL ?at now) \<le> t" using assms(9) by (intro remaining_word)
  have "storeCache D c now0 k m t = c1" using assms(1-3,6) by (simp add: storeCache_def c1_def)
  moreover have "loadPersistentResponse D c1 now k = (Some (m1, left, False), c1)"
    using assms(1,7,10) save_load [OF assms(8)]
    by (simp add: loadPersistentResponse_def c1_def m1_def left_def Let_def)
  ultimately have "loadResponse D (storeCache D c now0 k m t) now k =
      (Some (fst (rotatePersistent D c1 now k m1), left, False), snd (rotatePersistent D c1 now k m1))"
    using assms(2) by (simp add: loadResponse_def case_prod_unfold Let_def c1_def)
  moreover have "typedAnswers (Answer m1)" "sameAnswer m m1" "ttlAtMost t m1"
    using assms(4,5) at by (simp_all add: m1_def ttlAtMost_normalize)
  ultimately show ?thesis
    using rotatePersistent_same [of m1] by (auto simp: sameAnswer_def)
qed

end

lemma bucketPath_same: "cacheID c = cacheID c' \<Longrightarrow> DB c = DB c' \<Longrightarrow> bucketPath B c = bucketPath B c'"
  by (simp add: bucketPath_def fun_eq_iff cong: option.case_cong if_cong)

lemma queue_fields:
  "writing (queueDNSCache c k raw t) = writing c" "DB (queueDNSCache c k raw t) = DB c"
  "bucketPath B (queueDNSCache c k raw t) = bucketPath B c"
  "map_of (dnsCache (pending (queueDNSCache c k raw t))) = (map_of (dnsCache (pending c)))(k \<mapsto> cacheValue raw t)"
  "writing (queueRDRC c k) = writing c" "DB (queueRDRC c k) = DB c" "bucketPath B (queueRDRC c k) = bucketPath B c"
  "dnsCache (pending (queueRDRC c k)) = dnsCache (pending c)" "map_of (rdrc (pending (queueRDRC c k))) k \<noteq> None"
  by (auto simp: queueDNSCache_def queueRDRC_def Let_def update_conv intro!: bucketPath_same)

interpretation cacheDNS: dns_store "cacheFileDNS B outcome" for B outcome
proof
  fix s :: "'a CacheFile" and k k' raw t now
  show "timeOk t \<Longrightarrow> sLoadDNSCache (cacheFileDNS B outcome) (sSaveDNSCacheAsync (cacheFileDNS B outcome) s k raw t) k =
      Some (raw, timeUnix t * second)"
    by (simp add: cacheFileDNS_def LoadDNSCache_def queue_fields entryMessage_value timeOk_def)
  show "k' \<noteq> k \<Longrightarrow> sLoadDNSCache (cacheFileDNS B outcome) (sSaveDNSCacheAsync (cacheFileDNS B outcome) s k raw t) k' =
      sLoadDNSCache (cacheFileDNS B outcome) s k'"
    unfolding cacheFileDNS_def dnsStore.simps LoadDNSCache_def queue_fields by simp
  show "sLoadRDRC (cacheFileDNS B outcome) (sSaveRDRCAsync (cacheFileDNS B outcome) s k) now k"
    using queue_fields(9) [of s k] by (auto simp: cacheFileDNS_def LoadRDRC_def)
  show "sLoadDNSCache (cacheFileDNS B outcome) (sSaveRDRCAsync (cacheFileDNS B outcome) s k) k' =
      sLoadDNSCache (cacheFileDNS B outcome) s k'"
    unfolding cacheFileDNS_def dnsStore.simps LoadDNSCache_def queue_fields by simp
qed


section \<open>An answer is given again until it expires\<close>

text \<open>
  When an answer of time to live \<open>t\<close>, kept at \<open>now0\<close>, is fresh at \<open>now\<close>: a
  store counts whole seconds.
\<close>

definition freshAt :: "('l, 's) Client \<Rightarrow> int \<Rightarrow> u32 \<Rightarrow> int \<Rightarrow> bool" where
  "freshAt c now0 t now \<longleftrightarrow> now0 \<le> now \<and>
     now \<le> (if cDNSCache c then timeUnix (now0 + second * uint t) * second else now0 + second * uint t)"

definition cacheable :: "('l, 's) clientDeps \<Rightarrow> ('l, 's) Client \<Rightarrow> int \<Rightarrow> Msg \<Rightarrow> u32 \<Rightarrow> bool" where
  "cacheable D c now m t \<longleftrightarrow> t \<noteq> 0 \<and>
     (if cDNSCache c then timeOk (now + second * uint t) \<and> Option.bind (PackMsg (libDNS D) m) (UnpackMsg (libDNS D)) = Some m
      else cCache c \<noteq> None)"

lemma cached_load:
  fixes D :: "('l, 'd CacheFile) clientDeps"
  assumes "lru_laws (libLRU D)" "libStore D = cacheFileDNS B outcome" "typedAnswers (Answer m)" "ttlAtMost t m"
    "cacheable D c now0 m t" "freshAt c now0 t now"
  shows "\<exists>m' left c'. loadResponse D (storeCache D c now0 k m t) now k = (Some (m', left, False), c') \<and>
    sameAnswer m m' \<and> ttlAtMost t m'"
proof (cases "cDNSCache c")
  case True
  then obtain raw where "PackMsg (libDNS D) m = Some raw" "UnpackMsg (libDNS D) raw = Some m"
    using assms(5) by (auto simp: cacheable_def bind_eq_Some_conv)
  then show ?thesis
    using cacheDNS.store_load [OF assms(2)] True assms(3-6) by (simp add: cacheable_def freshAt_def)
next
  case False
  then show ?thesis using memory_load [OF assms(1)] assms(3-6) by (simp add: cacheable_def freshAt_def)
qed

text \<open>A request the client may answer from its cache.\<close>

definition cacheRequest :: "('l, 's) Client \<Rightarrow> ('l, 's) exchangeRun \<Rightarrow> Msg \<Rightarrow> DNSQueryOptions \<Rightarrow> DNSQuestion \<Rightarrow> bool" where
  "cacheRequest c r message options question \<longleftrightarrow>
     \<not> runCtxErr r \<and> Questions message = [question] \<and> isSimpleRequest message = Some True \<and>
     \<not> cDisableCache c \<and> \<not> qDisableCache options \<and>
     \<not> (Qtype question = TypeA \<and> qStrategy options = DomainStrategyIPv6Only) \<and>
     \<not> (Qtype question = TypeAAAA \<and> qStrategy options = DomainStrategyIPv4Only)"

lemma prepare_id [simp]: "MsgId (prepareExchangeMessage c message options) = MsgId message"
  by (auto simp: prepareExchangeMessage_def removeClientSubnet_def setClientSubnet_def Let_def split: prod.splits option.splits)

text \<open>A fresh answer in the cache ends an exchange at once, with or without the lock.\<close>

lemma loadResponse_locks:
  "loadResponse D (c\<lparr>cacheLock := locks\<rparr>) now k = (fst (loadResponse D c now k), (snd (loadResponse D c now k))\<lparr>cacheLock := locks\<rparr>)"
proof -
  have g: "getRoundRobin (c\<lparr>cacheLock := locks\<rparr>) p = (fst (getRoundRobin c p), (snd (getRoundRobin c p))\<lparr>cacheLock := locks\<rparr>)"
    for c p by (simp add: getRoundRobin_def case_prod_unfold Let_def)
  have p: "loadPersistentResponse D (c\<lparr>cacheLock := locks\<rparr>) now k =
      (fst (loadPersistentResponse D c now k), (snd (loadPersistentResponse D c now k))\<lparr>cacheLock := locks\<rparr>)" for c
    by (auto simp: loadPersistentResponse_def Let_def split: option.split)
  have q: "rotatePersistent D (c\<lparr>cacheLock := locks\<rparr>) now k m =
      (fst (rotatePersistent D c now k m), (snd (rotatePersistent D c now k m))\<lparr>cacheLock := locks\<rparr>)" for c m
    by (simp add: rotatePersistent_def case_prod_unfold Let_def split: option.split)
  have u: "c\<lparr>cacheLock := locks, cCache := x\<rparr> = c\<lparr>cCache := x\<rparr>\<lparr>cacheLock := locks\<rparr>" for x by simp
  show ?thesis
    by (simp add: loadResponse_def case_prod_unfold Let_def p q u g del: Client.update_convs split: option.split)
qed

lemma exchange_cached:
  assumes "cacheRequest c r message options question"
    "loadResponse D c (timeNow (runBegin r)) (newCacheKey c (runBegin r) (runTag r) question
       (prepareExchangeMessage c message options) options) = (Some (m, left, False), c1)"
  shows "\<exists>c2. Exchange D c r message options checker = (Some (Some (m\<lparr>MsgId := MsgId message\<rparr>), None), c2)"
proof -
  define opts where "opts = (if qTimeout options = 0 then options\<lparr>qTimeout := cTimeout c\<rparr> else options)"
  have same: "prepareExchangeMessage c message opts = prepareExchangeMessage c message options"
    "newCacheKey c w tag question msg opts = newCacheKey c w tag question msg options" for w tag msg
    by (simp_all add: opts_def prepareExchangeMessage_def newCacheKey_def)
  define opr where "opr = newOperation c r question True message opts checker"
  have opr: "\<not> opDisableCache opr" "opMessageId opr = MsgId message" "releaseCond opr = None"
    "opCacheKey opr = newCacheKey c (runBegin r) (runTag r) question (prepareExchangeMessage c message options) options"
    unfolding opr_def newOperation_def Let_def same using assms(1) by (simp_all add: cacheRequest_def opts_def)
  have "\<exists>c2. beginOperation D c r opr True = (ExchangeDone (Some (m\<lparr>MsgId := MsgId message\<rparr>)) None, c2)"
    using assms(2) opr by (simp add: beginOperation_def Let_def cachedAnswer_def loadResponse_locks)
  moreover have "beginExchange D c r message opts checker True = beginOperation D c r opr True"
    using assms(1) by (auto simp: beginExchange_def cacheRequest_def opr_def opts_def)
  ultimately show ?thesis by (auto simp: Exchange_def Let_def opts_def [symmetric])
qed


text \<open>
  C12. An answer obtained by an exchange, with a time to live, is the answer
  to the next request for the same key while it is fresh: with the same
  data, in some order, under the identifier of the request, without asking
  the transport, and with no record that lives longer than the first time.
  This holds of the cache in memory and of the one in the cache file.
\<close>

theorem answer_cached:
  fixes D :: "('l, 'd CacheFile) clientDeps"
  assumes "lru_laws (libLRU D)" "libStore D = cacheFileDNS B outcome" "typedAnswers (Answer response)"
    "\<not> opDisableCache opr" "\<not> badRcode response"
    "finishExchange D c tag w opr response = ((answer, None), c1)" "finishCacheKey c w (opCacheKey opr) = Some k"
    "applyResponseOptions c (opQuestion opr) response (opOptions opr) = (timeToLive, m)"
    "cacheable D c (timeNow w) m timeToLive" "freshAt c (timeNow w) timeToLive (timeNow (runBegin r))"
    "cacheRequest c1 r message options question"
    "newCacheKey c1 (runBegin r) (runTag r) question (prepareExchangeMessage c1 message options) options = k"
  shows "\<exists>m' c2. Exchange D c1 r message options checker = (Some (Some m', None), c2) \<and>
    MsgId m' = MsgId message \<and> sameAnswer m m' \<and> ttlAtMost timeToLive m'"
proof -
  have "\<not> (case opChecker opr of None \<Rightarrow> False | Some check \<Rightarrow> badRcode response \<or> \<not> check response)"
    using assms(6) by (auto simp: finishExchange_def Let_def split: if_splits)
  then have c1: "c1 = storeCache D c (timeNow w) k m timeToLive"
    using assms(4-8) by (simp add: finishExchange_def Let_def)
  note typed = applyResponseOptions_typed [OF assms(8,3)]
  obtain m' left c2 where load: "loadResponse D c1 (timeNow (runBegin r)) k = (Some (m', left, False), c2)"
      "sameAnswer m m'" "ttlAtMost timeToLive m'"
    using cached_load [OF assms(1,2) typed assms(9,10)] unfolding c1 by blast
  obtain c3 where "Exchange D c1 r message options checker = (Some (Some (m'\<lparr>MsgId := MsgId message\<rparr>), None), c3)"
    using exchange_cached [OF assms(11), unfolded assms(12), OF load(1)] by blast
  then show ?thesis using load(2,3) by (fastforce simp: ttlAtMost_def)
qed


section \<open>No answer is older than allowed\<close>

text \<open>The entry of a key: the message and its expiry, in memory or in the store.\<close>

definition entryOfKey :: "('l, 's) clientDeps \<Rightarrow> ('l, 's) Client \<Rightarrow> dnsCacheKey \<Rightarrow> (Msg \<times> int) option" where
  "entryOfKey D c k =
     (if cDNSCache c then
        Option.bind (sLoadDNSCache (libStore D) (cStore c) (storeKey D k))
          (\<lambda>(raw, expireAt). map_option (\<lambda>m. (m, expireAt)) (UnpackMsg (libDNS D) raw))
      else
        Option.bind (cCache c) (\<lambda>l.
          map_option (\<lambda>(pointer, expireAt). (dmsg (objects c ! pointer), expireAt)) (fst (lruGetNoExpire (libLRU D) l k))))"



section \<open>Examples\<close>

lemma exampleAnswer_facts:
  "typedAnswers (Answer exampleAnswer)" "\<not> badRcode exampleAnswer" "Rcode exampleAnswer = RcodeSuccess"
  "applyResponseOptions (exampleClient p) exampleQuestion exampleAnswer exampleOptions = (60, exampleAnswer)"
proof -
  have m: "exampleAnswer = fixedAnswer 7 exampleQuestion
      [fixedRecord exampleQuestion TypeA 60 (RA (be_bytes 4 1)), fixedRecord exampleQuestion TypeA 60 (RA (be_bytes 4 2))]"
    by (simp add: exampleAnswer_def FixedResponse_def exampleQuestion_def)
  show "typedAnswers (Answer exampleAnswer)" "\<not> badRcode exampleAnswer" "Rcode exampleAnswer = RcodeSuccess"
    unfolding m by (simp_all add: typedAnswers_def isA_def isAAAA_def badRcode_def)
  have "computeTimeToLive exampleAnswer = 60" "normalizeTTL exampleAnswer 60 = exampleAnswer"
    unfolding m by (simp_all add: computeTimeToLive_def normalizeTTL_def)
  then show "applyResponseOptions (exampleClient p) exampleQuestion exampleAnswer exampleOptions = (60, exampleAnswer)"
    by (simp add: applyResponseOptions_def exampleOptions_def exampleQuestion_def Let_def)
qed

lemma exampleLRU_laws: "lru_laws (libLRU exampleDeps)"
  by (simp add: lru_laws_def exampleDeps_def exampleLRU_def)

theorem answer_cached_witness:
  "let c1 = snd (finishExchange exampleDeps (exampleClient True) ''t'' (exampleMoment 0) exampleOperation exampleAnswer) in
   \<exists>m' c2. Exchange exampleDeps c1 (exampleExchange (30 * second)) exampleRequest exampleOptions None = (Some (Some m', None), c2) \<and>
     MsgId m' = 7 \<and> sameAnswer exampleAnswer m' \<and> ttlAtMost 60 m'"
proof -
  let ?c = "exampleClient True" and ?w = "exampleMoment 0" and ?r = "exampleExchange (30 * second)"
  have opr: "opQuestion exampleOperation = exampleQuestion" "opOptions exampleOperation = exampleOptions"
    "opCacheKey exampleOperation = exampleDNSKey" "\<not> opDisableCache exampleOperation" "opChecker exampleOperation = None"
    by (simp_all add: exampleOperation_def)
  have k: "finishCacheKey ?c ?w exampleDNSKey = Some exampleDNSKey"
    by (simp add: finishCacheKey_def environmentHash_def exampleMoment_def exampleDNSKey_def)
  obtain answer c1 where fin: "finishExchange exampleDeps ?c ''t'' ?w exampleOperation exampleAnswer = ((answer, None), c1)"
    and c1: "c1 = storeCache exampleDeps ?c 0 exampleDNSKey exampleAnswer 60"
    using exampleAnswer_facts(2) exampleAnswer_facts(4) [of True] k opr by (simp add: finishExchange_def Let_def exampleMoment_def)
  have pack: "cacheable exampleDeps ?c 0 exampleAnswer 60"
    by (simp add: cacheable_def timeOk_def timeUnix_def second_def exampleDeps_def exampleDNS_def)
  obtain s where s: "c1 = ?c\<lparr>cStore := s\<rparr>"
    unfolding c1 storeCache_def by (auto simp: exampleDeps_def exampleDNS_def)
  have same: "prepareExchangeMessage c1 = prepareExchangeMessage ?c" "newCacheKey c1 = newCacheKey ?c"
    unfolding s by (simp_all add: fun_eq_iff prepareExchangeMessage_def newCacheKey_def environmentHash_def)
  have req: "cacheRequest c1 ?r exampleRequest exampleOptions exampleQuestion"
    by (simp add: cacheRequest_def s exampleExchange_def exampleRequest_def exampleOptions_def isSimpleRequest_def)
  have key: "newCacheKey c1 (runBegin ?r) (runTag ?r) exampleQuestion (prepareExchangeMessage c1 exampleRequest exampleOptions) exampleOptions
      = exampleDNSKey"
    unfolding same by (simp add: exampleExchange_def)
  have fresh: "freshAt ?c 0 60 (30 * second)" by (simp add: freshAt_def timeUnix_def second_def)
  have "\<exists>m' c2. Exchange exampleDeps c1 ?r exampleRequest exampleOptions None = (Some (Some m', None), c2) \<and>
      MsgId m' = MsgId exampleRequest \<and> sameAnswer exampleAnswer m' \<and> ttlAtMost 60 m'"
  proof (rule answer_cached [OF exampleLRU_laws _ exampleAnswer_facts(1) opr(4) exampleAnswer_facts(2) fin])
    show "libStore exampleDeps = cacheFileDNS mapBolt TxCommit" by (simp add: exampleDeps_def)
    show "cacheable exampleDeps ?c (timeNow ?w) exampleAnswer 60" "freshAt ?c (timeNow ?w) 60 (timeNow (runBegin ?r))"
      using pack fresh by (simp_all add: exampleMoment_def exampleExchange_def)
  qed (use opr k req key exampleAnswer_facts(4) in simp_all)
  then show ?thesis using fin by (simp add: exampleRequest_def)
qed


end
