(* ===== verification/Spec2Isabelle.thy ===== *)
theory Spec2Isabelle
  imports RuleProps RuleSetProps Geosite TLSFragment Trojan BadVersion DNSCacheProps
begin

text \<open>
  A verification library for sing-box, a universal proxy platform written in
  Go. It models the parts of the program that compute: how a connection or a
  DNS query is matched against the configured rules, the rule sets behind
  them and their binary format, the FakeIP addresses given out for domains,
  the DNS client with its caches, the cache file in which these parts keep
  their state over a restart, and four smaller codecs. All paths are below
  \<^verbatim>\<open>src/\<close>.

  \<^bold>\<open>How the parts interact.\<close> A rule (\<^verbatim>\<open>route/rule\<close>) is built from options and
  matches an \<^verbatim>\<open>InboundContext\<close> (\<^verbatim>\<open>adapter/inbound.go\<close>); it may refer to rule
  sets, which are loaded from source or from the binary format
  (\<^verbatim>\<open>common/srs\<close>), from disk or from the network, and are kept in the cache
  file (\<^verbatim>\<open>experimental/cachefile\<close>). The address sets of rules and rule sets
  are those of \<^verbatim>\<open>common/ipset\<close>. The DNS client (\<^verbatim>\<open>dns/client.go\<close>) keeps
  answers in memory or in the cache file, and the FakeIP store
  (\<^verbatim>\<open>dns/transport/fakeip\<close>) keeps its pairs of address and domain there.

  \<^bold>\<open>Conventions.\<close> A struct is a record, an enumeration or a tagged union a
  datatype, a method that changes its receiver a function that returns the
  new state. Integers of fixed width are words. An error is a value of a sum
  or option type; where the code can panic or not return, an outer
  \<open>None\<close> says so. Libraries outside the repository are arguments (records of
  functions such as \<open>env\<close>, \<open>bolt\<close>, \<open>srsLib\<close>, \<open>dnsLib\<close>, \<open>lruLib\<close>), with what
  the code relies on as named predicates (\<open>bolt_laws\<close>, \<open>varint_laws\<close>,
  \<open>addrFromIP_laws\<close>, \<open>serializer_laws\<close>, \<open>srs_laws\<close>, \<open>lru_laws\<close>, ...), each
  shown to hold of a concrete instance in the witnesses. Times are
  nanoseconds; what depends on the clock takes the time as an argument.

  \<^bold>\<open>Foundations.\<close> \<open>Prelude\<close>: the collections of simplification rules and the
  shared facts on lists, strings, bytes and words. \<open>GoStd\<close>: what the sources
  use of the Go library (strings, numbers, MAC addresses, varints, times).
  \<open>Netip\<close>: \<^verbatim>\<open>net/netip\<close>.

  \<^bold>\<open>Rules.\<close> \<open>IPSet\<close> (\<^verbatim>\<open>common/ipset/set.go\<close>): the sets accept exactly ordered
  disjoint ranges and their bisection decides membership; the locale
  \<open>range_search\<close> has the bisection once, for both families.
  \<open>RuleContext\<close>, \<open>RuleItems\<close>: the metadata and every \<^verbatim>\<open>rule_item_*.go\<close>.
  \<open>RuleEngine\<close> (\<^verbatim>\<open>rule_abstract.go\<close>, \<^verbatim>\<open>match_state.go\<close>,
  \<^verbatim>\<open>rule_item_rule_set.go\<close>): matching with its bit masks, caches and
  snapshots. \<open>RuleSemantics\<close>: a declarative meaning of rules without them.
  \<open>RuleActions\<close>: actions, with the rejection window and predefined answers.
  \<open>RuleBuild\<close>, \<open>RuleConfig\<close>: the constructors of route, DNS and headless
  rules from their options. \<open>RuleProps\<close>: matching equals the meaning and
  keeps the metadata, a route rule matches as documented, constructors give
  well-formed rules and refuse nested actions.

  \<^bold>\<open>Rule sets.\<close> \<open>SRS\<close> (\<^verbatim>\<open>common/srs\<close>): reader and writer. The loop that reads
  the items of a rule is a partial function, as a stream could go on for
  ever; nested rules recurse on the number of levels left, which starts at
  the limit of 100 that the code sets. \<open>SRSProps\<close>: what is written is read
  back, and reading returns on every input. \<open>SRSMatch\<close>: a compiled rule set
  matches as its source does. \<open>RuleSets\<close>: loading, publishing and dropping
  rules, local and remote sets, updates. \<open>RuleSetProps\<close>: published rules are
  well formed after any sequence of operations, a failed update changes
  nothing, and a fetched set is restored after a restart. The locale
  \<open>rule_set_store\<close> is what a remote set asks of its cache, interpreted on the
  cache file.

  \<^bold>\<open>FakeIP.\<close> \<open>FakeIPMetadata\<close>, \<open>FakeIPRange\<close>, \<open>FakeIPStore\<close>: binary form, walk of
  the allocator over its range, and the store over a storage, which is the
  locale \<open>fakeip_storage\<close>, interpreted on the memory storage; within its
  room the store gives every domain an address of its own.

  \<^bold>\<open>Cache file.\<close> \<open>BoltDB\<close>: the database as a parameter, with its laws.
  \<open>CacheFile\<close>, \<open>CacheDNS\<close>, \<open>CacheValues\<close>, \<open>SavedBinary\<close>: the queue of pending
  writes, the flush in the three parts between which other calls can fall,
  DNS answers, rejected queries, saved content and values. \<open>CacheLayers\<close>,
  \<open>CacheFakeIP\<close>, \<open>CacheWrite\<close>, \<open>CacheRun\<close>, \<open>CacheProps\<close>: readers see the
  writes as if they went to one map at once, and the FakeIP store over the
  cache file is still one to one. \<open>CacheFlush\<close>: queued writes get flushed,
  a failed flush loses no entry. \<open>CacheClean\<close>: deletion and clean-up remove
  exactly what they should.

  \<^bold>\<open>DNS client.\<close> \<open>DNSMessage\<close> (\<^verbatim>\<open>dns/client.go\<close>,
  \<^verbatim>\<open>dns/extension_edns0_subnet.go\<close>): times to live, round robin, client
  subnet, fixed responses. \<open>DNSClient\<close>: keys, caches, exchanges with their
  locks, refresh in the background, lookups. Cached messages are shared by
  pointer, so they are kept in a list of objects. What other goroutines do
  while an exchange waits or its transport works is an argument of the run.
  \<open>DNSClientProps\<close>: keys separate subnets and environments, and over all
  interleavings every lock belongs to one operation in flight. \<open>DNSCacheProps\<close>:
  an answer is given again until it expires, from memory or from the cache
  file (the locale \<open>dns_store\<close>, interpreted on it), and never later than the
  configuration allows.

  \<^bold>\<open>Codecs.\<close> \<open>Geosite\<close> (\<^verbatim>\<open>common/geosite\<close>): written files are read back.
  \<open>TLSFragment\<close> (\<^verbatim>\<open>common/tlsfragment\<close>): the position of the server name and
  the split first write, which keeps the stream; the loop over extensions is
  a partial function because it may not end, and one such input is shown.
  \<open>Trojan\<close> (\<^verbatim>\<open>transport/trojan\<close>): requests, packets, users. \<open>BadVersion\<close>
  (\<^verbatim>\<open>common/badversion\<close>): versions, their order and their printing.

  \<^bold>\<open>Not modelled.\<close> Sockets, TLS, QUIC, HTTP and the proxy protocols, which are
  work of third-party libraries; operating system interfaces (eBPF, tun,
  process lookup, system settings); the command line, the APIs and the
  mobile bindings; JSON decoding by reflection; logging. Opening and
  repairing the database file, watching files and HTTP transports are left
  out of the parts that are modelled, and so are, of the DNS client,
  logging, the chain of aliases kept in contexts and the truncation of
  packed messages. The fraction of a second of a remaining time to live is
  cut exactly, where the code goes through a floating point number. The
  route engine and the DNS router, which drive the modelled rules and client
  through goroutines and contexts, the sniffers, the expiring map, STUN,
  JA3, the AdGuard conversion and the outbound groups are not part of the
  library.
\<close>

end
